theory Spec2Isabelle
  imports Complex_Main
begin

section \<open>Errors\<close>

text \<open>
  The three exception classes that the modelled code throws: the plain \<open>Error\<close> of
  \<open>Transition\<close>, \<open>ViewError\<close> and \<open>EngineError\<close>, each with its message.
\<close>

datatype error = Error string | ViewError string | EngineError string

section \<open>Transition (transition/Transition.ts)\<close>

text \<open>
  JavaScript numbers are modelled as reals; \<open>Number.NaN\<close>, which the class uses only as
  the initial \<open>lastUpdateTime\<close>, is \<open>None\<close>. The five callback sets are observers: a call
  of \<open>notifyCallbacks\<close> is modelled by the notification it delivers, the set that is
  notified together with the \<open>currentValue\<close> handed to every callback of that set. Each
  method returns the notifications it fired, in order, and the transition it leaves.
\<close>

datatype callbacks = OnStart | OnPause | OnResume | OnEnd | OnUpdate

type_synonym 'v notification = "callbacks \<times> 'v"

record 'v transition =
  startValue :: 'v
  endValue :: 'v
  duration :: real
  convertToNumber :: "'v \<Rightarrow> real"
  convertFromNumber :: "real \<Rightarrow> 'v"
  currentValue :: 'v
  easing :: "real \<Rightarrow> real"
  delay :: real
  isStarted :: bool
  isPaused :: bool
  isEnded :: bool
  lastUpdateTime :: "real option"
  runningTime :: real

definition LinearEasing :: "real \<Rightarrow> real" where
  "LinearEasing it = it"

text \<open>The constructor; the converter is passed as its two functions.\<close>

definition new_Transition ::
  "'v \<Rightarrow> 'v \<Rightarrow> real \<Rightarrow> ('v \<Rightarrow> real) \<Rightarrow> (real \<Rightarrow> 'v) \<Rightarrow> 'v transition" where
  "new_Transition sv ev d toNumber fromNumber =
     \<lparr> startValue = sv, endValue = ev, duration = d,
       convertToNumber = toNumber, convertFromNumber = fromNumber,
       currentValue = sv, easing = LinearEasing, delay = 0,
       isStarted = False, isPaused = False, isEnded = False,
       lastUpdateTime = None, runningTime = 0 \<rparr>"

text \<open>The default converter \<open>IdentityConverter\<close> on numbers.\<close>

definition new_NumberTransition :: "real \<Rightarrow> real \<Rightarrow> real \<Rightarrow> real transition" where
  "new_NumberTransition sv ev d = new_Transition sv ev d (\<lambda>it. it) (\<lambda>it. it)"

definition setEasing :: "(real \<Rightarrow> real) \<Rightarrow> 'v transition \<Rightarrow> 'v transition" where
  "setEasing e t = t\<lparr>easing := e\<rparr>"

definition setDelay :: "real \<Rightarrow> 'v transition \<Rightarrow> 'v transition" where
  "setDelay d t = t\<lparr>delay := d\<rparr>"

definition notifyCallbacks :: "callbacks \<Rightarrow> 'v transition \<Rightarrow> 'v notification list" where
  "notifyCallbacks cs t = [(cs, currentValue t)]"

definition isRunning :: "'v transition \<Rightarrow> bool" where
  "isRunning t \<longleftrightarrow> isStarted t \<and> \<not> isPaused t \<and> \<not> isEnded t"

text \<open>The getter \<open>fraction\<close>; \<open>!this.duration\<close> is \<open>duration = 0\<close> on reals.\<close>

definition fraction :: "'v transition \<Rightarrow> real" where
  "fraction t =
     (if duration t = 0 then 1
      else min (max 0 ((runningTime t - delay t) / duration t)) 1)"

definition updateCurrentValue :: "'v transition \<Rightarrow> 'v notification list \<times> 'v transition" where
  "updateCurrentValue t =
     (let fr = fraction t;
          numberFraction = easing t fr;
          initialNumber = convertToNumber t (startValue t);
          targetNumber = convertToNumber t (endValue t);
          currentNumber = initialNumber + numberFraction * (targetNumber - initialNumber);
          t1 = t\<lparr>currentValue := convertFromNumber t currentNumber\<rparr>;
          isEnding = (fr = 1);
          t2 = (if isEnding then t1\<lparr>isEnded := True\<rparr> else t1)
      in (notifyCallbacks OnUpdate t2 @ (if isEnding then notifyCallbacks OnEnd t2 else []), t2))"

definition start :: "'v transition \<Rightarrow> error + 'v notification list \<times> 'v transition" where
  "start t =
     (if isEnded t then Inl (Error ''Cannot start a transition that has already ended'')
      else if isStarted t then Inr ([], t)
      else (let t1 = t\<lparr>isStarted := True\<rparr>;
                ns = notifyCallbacks OnStart t1;
                (ns', t2) = updateCurrentValue t1
            in Inr (ns @ ns', t2)))"

definition pause :: "'v transition \<Rightarrow> error + 'v notification list \<times> 'v transition" where
  "pause t =
     (if isEnded t then Inl (Error ''Cannot pause a transition that has already ended'')
      else if isPaused t then Inr ([], t)
      else (let t1 = t\<lparr>isPaused := True\<rparr> in Inr (notifyCallbacks OnPause t1, t1)))"

definition resume :: "'v transition \<Rightarrow> error + 'v notification list \<times> 'v transition" where
  "resume t =
     (if isEnded t then Inl (Error ''Cannot resume a transition that has already ended'')
      else if \<not> isPaused t then Inr ([], t)
      else (let t1 = t\<lparr>isPaused := False\<rparr> in Inr (notifyCallbacks OnResume t1, t1)))"

definition cancel :: "bool \<Rightarrow> 'v transition \<Rightarrow> 'v notification list \<times> 'v transition" where
  "cancel snapToEnd t =
     (if \<not> isRunning t then ([], t)
      else (let t1 = t\<lparr>isEnded := True\<rparr>;
                t2 = (if snapToEnd then t1\<lparr>currentValue := endValue t1\<rparr> else t1);
                ns = (if snapToEnd then notifyCallbacks OnUpdate t2 else [])
            in (ns @ notifyCallbacks OnEnd t2, t2)))"

definition set_fraction ::
  "real \<Rightarrow> 'v transition \<Rightarrow> error + 'v notification list \<times> 'v transition" where
  "set_fraction fr t =
     (if isEnded t
      then Inl (Error ''Cannot change fraction for a transition that has already ended'')
      else Inr (updateCurrentValue
                  (t\<lparr>runningTime := delay t + min (max 0 fr) 1 * duration t\<rparr>)))"

definition update :: "real \<Rightarrow> 'v transition \<Rightarrow> 'v notification list \<times> 'v transition" where
  "update time t =
     (if \<not> isRunning t then ([], t\<lparr>lastUpdateTime := Some time\<rparr>)
      else (let t1 = (case lastUpdateTime t of
                        None \<Rightarrow> t
                      | Some l \<Rightarrow> t\<lparr>runningTime := runningTime t + (time - l)\<rparr>);
                t2 = t1\<lparr>lastUpdateTime := Some time\<rparr>
            in updateCurrentValue t2))"

text \<open>The spec's \<open>clamp(x, lo, hi)\<close>.\<close>

definition clamp :: "real \<Rightarrow> real \<Rightarrow> real \<Rightarrow> real" where
  "clamp x lo hi = (if x < lo then lo else if hi < x then hi else x)"

text \<open>
  Two concrete transitions used below: a fresh zero-duration transition from 0 to 1, and
  a transition from 0 to 1 over 500 that has been started and has ended.
\<close>

definition zero_duration_example :: "real transition" where
  "zero_duration_example = new_NumberTransition 0 1 0"

definition running_example :: "real transition" where
  "running_example = (new_NumberTransition 0 1 500)\<lparr>isStarted := True\<rparr>"

definition ended_example :: "real transition" where
  "ended_example =
     (new_NumberTransition 0 1 500)\<lparr>isStarted := True, isEnded := True, currentValue := 1\<rparr>"

section \<open>ElementPropertyMatcher (engine/ElementPropertyMatcher.ts)\<close>

text \<open>
  A \<open>Matcher\<close> is its \<open>match\<close> function. The glob matchers are built by the external
  \<open>minimatch\<close> library, so an \<open>ElementPropertyMatcher\<close> is any list of pairs of an element
  matcher and a property matcher.
\<close>

type_synonym matcher = "string \<Rightarrow> bool"

definition Matcher_Any :: matcher where
  "Matcher_Any = (\<lambda>_. True)"

definition isDigit :: "char \<Rightarrow> bool" where
  "isDigit c \<longleftrightarrow> c \<in> set ''0123456789''"

text \<open>\<open>elementName.replace(/(?<![0-9])1$/, '')\<close>.\<close>

definition replaceIndex1 :: "string \<Rightarrow> string" where
  "replaceIndex1 elementName =
     (case rev elementName of
        [] \<Rightarrow> elementName
      | c # r \<Rightarrow>
          if c = CHR ''1'' \<and> (case r of [] \<Rightarrow> True | d # _ \<Rightarrow> \<not> isDigit d)
          then rev r else elementName)"

text \<open>The local \<open>propertyMatchers\<close> of \<open>getPropertyMatcher\<close>, and the matcher it returns.\<close>

definition propertyMatchers :: "(matcher \<times> matcher) list \<Rightarrow> string \<Rightarrow> matcher list" where
  "propertyMatchers matchers elementName =
     map snd (filter (\<lambda>it. fst it elementName \<or> fst it (replaceIndex1 elementName)) matchers)"

definition getPropertyMatcher :: "(matcher \<times> matcher) list \<Rightarrow> string \<Rightarrow> matcher" where
  "getPropertyMatcher matchers elementName =
     (\<lambda>propertyName. list_ex (\<lambda>it. it propertyName) (propertyMatchers matchers elementName))"

text \<open>
  The spec's words: \<open>base\<close> is the element name with one single trailing \<open>1\<close>, a \<open>1\<close>
  that is not preceded by another digit, removed.
\<close>

definition trailing1Removed :: "string \<Rightarrow> string \<Rightarrow> bool" where
  "trailing1Removed elementName base \<longleftrightarrow>
     elementName = base @ ''1'' \<and> (base = [] \<or> \<not> isDigit (last base))"

definition figure_value_matchers :: "(matcher \<times> matcher) list" where
  "figure_value_matchers = [((\<lambda>n. n = ''figure''), (\<lambda>p. p = ''value''))]"

section \<open>Property values and element properties (engine/PropertyValue.ts, ElementProperties.ts)\<close>

datatype angle_unit = Deg | Rad | Grad | Turn

datatype time_unit = S | Ms | Spe | Mspe

datatype property_value =
    InitialValue
  | NoneValue
  | ZeroValue
  | AngleValue real angle_unit
  | BooleanValue bool
  | NumberValue real
  | LengthValue real
  | PercentageValue real
  | StringValue string
  | TimeValue real time_unit

text \<open>
  An \<open>ElementProperties\<close> object has its \<open>type\<close> and \<open>index\<close> and, under their names, the
  optional properties that have been set.
\<close>

record element_properties =
  el_type :: string
  el_index :: int
  el_props :: "string \<Rightarrow> property_value option"

definition ELEMENT_TYPES :: "string list" where
  "ELEMENT_TYPES = [''background'', ''figure'', ''foreground'', ''avatar'', ''name'', ''text'',
     ''choice'', ''music'', ''sound'', ''voice'', ''video'', ''effect'']"

text \<open>The \<open>resolve\<close> functions; \<open>undefined\<close> is \<open>None\<close>.\<close>

fun ZeroValue_resolve :: "property_value \<Rightarrow> real option" where
  "ZeroValue_resolve ZeroValue = Some 0"
| "ZeroValue_resolve _ = None"

fun AngleValue_resolve :: "property_value \<Rightarrow> real option" where
  "AngleValue_resolve (AngleValue v Deg) = Some ((v * pi) / 180)"
| "AngleValue_resolve (AngleValue v Rad) = Some v"
| "AngleValue_resolve (AngleValue v Grad) = Some ((v * pi) / 200)"
| "AngleValue_resolve (AngleValue v Turn) = Some (v * 2 * pi)"
| "AngleValue_resolve _ = None"

fun BooleanValue_resolve :: "property_value \<Rightarrow> bool option" where
  "BooleanValue_resolve (BooleanValue b) = Some b"
| "BooleanValue_resolve _ = None"

fun NumberValue_resolve :: "property_value \<Rightarrow> real option" where
  "NumberValue_resolve (NumberValue v) = Some v"
| "NumberValue_resolve _ = None"

fun LengthValue_resolve :: "property_value \<Rightarrow> real option" where
  "LengthValue_resolve (LengthValue v) = Some v"
| "LengthValue_resolve _ = None"

fun PercentageValue_resolve :: "property_value \<Rightarrow> real \<Rightarrow> real option" where
  "PercentageValue_resolve (PercentageValue v) parentValue = Some ((v / 100) * parentValue)"
| "PercentageValue_resolve _ parentValue = None"

fun StringValue_resolve :: "property_value \<Rightarrow> string option" where
  "StringValue_resolve (StringValue s) = Some s"
| "StringValue_resolve _ = None"

fun TimeValue_resolve :: "property_value \<Rightarrow> real \<Rightarrow> real option" where
  "TimeValue_resolve (TimeValue v S) elementCount = Some (v * 1000)"
| "TimeValue_resolve (TimeValue v Ms) elementCount = Some v"
| "TimeValue_resolve (TimeValue v Spe) elementCount = Some (v * 1000 * elementCount)"
| "TimeValue_resolve (TimeValue v Mspe) elementCount = Some (v * elementCount)"
| "TimeValue_resolve _ elementCount = None"

text \<open>The operator \<open>??\<close>.\<close>

definition orElse :: "'a option \<Rightarrow> 'a option \<Rightarrow> 'a option" where
  "orElse a b = (case a of None \<Rightarrow> b | Some x \<Rightarrow> Some x)"

section \<open>Resolved properties (view/ElementResolvedProperties.ts)\<close>

definition resolvePropertyValue ::
  "property_value option \<Rightarrow> (property_value \<Rightarrow> 'r option) \<Rightarrow> error + 'r option" where
  "resolvePropertyValue v resolve =
     (case v of
        None \<Rightarrow> Inr None
      | Some pv \<Rightarrow>
          (case resolve pv of
             None \<Rightarrow> Inl (ViewError ''Unable to resolve value [object Object]'')
           | Some r \<Rightarrow> Inr (Some r)))"

text \<open>
  \<open>resolveElementValue\<close>: \<open>NoneValue.resolve\<close> gives the symbol \<open>NoneValue.VALUE\<close>, here
  \<open>Inl ()\<close>, which becomes \<open>undefined\<close>.
\<close>

definition resolveElementValue :: "element_properties \<Rightarrow> error + string option" where
  "resolveElementValue properties =
     (case resolvePropertyValue (el_props properties ''value'')
             (\<lambda>it. orElse (if it = NoneValue then Some (Inl ()) else None)
                           (map_option Inr (StringValue_resolve it))) of
        Inl e \<Rightarrow> Inl e
      | Inr None \<Rightarrow> Inr None
      | Inr (Some (Inl _)) \<Rightarrow> Inr None
      | Inr (Some (Inr s)) \<Rightarrow> Inr (Some s))"

text \<open>JavaScript truthiness of a \<open>string | undefined\<close>: the empty string is falsy.\<close>

definition truthy :: "string option \<Rightarrow> bool" where
  "truthy v \<longleftrightarrow> v \<noteq> None \<and> v \<noteq> Some []"

definition defaultTransitionDuration :: "string \<Rightarrow> real \<Rightarrow> error + real" where
  "defaultTransitionDuration t elementCount =
     (if t = ''background'' then Inr 1000
      else if t = ''figure'' \<or> t = ''foreground'' \<or> t = ''avatar'' then Inr 500
      else if t = ''name'' then Inr 0
      else if t = ''text'' then Inr (50 * elementCount)
      else if t = ''choice'' then Inr 500
      else if t = ''music'' then Inr 1000
      else if t = ''sound'' \<or> t = ''voice'' \<or> t = ''video'' \<or> t = ''effect'' then Inr 0
      else Inl (ViewError (''Unexpected element type \"'' @ t @ ''\"'')))"

definition resolveElementTransitionDuration :: "element_properties \<Rightarrow> real \<Rightarrow> error + real" where
  "resolveElementTransitionDuration properties elementCount =
     (case defaultTransitionDuration (el_type properties) elementCount of
        Inl e \<Rightarrow> Inl e
      | Inr d \<Rightarrow>
          (case resolvePropertyValue (el_props properties ''transitionDuration'')
                  (\<lambda>it. orElse (ZeroValue_resolve it) (TimeValue_resolve it elementCount)) of
             Inl e \<Rightarrow> Inl e
           | Inr r \<Rightarrow> Inr (case r of None \<Rightarrow> d | Some v \<Rightarrow> v)))"

record image_resolve_options =
  valueChanged :: bool
  screenWidth :: real
  screenHeight :: real
  imageWidth :: real
  imageHeight :: real
  figureIndex :: "real option"
  figureCount :: "real option"
  avatarPositionX :: "real option"
  avatarPositionY :: "real option"

text \<open>
  The resolved properties of an image. A default position is computed from options that
  the caller may have left \<open>undefined\<close>; \<open>positionX\<close> and \<open>positionY\<close> are \<open>None\<close> where
  JavaScript would then compute \<open>NaN\<close> or \<open>undefined\<close>.
\<close>

record image_resolved_properties =
  r_value :: real
  r_anchorX :: real
  r_anchorY :: real
  r_positionX :: "real option"
  r_positionY :: "real option"
  r_offsetX :: real
  r_offsetY :: real
  r_pivotX :: real
  r_pivotY :: real
  r_scaleX :: real
  r_scaleY :: real
  r_skewX :: real
  r_skewY :: real
  r_rotation :: real
  r_alpha :: real

definition resolveLength :: "property_value option \<Rightarrow> real \<Rightarrow> error + real option" where
  "resolveLength v parentValue =
     resolvePropertyValue v
       (\<lambda>it. orElse (ZeroValue_resolve it)
               (orElse (LengthValue_resolve it) (PercentageValue_resolve it parentValue)))"

definition resolveNumber :: "property_value option \<Rightarrow> error + real option" where
  "resolveNumber v =
     resolvePropertyValue v (\<lambda>it. orElse (NumberValue_resolve it) (PercentageValue_resolve it 1))"

definition resolveAngle :: "property_value option \<Rightarrow> error + real option" where
  "resolveAngle v =
     resolvePropertyValue v (\<lambda>it. orElse (ZeroValue_resolve it) (AngleValue_resolve it))"

text \<open>Sequencing of computations that may throw.\<close>

definition bindE :: "error + 'a \<Rightarrow> ('a \<Rightarrow> error + 'b) \<Rightarrow> error + 'b" where
  "bindE m f = (case m of Inl e \<Rightarrow> Inl e | Inr x \<Rightarrow> f x)"

definition withDefault :: "'a option \<Rightarrow> 'a \<Rightarrow> 'a" where
  "withDefault r d = (case r of None \<Rightarrow> d | Some x \<Rightarrow> x)"

definition figureDefaultPositionX :: "image_resolve_options \<Rightarrow> real option" where
  "figureDefaultPositionX options =
     (case (figureIndex options, figureCount options) of
        (Some i, Some c) \<Rightarrow> Some ((i / (c + 1)) * screenWidth options)
      | _ \<Rightarrow> None)"

definition ImageElementResolvedProperties_resolve ::
  "element_properties \<Rightarrow> image_resolve_options \<Rightarrow> error + image_resolved_properties" where
  "ImageElementResolvedProperties_resolve properties options =
     (let p = el_props properties;
          isFigure = (el_type properties = ''figure'');
          isAvatar = (el_type properties = ''avatar'');
          val = (if valueChanged options then 0 else 1)
      in
      bindE (resolveLength (p ''anchorX'') (imageWidth options)) (\<lambda>anchorX.
      bindE (resolveLength (p ''anchorY'') (imageHeight options)) (\<lambda>anchorY.
      let defaultPositionX =
            (if isFigure then figureDefaultPositionX options
             else if isAvatar then avatarPositionX options else Some 0);
          defaultPositionY =
            (if isFigure then Some (screenHeight options)
             else if isAvatar then avatarPositionY options else Some 0)
      in
      bindE (resolveLength (p ''positionX'') (screenWidth options)) (\<lambda>positionX.
      bindE (resolveLength (p ''positionY'') (screenHeight options)) (\<lambda>positionY.
      bindE (resolveLength (p ''offsetX'') (screenWidth options)) (\<lambda>offsetX.
      bindE (resolveLength (p ''offsetY'') (screenHeight options)) (\<lambda>offsetY.
      bindE (resolveLength (p ''pivotX'') (imageWidth options)) (\<lambda>pivotX.
      bindE (resolveLength (p ''pivotY'') (imageHeight options)) (\<lambda>pivotY.
      bindE (resolveNumber (p ''scaleX'')) (\<lambda>scaleX.
      bindE (resolveNumber (p ''scaleY'')) (\<lambda>scaleY.
      bindE (resolveAngle (p ''skewX'')) (\<lambda>skewX.
      bindE (resolveAngle (p ''skewY'')) (\<lambda>skewY.
      bindE (resolveAngle (p ''rotation'')) (\<lambda>rotation.
      bindE (resolveNumber (p ''alpha'')) (\<lambda>alpha.
      Inr \<lparr> r_value = val,
            r_anchorX = withDefault anchorX (if isFigure then imageWidth options / 2 else 0),
            r_anchorY = withDefault anchorY (if isFigure then imageHeight options else 0),
            r_positionX = orElse positionX defaultPositionX,
            r_positionY = orElse positionY defaultPositionY,
            r_offsetX = withDefault offsetX (if isFigure then screenWidth options else 0),
            r_offsetY = withDefault offsetY (if isFigure then screenHeight options else 0),
            r_pivotX = withDefault pivotX (imageWidth options / 2),
            r_pivotY = withDefault pivotY (imageHeight options / 2),
            r_scaleX = withDefault scaleX 1,
            r_scaleY = withDefault scaleY 1,
            r_skewX = withDefault skewX 0,
            r_skewY = withDefault skewY 0,
            r_rotation = withDefault rotation 0,
            r_alpha = withDefault alpha 1 \<rparr>)))))))))))))))"

section \<open>View.update: ordering and counting the visible slots (view/View.ts)\<close>

text \<open>The manifest fields that the view reads.\<close>

record manifest =
  m_width :: real
  m_height :: real
  m_density :: real

text \<open>
  The declarative snapshot \<open>state.elements\<close> is an object: a list of distinct names with
  their properties, in insertion order. Strings compare by code units.
\<close>

type_synonym snapshot = "(string \<times> element_properties) list"

fun js_string_less :: "string \<Rightarrow> string \<Rightarrow> bool" where
  "js_string_less [] [] = False"
| "js_string_less [] (y # ys) = True"
| "js_string_less (x # xs) [] = False"
| "js_string_less (x # xs) (y # ys) =
     (if (of_char x :: nat) < of_char y then True
      else if (of_char y :: nat) < of_char x then False
      else js_string_less xs ys)"

text \<open>The comparator of \<open>View.update\<close>: negative, zero or positive.\<close>

definition compareElements :: "element_properties \<Rightarrow> element_properties \<Rightarrow> int" where
  "compareElements l r =
     (if js_string_less (el_type l) (el_type r) then - 1
      else if js_string_less (el_type r) (el_type l) then 1
      else el_index l - el_index r)"

text \<open>\<open>Array.prototype.sort\<close> is stable; a stable insertion sort by the comparator.\<close>

fun insertSorted ::
  "string \<times> element_properties \<Rightarrow> snapshot \<Rightarrow> snapshot" where
  "insertSorted x [] = [x]"
| "insertSorted x (y # ys) =
     (if compareElements (snd y) (snd x) < 0 then y # insertSorted x ys else x # y # ys)"

definition sortElements :: "snapshot \<Rightarrow> snapshot" where
  "sortElements elements = foldr insertSorted elements []"

text \<open>
  The first loop of \<open>View.update\<close> over the sorted names: \<open>elementIndices\<close> and
  \<open>elementTypeCounts\<close>.
\<close>

fun countElements ::
  "snapshot \<Rightarrow> (string \<Rightarrow> nat option) \<times> (string \<Rightarrow> nat option) \<Rightarrow>
   error + (string \<Rightarrow> nat option) \<times> (string \<Rightarrow> nat option)" where
  "countElements [] acc = Inr acc"
| "countElements ((elementName, elementProperties) # rest) (elementIndices, elementTypeCounts) =
     (case resolveElementValue elementProperties of
        Inl e \<Rightarrow> Inl e
      | Inr v \<Rightarrow>
          if \<not> truthy v then countElements rest (elementIndices, elementTypeCounts)
          else (let elementType = el_type elementProperties;
                    elementTypeCount = withDefault (elementTypeCounts elementType) 0
                in countElements rest
                     (elementIndices(elementName \<mapsto> elementTypeCount),
                      elementTypeCounts(elementType \<mapsto> elementTypeCount + 1))))"

datatype transition_options =
    FigureOptions "nat option" "nat option"
  | AvatarOptions real real
  | NoOptions

text \<open>
  The \<open>transitionOptions\<close> that the second loop hands to \<open>element.transition\<close>; the
  avatar position is read from the container node and is a parameter here.
\<close>

definition viewTransitionOptions ::
  "(string \<Rightarrow> nat option) \<times> (string \<Rightarrow> nat option) \<Rightarrow> real \<times> real \<Rightarrow>
   string \<Rightarrow> element_properties \<Rightarrow> transition_options" where
  "viewTransitionOptions counted avatarPosition elementName elementProperties =
     (let elementType = el_type elementProperties in
      if elementType = ''figure''
      then FigureOptions (fst counted elementName) (snd counted elementType)
      else if elementType = ''avatar''
      then AvatarOptions (fst avatarPosition) (snd avatarPosition)
      else NoOptions)"

text \<open>\<open>ImageElement.resolveProperties\<close>, given the natural size of the image object.\<close>

definition ImageElement_resolveProperties ::
  "manifest \<Rightarrow> element_properties \<Rightarrow> real \<times> real \<Rightarrow> bool \<Rightarrow> transition_options \<Rightarrow>
   error + image_resolved_properties" where
  "ImageElement_resolveProperties m properties naturalSize changed options =
     ImageElementResolvedProperties_resolve properties
       \<lparr> valueChanged = changed,
         screenWidth = m_width m,
         screenHeight = m_height m,
         imageWidth = fst naturalSize / m_density m,
         imageHeight = snd naturalSize / m_density m,
         figureIndex = (case options of FigureOptions i c \<Rightarrow> map_option real i | _ \<Rightarrow> None),
         figureCount = (case options of FigureOptions i c \<Rightarrow> map_option real c | _ \<Rightarrow> None),
         avatarPositionX = (case options of AvatarOptions x y \<Rightarrow> Some x | _ \<Rightarrow> None),
         avatarPositionY = (case options of AvatarOptions x y \<Rightarrow> Some y | _ \<Rightarrow> None) \<rparr>"

text \<open>
  What \<open>View.update\<close> and the first transition of a new image element resolve for the
  slot \<open>elementName\<close> of a snapshot: the transition duration of the object that is
  created and the properties it is animated to.
\<close>

definition viewResolveImage ::
  "manifest \<Rightarrow> snapshot \<Rightarrow> real \<times> real \<Rightarrow> real \<times> real \<Rightarrow> string \<Rightarrow>
   error + real \<times> image_resolved_properties" where
  "viewResolveImage m elements avatarPosition naturalSize elementName =
     bindE (countElements (sortElements elements) (Map.empty, Map.empty)) (\<lambda>counted.
       case map_of elements elementName of
         None \<Rightarrow> Inl (ViewError ''no such element'')
       | Some properties \<Rightarrow>
           bindE (resolveElementTransitionDuration properties 1) (\<lambda>d.
           bindE (ImageElement_resolveProperties m properties naturalSize False
                    (viewTransitionOptions counted avatarPosition elementName properties))
             (\<lambda>r. Inr (d, r))))"

definition figureProperties :: "int \<Rightarrow> string \<Rightarrow> element_properties" where
  "figureProperties i v =
     \<lparr> el_type = ''figure'', el_index = i, el_props = [''value'' \<mapsto> StringValue v] \<rparr>"

definition two_figures :: snapshot where
  "two_figures =
     [(''figure1'', figureProperties 1 ''a.png''), (''figure2'', figureProperties 2 ''b.png'')]"

section \<open>Engine.updateView (engine/Engine.ts)\<close>

datatype engine_status = Ready | Executing | Loading | Updating

record engine_state =
  fileName :: string
  nextCommandIndex :: nat
  layoutName :: string
  elements :: snapshot
  scriptStates :: "(string \<times> string) list"
  keepSkippingWait :: bool

record engine =
  e_status :: engine_status
  e_state :: engine_state

datatype update_view_options =
    Pause
  | SetLayout string
  | Delay real
  | Snap "(matcher \<times> matcher) list"
  | Wait "(matcher \<times> matcher) list"

text \<open>
  A promise is what is still to run when it is awaited: it settles to a value or rejects,
  and may change the engine on the way, also when it rejects.
\<close>

type_synonym 'a promise = "engine \<Rightarrow> (error + 'a) \<times> engine"

text \<open>
  The view updater \<open>onUpdateView\<close> is a callback of the engine. The call
  \<open>this.onUpdateView(options)\<close> is evaluated first, as the argument of
  \<open>updateWithStatus\<close>: its synchronous part runs under the status that the engine has,
  and returns the promise or throws. Then \<open>updateWithStatus\<close> saves the status, sets it
  to \<open>updating\<close>, awaits the promise and restores the status in its \<open>finally\<close>,
  whether the promise resolves or rejects. Both parts may change the state of the engine
  (the view sets the layout, removes elements, evaluates scripts).
\<close>

type_synonym view_updater =
  "update_view_options \<Rightarrow> engine \<Rightarrow> (error + bool promise) \<times> engine"

definition updateWithStatus :: "'a promise \<Rightarrow> engine \<Rightarrow> (error + 'a) \<times> engine" where
  "updateWithStatus promise eng =
     (let savedStatus = e_status eng;
          (r, eng') = promise (eng\<lparr>e_status := Updating\<rparr>)
      in (r, eng'\<lparr>e_status := savedStatus\<rparr>))"

definition isNoneOrUndefined :: "element_properties \<Rightarrow> bool" where
  "isNoneOrUndefined element \<longleftrightarrow>
     el_props element ''value'' = None \<or> el_props element ''value'' = Some NoneValue"

text \<open>The recipe that \<open>updateView\<close> applies after the view has been updated.\<close>

definition resetNoneElements :: "engine_state \<Rightarrow> engine_state" where
  "resetNoneElements it =
     it\<lparr>elements := filter (\<lambda>(elementName, element). \<not> isNoneOrUndefined element) (elements it),
        keepSkippingWait := False\<rparr>"

definition updateView ::
  "view_updater option \<Rightarrow> update_view_options \<Rightarrow> engine \<Rightarrow> (error + bool) \<times> engine" where
  "updateView onUpdateView options eng =
     (case (case onUpdateView of
              None \<Rightarrow> (Inr True, eng)
            | Some f \<Rightarrow>
                (case f options eng of
                   (Inl e, eng1) \<Rightarrow> (Inl e, eng1)
                 | (Inr promise, eng1) \<Rightarrow> updateWithStatus promise eng1)) of
        (Inl e, eng') \<Rightarrow> (Inl e, eng')
      | (Inr moveToNextLine, eng') \<Rightarrow>
          (Inr moveToNextLine, eng'\<lparr>e_state := resetNoneElements (e_state eng')\<rparr>))"

text \<open>
  An example engine whose snapshot holds a figure, a slot set to \<open>none\<close> and a slot
  without a value, and a view updater that blocks (resolves to \<open>false\<close>).
\<close>

definition example_engine :: engine where
  "example_engine =
     \<lparr> e_status = Executing,
       e_state = \<lparr> fileName = ''main'', nextCommandIndex = 0, layoutName = ''none'',
                   elements = [(''figure1'', figureProperties 1 ''a.png''),
                               (''figure2'', \<lparr> el_type = ''figure'', el_index = 2,
                                                el_props = [''value'' \<mapsto> NoneValue] \<rparr>),
                               (''text1'', \<lparr> el_type = ''text'', el_index = 1,
                                              el_props = Map.empty \<rparr>)],
                   scriptStates = [], keepSkippingWait = True \<rparr> \<rparr>"

definition blocking_updater :: view_updater where
  "blocking_updater options eng = (Inr (\<lambda>eng'. (Inr False, eng')), eng)"

section \<open>Layout (view/Layout.ts)\<close>

text \<open>
  DOM nodes are numbers. The layout owns the transitions it creates: \<open>l_store\<close> holds
  every \<open>Transition\<close> object made by \<open>transitionElement\<close> with the node it animates,
  \<open>l_transitions\<close> is the array \<open>this.transitions\<close>, \<open>l_frameCallbacks\<close> the keys that the
  layout has registered with the clock, and \<open>l_opacity\<close> what \<open>HTMLElements.getOpacity\<close>
  reads for each node.
\<close>

record layout =
  layoutNames :: "string list"
  elementLayouts :: "(nat \<times> string list) list"
  layoutTypeContainerElements :: "(string \<times> (string \<times> nat) list) list"
  l_layoutName :: string
  l_store :: "(real transition \<times> nat) list"
  l_transitions :: "nat list"
  l_frameCallbacks :: "nat list"
  l_opacity :: "nat \<Rightarrow> real"

definition LAYOUT_TRANSITION_DURATION :: real where
  "LAYOUT_TRANSITION_DURATION = 500"

text \<open>\<open>Map.set\<close> and \<open>Map.delete\<close> on the keys of the clock's \<open>frameCallbacks\<close>.\<close>

definition addFrameCallback :: "nat \<Rightarrow> nat list \<Rightarrow> nat list" where
  "addFrameCallback callbackId cbs = (if callbackId \<in> set cbs then cbs else cbs @ [callbackId])"

definition removeFrameCallback :: "nat \<Rightarrow> nat list \<Rightarrow> nat list" where
  "removeFrameCallback callbackId cbs = removeAll callbackId cbs"

text \<open>
  The callbacks that \<open>transitionElement\<close> attaches to the transition \<open>tid\<close>: the update
  callback sets the opacity of the node, the end callback removes the transition from
  \<open>this.transitions\<close> and from the clock.
\<close>

fun layoutCallback :: "nat \<Rightarrow> real notification \<Rightarrow> layout \<Rightarrow> layout" where
  "layoutCallback tid (OnUpdate, v) L = L\<lparr>l_opacity := (l_opacity L)(snd (l_store L ! tid) := v)\<rparr>"
| "layoutCallback tid (OnEnd, v) L =
     L\<lparr>l_transitions := remove1 tid (l_transitions L),
       l_frameCallbacks := removeFrameCallback tid (l_frameCallbacks L)\<rparr>"
| "layoutCallback tid (_, v) L = L"

definition layoutNotify :: "nat \<Rightarrow> real notification list \<Rightarrow> layout \<Rightarrow> layout" where
  "layoutNotify tid ns L = foldl (\<lambda>L n. layoutCallback tid n L) L ns"

definition transitionElement :: "nat \<Rightarrow> real \<Rightarrow> real \<Rightarrow> layout \<Rightarrow> error + layout" where
  "transitionElement element opacity transitionDuration L =
     (let t = new_NumberTransition (l_opacity L element) opacity transitionDuration;
          tid = length (l_store L);
          L1 = L\<lparr>l_store := l_store L @ [(t, element)],
                 l_transitions := l_transitions L @ [tid],
                 l_frameCallbacks := addFrameCallback tid (l_frameCallbacks L)\<rparr>
      in case start t of
           Inl e \<Rightarrow> Inl e
         | Inr (ns, t') \<Rightarrow>
             Inr (layoutNotify tid ns (L1\<lparr>l_store := (l_store L1)[tid := (t', element)]\<rparr>)))"

fun transitionElements :: "nat list \<Rightarrow> real \<Rightarrow> real \<Rightarrow> layout \<Rightarrow> error + layout" where
  "transitionElements [] opacity transitionDuration L = Inr L"
| "transitionElements (element # rest) opacity transitionDuration L =
     (case transitionElement element opacity transitionDuration L of
        Inl e \<Rightarrow> Inl e
      | Inr L' \<Rightarrow> transitionElements rest opacity transitionDuration L')"

fun insertString :: "string \<Rightarrow> string list \<Rightarrow> string list" where
  "insertString x [] = [x]"
| "insertString x (y # ys) =
     (if js_string_less y x then y # insertString x ys else x # y # ys)"

definition sortStrings :: "string list \<Rightarrow> string list" where
  "sortStrings xs = foldr insertString xs []"

text \<open>
  \<open>Layout.transition\<close> is a generator that is resumed once. \<open>Layout_transition\<close> runs it
  up to its \<open>yield\<close> and returns the yielded element types, the \<open>enterElements\<close> that the
  suspended generator still holds, and the layout; \<open>Layout_transition_resume\<close> runs the
  rest.
\<close>

definition Layout_transition :: "string \<Rightarrow> layout \<Rightarrow> error + string list \<times> nat list \<times> layout" where
  "Layout_transition name L =
     (if name \<notin> set (layoutNames L)
      then Inl (ViewError (''Unknown layout \"'' @ name @ ''\"''))
      else
        (let oldLayoutName = l_layoutName L;
             newLayoutName = name;
             L1 = L\<lparr>l_layoutName := name\<rparr>
         in if oldLayoutName = newLayoutName then Inr ([], [], L1)
            else
              (let changed = filter (\<lambda>(element, names).
                                 (oldLayoutName \<in> set names) \<noteq> (newLayoutName \<in> set names))
                               (elementLayouts L1);
                   exitElements = map fst (filter (\<lambda>(element, names). oldLayoutName \<in> set names) changed);
                   enterElements = map fst (filter (\<lambda>(element, names). oldLayoutName \<notin> set names) changed)
               in case transitionElements exitElements 0 LAYOUT_TRANSITION_DURATION L1 of
                    Inl e \<Rightarrow> Inl e
                  | Inr L2 \<Rightarrow>
                      (let oldTypeElements = map_of (layoutTypeContainerElements L2) oldLayoutName;
                           newTypeElements = map_of (layoutTypeContainerElements L2) newLayoutName;
                           exitElementTypes =
                             (case oldTypeElements of
                                None \<Rightarrow> []
                              | Some olds \<Rightarrow>
                                  map fst (filter (\<lambda>(elementType, oldElement).
                                     Some oldElement \<noteq>
                                       (case newTypeElements of
                                          None \<Rightarrow> None
                                        | Some news \<Rightarrow> map_of news elementType)) olds))
                       in Inr (sortStrings exitElementTypes, enterElements, L2)))))"

definition Layout_transition_resume :: "nat list \<Rightarrow> layout \<Rightarrow> error + layout" where
  "Layout_transition_resume enterElements L =
     transitionElements enterElements 1 LAYOUT_TRANSITION_DURATION L"

text \<open>
  An example layout: a decorative node 7 that belongs to the layout \<open>dialogue\<close> only, a
  figure container 3 in every layout, and a text container that is node 4 in \<open>none\<close> and
  node 5 in \<open>dialogue\<close>.
\<close>

definition example_layout :: layout where
  "example_layout =
     \<lparr> layoutNames = [''dialogue'', ''none''],
       elementLayouts = [(7, [''dialogue''])],
       layoutTypeContainerElements =
         [(''none'', [(''figure'', 3), (''text'', 4)]),
          (''dialogue'', [(''figure'', 3), (''text'', 5)])],
       l_layoutName = ''none'',
       l_store = [], l_transitions = [], l_frameCallbacks = [],
       l_opacity = (\<lambda>n. if n = 7 then 0 else 1) \<rparr>"

text \<open>The example layout after it has been switched to \<open>dialogue\<close>.\<close>

definition example_switched :: layout where
  "example_switched =
     example_layout\<lparr>l_layoutName := ''dialogue'',
        l_store := [((new_NumberTransition 0 1 500)\<lparr>isStarted := True\<rparr>, 7)],
        l_transitions := [0], l_frameCallbacks := [0]\<rparr>"

section \<open>Elements (view/Element.ts)\<close>

text \<open>
  Objects are numbers. The values of resolved properties are numbers, booleans or
  strings; \<open>Undefined\<close> is what reading a missing property gives.
\<close>

datatype pvalue = Undefined | Num real | Bool bool | Str string

type_synonym resolved_properties = "(string \<times> pvalue) list"

datatype object_event = Attach nat | Detach nat | Destroy nat

text \<open>
  A \<open>Transition\<close> object created by \<open>transitionPropertyValue\<close>, with the variables that
  its callbacks close over: the object, the property name and the property value.
\<close>

record transition_entry =
  t_transition :: "real transition"
  t_object :: nat
  t_propertyName :: string
  t_propertyValue :: real

text \<open>
  The state of a \<open>BaseElement\<close> and of what it acts on: its fields \<open>object\<close>,
  \<open>properties\<close> and \<open>options\<close> (\<open>NoOptions\<close> is \<open>undefined\<close>), the heap \<open>store\<close> of the
  transitions it has created, addressed by position, the two multimaps, the keys it has
  registered with the clock, the current property values of its objects, and the log of
  the calls of \<open>attachObject\<close>, \<open>detachObject\<close> and \<open>destroyObject\<close>. A \<open>MultiMap\<close> is
  the list of its key and value pairs in insertion order.
\<close>

record element =
  el_object :: "nat option"
  el_properties :: "element_properties option"
  el_options :: transition_options
  store :: "transition_entry list"
  objectTransitions :: "(nat \<times> nat) list"
  propertyTransitions :: "(string \<times> nat) list"
  frameCallbacks :: "nat list"
  numberProperties :: "nat \<Rightarrow> string \<Rightarrow> real"
  otherProperties :: "nat \<Rightarrow> string \<Rightarrow> pvalue"
  events :: "object_event list"
  nextObject :: nat

text \<open>
  What a subclass of \<open>BaseElement\<close> fixes: the constructor argument \<open>crossFade\<close>, the
  abstract method \<open>resolveProperties\<close>, \<open>getTransitionElementCount\<close>, whether
  \<open>createObject\<close> fails for a type and value, and the easing \<open>CssEasings.Ease\<close> of the
  external bezier library.
\<close>

record element_kind =
  crossFade :: bool
  resolveProperties ::
    "element_properties \<Rightarrow> nat \<Rightarrow> bool \<Rightarrow> transition_options \<Rightarrow> error + resolved_properties"
  getTransitionElementCount :: "nat \<Rightarrow> bool \<Rightarrow> real"
  createObject :: "string \<Rightarrow> string \<Rightarrow> error option"
  CssEasings_Ease :: "real \<Rightarrow> real"

definition multimap_get :: "('k \<times> 'v) list \<Rightarrow> 'k \<Rightarrow> 'v list" where
  "multimap_get m k = map snd (filter (\<lambda>kv. fst kv = k) m)"

definition multimap_set :: "('k \<times> 'v) list \<Rightarrow> 'k \<Rightarrow> 'v \<Rightarrow> ('k \<times> 'v) list" where
  "multimap_set m k v = m @ [(k, v)]"

definition multimap_remove :: "('k \<times> 'v) list \<Rightarrow> 'k \<Rightarrow> 'v \<Rightarrow> ('k \<times> 'v) list" where
  "multimap_remove m k v = remove1 (k, v) m"

definition setPropertyValue :: "nat \<Rightarrow> string \<Rightarrow> pvalue \<Rightarrow> element \<Rightarrow> element" where
  "setPropertyValue object propertyName propertyValue s =
     (case propertyValue of
        Num r \<Rightarrow>
          s\<lparr>numberProperties :=
              (numberProperties s)(object := (numberProperties s object)(propertyName := r))\<rparr>
      | _ \<Rightarrow>
          s\<lparr>otherProperties :=
              (otherProperties s)(object := (otherProperties s object)(propertyName := propertyValue))\<rparr>)"

definition attachObject :: "nat \<Rightarrow> element \<Rightarrow> element" where
  "attachObject object s = s\<lparr>events := events s @ [Attach object]\<rparr>"

definition detachObject :: "nat \<Rightarrow> element \<Rightarrow> element" where
  "detachObject object s = s\<lparr>events := events s @ [Detach object]\<rparr>"

definition destroyObject :: "nat \<Rightarrow> element \<Rightarrow> element" where
  "destroyObject object s = s\<lparr>events := events s @ [Destroy object]\<rparr>"

text \<open>
  Calls that are still to be made, in order: \<open>Cancel tid\<close> is \<open>it.cancel()\<close> on the
  transition \<open>tid\<close>, \<open>Frame tid time\<close> the clock calling the frame callback registered
  under \<open>tid\<close>, and \<open>Finish object\<close> the \<open>detachObject\<close> and \<open>destroyObject\<close> that follow
  the cancellations in an end callback.
\<close>

datatype task = Cancel nat | Frame nat real | Finish nat

text \<open>
  The two callbacks that \<open>transitionPropertyValue\<close> attaches to the transition \<open>tid\<close>.
  The end callback returns the calls it makes after its own bookkeeping.
\<close>

definition onUpdateCallback :: "nat \<Rightarrow> real \<Rightarrow> element \<Rightarrow> element" where
  "onUpdateCallback tid it s =
     (let e = store s ! tid in setPropertyValue (t_object e) (t_propertyName e) (Num it) s)"

definition onEndCallback :: "nat \<Rightarrow> element \<Rightarrow> task list \<times> element" where
  "onEndCallback tid s =
     (let e = store s ! tid;
          s1 = s\<lparr>objectTransitions := multimap_remove (objectTransitions s) (t_object e) tid,
                 propertyTransitions :=
                   multimap_remove (propertyTransitions s) (t_propertyName e) tid,
                 frameCallbacks := removeFrameCallback tid (frameCallbacks s)\<rparr>
      in if t_propertyName e = ''value'' \<and> t_propertyValue e = 0
         then (map Cancel (multimap_get (objectTransitions s1) (t_object e)) @ [Finish (t_object e)],
               s1)
         else ([], s1))"

fun elementCallback :: "nat \<Rightarrow> real notification \<Rightarrow> element \<Rightarrow> task list \<times> element" where
  "elementCallback tid (OnUpdate, v) s = ([], onUpdateCallback tid v s)"
| "elementCallback tid (OnEnd, v) s = onEndCallback tid s"
| "elementCallback tid (_, v) s = ([], s)"

text \<open>
  Delivering the notifications of one method call. Every method of \<open>Transition\<close> fires
  the end notification last, so the calls that an end callback makes run after all the
  notifications of the method have been delivered.
\<close>

fun elementNotify :: "nat \<Rightarrow> real notification list \<Rightarrow> element \<Rightarrow> task list \<times> element" where
  "elementNotify tid [] s = ([], s)"
| "elementNotify tid (n # ns) s =
     (let (ts, s1) = elementCallback tid n s;
          (ts', s2) = elementNotify tid ns s1
      in (ts @ ts', s2))"

definition putTransition :: "nat \<Rightarrow> real transition \<Rightarrow> element \<Rightarrow> element" where
  "putTransition tid t s = s\<lparr>store := (store s)[tid := (store s ! tid)\<lparr>t_transition := t\<rparr>]\<rparr>"

text \<open>One call of \<open>cancel()\<close>, and one call of a frame callback, with their callbacks.\<close>

definition cancelStep :: "nat \<Rightarrow> element \<Rightarrow> task list \<times> element" where
  "cancelStep tid s =
     (if tid < length (store s)
      then (let (ns, t') = cancel True (t_transition (store s ! tid))
            in elementNotify tid ns (putTransition tid t' s))
      else ([], s))"

definition frameStep :: "nat \<Rightarrow> real \<Rightarrow> element \<Rightarrow> task list \<times> element" where
  "frameStep tid time s =
     (if tid < length (store s) \<and> tid \<in> set (frameCallbacks s)
      then (let (ns, t') = update time (t_transition (store s ! tid))
            in elementNotify tid ns (putTransition tid t' s))
      else ([], s))"

definition runningCount :: "element \<Rightarrow> nat" where
  "runningCount s = length (filter (\<lambda>e. isRunning (t_transition e)) (store s))"

text \<open>
  Running the pending calls depth first, as the call stack does. It terminates because
  a call that leads to further calls ends a running transition.
\<close>

function run :: "task list \<Rightarrow> element \<Rightarrow> element" where
  "run [] s = s"
| "run (Finish object # ts) s = run ts (destroyObject object (detachObject object s))"
| "run (Cancel tid # ts) s = (let (ts', s') = cancelStep tid s in run (ts' @ ts) s')"
| "run (Frame tid time # ts) s = (let (ts', s') = frameStep tid time s in run (ts' @ ts) s')"
  by pat_completeness auto
termination
proof -
  have notify_store: "\<And>tid ns (s::element). store (snd (elementNotify tid ns s)) = store s"
  proof -
    fix tid ns
    show "\<And>s::element. store (snd (elementNotify tid ns s)) = store s"
    proof (induction ns)
      case Nil
      show ?case by simp
    next
      case (Cons n ns)
      obtain c v where n: "n = (c, v)" by (cases n)
      have "store (snd (elementCallback tid n s)) = store s"
        unfolding n
        by (cases c)
          (simp_all add: onUpdateCallback_def onEndCallback_def setPropertyValue_def Let_def
            split: pvalue.splits)
      with Cons [of "snd (elementCallback tid n s)"] show ?case
        by (simp add: split_def Let_def)
    qed
  qed
  have notify_tasks: "\<And>tid ns s. fst (elementNotify tid ns s) \<noteq> [] \<Longrightarrow> OnEnd \<in> fst ` set ns"
  proof -
    fix tid ns
    show "\<And>s. fst (elementNotify tid ns s) \<noteq> [] \<Longrightarrow> OnEnd \<in> fst ` set ns"
    proof (induction ns)
      case Nil
      then show ?case by simp
    next
      case (Cons n ns)
      obtain c v where n: "n = (c, v)" by (cases n)
      show ?case
      proof (cases "c = OnEnd")
        case True
        then show ?thesis by (simp add: n)
      next
        case False
        then have "fst (elementCallback tid n s) = []"
          unfolding n by (cases c) simp_all
        with Cons.prems have "fst (elementNotify tid ns (snd (elementCallback tid n s))) \<noteq> []"
          by (simp add: split_def Let_def)
        from Cons.IH [OF this] show ?thesis by simp
      qed
    qed
  qed
  have count_put: "\<And>tid t (s::element). tid < length (store s) \<Longrightarrow>
      runningCount (putTransition tid t s) + (if isRunning (t_transition (store s ! tid)) then 1 else 0)
        = runningCount s + (if isRunning t then 1 else 0)"
  proof -
    fix tid t and s :: element
    assume l: "tid < length (store s)"
    have a: "store s = take tid (store s) @ (store s ! tid) # drop (Suc tid) (store s)"
      using l by (simp add: id_take_nth_drop [symmetric])
    have b: "store (putTransition tid t s)
        = take tid (store s) @ ((store s ! tid)\<lparr>t_transition := t\<rparr>) # drop (Suc tid) (store s)"
      using l by (simp add: putTransition_def upd_conv_take_nth_drop)
    have "runningCount s = length (filter (\<lambda>e. isRunning (t_transition e))
              (take tid (store s) @ (store s ! tid) # drop (Suc tid) (store s)))"
      unfolding runningCount_def using a by simp
    then show "runningCount (putTransition tid t s)
        + (if isRunning (t_transition (store s ! tid)) then 1 else 0)
        = runningCount s + (if isRunning t then 1 else 0)"
      by (simp add: runningCount_def b)
  qed
  have count_notify: "\<And>tid ns (s::element). runningCount (snd (elementNotify tid ns s)) = runningCount s"
    by (simp add: runningCount_def notify_store)
  have cancel_dec: "\<And>tid s ts' s'. cancelStep tid s = (ts', s') \<Longrightarrow>
      runningCount s' < runningCount s \<or> (runningCount s' = runningCount s \<and> ts' = [])"
  proof -
    fix tid s ts' s'
    assume c: "cancelStep tid s = (ts', s')"
    show "runningCount s' < runningCount s \<or> (runningCount s' = runningCount s \<and> ts' = [])"
    proof (cases "tid < length (store s) \<and> isRunning (t_transition (store s ! tid))")
      case True
      define t' where "t' = snd (cancel True (t_transition (store s ! tid)))"
      have e: "\<not> isRunning t'"
        using True by (simp add: t'_def cancel_def isRunning_def Let_def)
      have "s' = snd (elementNotify tid (fst (cancel True (t_transition (store s ! tid))))
                    (putTransition tid t' s))"
        using c True by (simp add: cancelStep_def split_def Let_def t'_def)
      then have "runningCount s' = runningCount (putTransition tid t' s)"
        by (simp add: count_notify)
      with count_put [of tid s t'] True e show ?thesis by simp
    next
      case False
      then have "cancelStep tid s = ([], s) \<or> (tid < length (store s)
          \<and> cancelStep tid s = ([], putTransition tid (t_transition (store s ! tid)) s))"
        by (auto simp: cancelStep_def cancel_def)
      moreover have "tid < length (store s) \<Longrightarrow>
          runningCount (putTransition tid (t_transition (store s ! tid)) s) = runningCount s"
        using count_put [of tid s "t_transition (store s ! tid)"] by simp
      ultimately show ?thesis using c by auto
    qed
  qed
  have frame_dec: "\<And>tid time s ts' s'. frameStep tid time s = (ts', s') \<Longrightarrow>
      runningCount s' < runningCount s \<or> (runningCount s' = runningCount s \<and> ts' = [])"
  proof -
    fix tid time s ts' s'
    assume c: "frameStep tid time s = (ts', s')"
    show "runningCount s' < runningCount s \<or> (runningCount s' = runningCount s \<and> ts' = [])"
    proof (cases "tid < length (store s) \<and> tid \<in> set (frameCallbacks s)")
      case False
      with c show ?thesis by (auto simp: frameStep_def)
    next
      case True
      define t where "t = t_transition (store s ! tid)"
      define ns where "ns = fst (update time t)"
      define t' where "t' = snd (update time t)"
      have s': "s' = snd (elementNotify tid ns (putTransition tid t' s))"
        and ts': "ts' = fst (elementNotify tid ns (putTransition tid t' s))"
        using c True by (simp_all add: frameStep_def split_def Let_def t'_def ns_def t_def)
      have cnt: "runningCount s' = runningCount (putTransition tid t' s)"
        using s' by (simp add: count_notify)
      have mono: "isRunning t' \<longrightarrow> isRunning t"
        by (auto simp: t'_def update_def updateCurrentValue_def isRunning_def Let_def
            split: option.splits if_splits)
      have ended: "OnEnd \<in> fst ` set ns \<longrightarrow> isRunning t \<and> \<not> isRunning t'"
        by (auto simp: ns_def t'_def update_def updateCurrentValue_def isRunning_def Let_def
            notifyCallbacks_def split: option.splits if_splits)
      show ?thesis
      proof (cases "ts' = []")
        case True
        with cnt count_put [of tid s t'] \<open>tid < length (store s) \<and> tid \<in> set (frameCallbacks s)\<close>
          mono show ?thesis
          by (auto simp: t_def split: if_splits)
      next
        case False
        then have "OnEnd \<in> fst ` set ns"
          using notify_tasks [of tid ns "putTransition tid t' s"] ts' by simp
        with ended have "isRunning t \<and> \<not> isRunning t'" by simp
        with cnt count_put [of tid s t'] \<open>tid < length (store s) \<and> tid \<in> set (frameCallbacks s)\<close>
        show ?thesis by (simp add: t_def)
      qed
    qed
  qed
  show ?thesis
  proof (relation "measures [\<lambda>(ts, s). runningCount s, \<lambda>(ts, s). length ts]")
    show "wf (measures [\<lambda>(ts, s). runningCount s, \<lambda>(ts, s). length ts])" by simp
  next
    fix object ts s
    show "((ts, destroyObject object (detachObject object s)), Finish object # ts, s)
        \<in> measures [\<lambda>(ts, s). runningCount s, \<lambda>(ts, s). length ts]"
      by (simp add: runningCount_def destroyObject_def detachObject_def)
  next
    fix tid ts s x xa y
    assume "x = cancelStep tid s" and "(xa, y) = x"
    then have "cancelStep tid s = (xa, y)" by simp
    from cancel_dec [OF this]
    show "((xa @ ts, y), Cancel tid # ts, s)
        \<in> measures [\<lambda>(ts, s). runningCount s, \<lambda>(ts, s). length ts]"
      by auto
  next
    fix tid time ts s x xa y
    assume "x = frameStep tid time s" and "(xa, y) = x"
    then have "frameStep tid time s = (xa, y)" by simp
    from frame_dec [OF this]
    show "((xa @ ts, y), Frame tid time # ts, s)
        \<in> measures [\<lambda>(ts, s). runningCount s, \<lambda>(ts, s). length ts]"
      by auto
  qed
qed

text \<open>The clock calling every registered frame callback, and \<open>BaseElement.snap\<close>.\<close>

definition nextFrame :: "real \<Rightarrow> element \<Rightarrow> element" where
  "nextFrame time s = run (map (\<lambda>tid. Frame tid time) (frameCallbacks s)) s"

definition BaseElement_snap :: "matcher \<Rightarrow> element \<Rightarrow> element" where
  "BaseElement_snap propertyMatcher s =
     run (map (\<lambda>kv. Cancel (snd kv)) (filter (\<lambda>kv. propertyMatcher (fst kv)) (propertyTransitions s))) s"

definition resolveElementPropertyTransitionEasing ::
  "element_properties \<Rightarrow> string \<Rightarrow> error + string" where
  "resolveElementPropertyTransitionEasing properties propertyName =
     (let t = el_type properties;
          linearFor = (\<lambda>names. if propertyName \<in> set names then ''linear'' else ''ease'')
      in
      bindE (if t \<in> set [''background'', ''figure'', ''foreground'', ''avatar'']
             then Inr (linearFor [''value'', ''alpha''])
             else if t \<in> set [''name'', ''text'', ''choice''] then Inr (linearFor [''value''])
             else if t \<in> set [''music'', ''sound'', ''voice'']
             then Inr (linearFor [''value'', ''volume''])
             else if t = ''video'' then Inr (linearFor [''value'', ''alpha'', ''volume''])
             else if t = ''effect'' then Inr (linearFor [''value''])
             else Inl (ViewError (''Unexpected element type \"'' @ t @ ''\"'')))
        (\<lambda>defaultTransitionEasing.
      bindE (resolvePropertyValue (el_props properties ''transitionEasing'') StringValue_resolve)
        (\<lambda>r. Inr (withDefault r defaultTransitionEasing))))"

definition getElementTransitionEasing :: "element_kind \<Rightarrow> string \<Rightarrow> error + (real \<Rightarrow> real)" where
  "getElementTransitionEasing kind name =
     (if name = ''linear'' then Inr LinearEasing
      else if name = ''ease'' then Inr (CssEasings_Ease kind)
      else Inl (ViewError (''Unsupported transition easing \"'' @ name @ ''\"'')))"

text \<open>
  \<open>transitionPropertyValue\<close>. A method that throws leaves the state it has reached, so
  the result is the error, if any, and the state.
\<close>

definition transitionPropertyValue ::
  "nat \<Rightarrow> string \<Rightarrow> pvalue \<Rightarrow> real \<Rightarrow> real \<Rightarrow> (real \<Rightarrow> real) \<Rightarrow> element \<Rightarrow>
   error option \<times> element" where
  "transitionPropertyValue object propertyName propertyValue transitionDelay transitionDuration
       transitionEasing s =
     (case propertyValue of
        Num target \<Rightarrow>
          (let currentPropertyValue = numberProperties s object propertyName;
               t = setEasing transitionEasing
                     (setDelay transitionDelay
                        (new_NumberTransition currentPropertyValue target transitionDuration));
               tid = length (store s);
               s1 = s\<lparr>store := store s @ [\<lparr> t_transition = t, t_object = object,
                                            t_propertyName = propertyName,
                                            t_propertyValue = target \<rparr>],
                      objectTransitions := multimap_set (objectTransitions s) object tid,
                      propertyTransitions := multimap_set (propertyTransitions s) propertyName tid,
                      frameCallbacks := addFrameCallback tid (frameCallbacks s)\<rparr>
           in case start t of
                Inl e \<Rightarrow> (Some e, s1)
              | Inr (ns, t') \<Rightarrow>
                  (let (ts, s2) = elementNotify tid ns (putTransition tid t' s1)
                   in (None, run ts s2)))
      | _ \<Rightarrow> (None, setPropertyValue object propertyName propertyValue s))"

text \<open>The local variables of the generator \<open>BaseElement.transition\<close> at its \<open>yield\<close>.\<close>

record transition_locals =
  l_oldObject :: "nat option"
  l_oldProperties :: "element_properties option"
  l_oldOptions :: transition_options
  l_newProperties :: element_properties
  l_newOptions :: transition_options
  l_oldValue :: "string option"
  l_newValue :: "string option"
  l_newObject :: "nat option"

text \<open>The resolved properties and the durations that the second part computes.\<close>

record transition_plan =
  oldObjectOldProperties :: "resolved_properties option"
  oldObjectNewProperties :: "resolved_properties option"
  newObjectOldProperties :: "resolved_properties option"
  newObjectNewProperties :: "resolved_properties option"
  oldObjectTransitionDuration :: real
  newObjectTransitionDelay :: real
  newObjectTransitionDuration :: real

definition lookupProperty :: "resolved_properties option \<Rightarrow> string \<Rightarrow> pvalue" where
  "lookupProperty properties propertyName =
     (case properties of
        None \<Rightarrow> Undefined
      | Some ps \<Rightarrow> (case map_of ps propertyName of None \<Rightarrow> Undefined | Some v \<Rightarrow> v))"

definition cancelPropertyTransitions :: "string \<Rightarrow> element \<Rightarrow> element" where
  "cancelPropertyTransitions propertyName s =
     run (map Cancel (multimap_get (propertyTransitions s) propertyName)) s"

text \<open>
  The body of the loop over the property names; \<open>transitionObjectProperty\<close> is one of its
  two guarded calls of \<open>transitionPropertyValue\<close>.
\<close>

definition transitionObjectProperty ::
  "bool \<Rightarrow> nat option \<Rightarrow> string \<Rightarrow> pvalue \<Rightarrow> real \<Rightarrow> real \<Rightarrow> (real \<Rightarrow> real) \<Rightarrow> element \<Rightarrow>
   error option \<times> element" where
  "transitionObjectProperty changed object propertyName propertyValue transitionDelay
       transitionDuration transitionEasing s =
     (if changed
      then (case object of
              None \<Rightarrow> (None, s)
            | Some obj \<Rightarrow>
                transitionPropertyValue obj propertyName propertyValue transitionDelay
                  transitionDuration transitionEasing s)
      else (None, s))"

definition transitionProperty ::
  "element_kind \<Rightarrow> transition_locals \<Rightarrow> transition_plan \<Rightarrow> string \<Rightarrow> element \<Rightarrow>
   error option \<times> element" where
  "transitionProperty kind loc plan propertyName s =
     (let oldObjectChanged =
            (lookupProperty (oldObjectOldProperties plan) propertyName
               \<noteq> lookupProperty (oldObjectNewProperties plan) propertyName);
          newObjectChanged =
            (lookupProperty (newObjectOldProperties plan) propertyName
               \<noteq> lookupProperty (newObjectNewProperties plan) propertyName);
          s1 = (if oldObjectChanged \<or> newObjectChanged
                then cancelPropertyTransitions propertyName s else s)
      in case bindE (resolveElementPropertyTransitionEasing (l_newProperties loc) propertyName)
                (getElementTransitionEasing kind) of
           Inl e \<Rightarrow> (Some e, s1)
         | Inr transitionEasing \<Rightarrow>
             (case transitionObjectProperty oldObjectChanged (l_oldObject loc) propertyName
                     (lookupProperty (oldObjectNewProperties plan) propertyName)
                     0 (oldObjectTransitionDuration plan) transitionEasing s1 of
                (Some e, s2) \<Rightarrow> (Some e, s2)
              | (None, s2) \<Rightarrow>
                  transitionObjectProperty newObjectChanged (l_newObject loc) propertyName
                    (lookupProperty (newObjectNewProperties plan) propertyName)
                    (newObjectTransitionDelay plan) (newObjectTransitionDuration plan)
                    transitionEasing s2))"

fun transitionProperties ::
  "element_kind \<Rightarrow> transition_locals \<Rightarrow> transition_plan \<Rightarrow> string list \<Rightarrow> element \<Rightarrow>
   error option \<times> element" where
  "transitionProperties kind loc plan [] s = (None, s)"
| "transitionProperties kind loc plan (propertyName # rest) s =
     (case transitionProperty kind loc plan propertyName s of
        (Some e, s') \<Rightarrow> (Some e, s')
      | (None, s') \<Rightarrow> transitionProperties kind loc plan rest s')"

text \<open>
  The first part of \<open>BaseElement.transition\<close>, up to its \<open>yield\<close>: it returns the locals
  with which the generator is suspended, or \<open>None\<close> when the generator returns at once
  after the yield.
\<close>

definition BaseElement_transition ::
  "element_kind \<Rightarrow> element_properties \<Rightarrow> transition_options \<Rightarrow> element \<Rightarrow>
   error + transition_locals option \<times> element" where
  "BaseElement_transition kind properties options s =
     bindE (case el_properties s of None \<Rightarrow> Inr None | Some p \<Rightarrow> resolveElementValue p)
       (\<lambda>oldValue.
     bindE (resolveElementValue properties) (\<lambda>newValue.
       if \<not> truthy oldValue \<and> \<not> truthy newValue then Inr (None, s)
       else
         (let loc = \<lparr> l_oldObject = el_object s, l_oldProperties = el_properties s,
                      l_oldOptions = el_options s, l_newProperties = properties,
                      l_newOptions = options, l_oldValue = oldValue, l_newValue = newValue,
                      l_newObject = None \<rparr>
          in if truthy newValue \<and> newValue \<noteq> oldValue
             then (case createObject kind (el_type properties) (withDefault newValue []) of
                     Some e \<Rightarrow> Inl e
                   | None \<Rightarrow>
                       Inr (Some (loc\<lparr>l_newObject := Some (nextObject s)\<rparr>),
                            s\<lparr>nextObject := Suc (nextObject s)\<rparr>))
             else Inr (Some loc, s))))"

definition resolveFor ::
  "element_kind \<Rightarrow> nat option \<Rightarrow> element_properties option \<Rightarrow> bool \<Rightarrow> transition_options \<Rightarrow>
   error + resolved_properties option" where
  "resolveFor kind object properties changed options =
     (case object of
        None \<Rightarrow> Inr None
      | Some obj \<Rightarrow>
          (case properties of
             None \<Rightarrow> Inl (Error ''Cannot read properties of undefined'')
           | Some p \<Rightarrow> bindE (resolveProperties kind p obj changed options) (\<lambda>r. Inr (Some r))))"

definition durationFor ::
  "element_kind \<Rightarrow> nat option \<Rightarrow> element_properties \<Rightarrow> bool \<Rightarrow> error + real" where
  "durationFor kind object newProperties isEnter =
     (case object of
        None \<Rightarrow> Inr 0
      | Some obj \<Rightarrow>
          resolveElementTransitionDuration newProperties
            (getTransitionElementCount kind obj isEnter))"

text \<open>The four calls of \<open>resolveProperties\<close>.\<close>

definition resolvePlan :: "element_kind \<Rightarrow> transition_locals \<Rightarrow> error + transition_plan" where
  "resolvePlan kind loc =
     (let crossNew = crossFade kind \<and> truthy (l_newValue loc);
          crossOld = crossFade kind \<and> truthy (l_oldValue loc);
          valueChanged = (l_oldValue loc \<noteq> l_newValue loc)
      in
      bindE (resolveFor kind (l_oldObject loc) (l_oldProperties loc) False (l_oldOptions loc))
        (\<lambda>oldOld.
      bindE (resolveFor kind (l_oldObject loc)
               (if crossNew then Some (l_newProperties loc) else l_oldProperties loc)
               valueChanged
               (if crossNew then l_newOptions loc else l_oldOptions loc))
        (\<lambda>oldNew.
      bindE (resolveFor kind (l_newObject loc)
               (if crossOld then l_oldProperties loc else Some (l_newProperties loc))
               valueChanged
               (if crossOld then l_oldOptions loc else l_newOptions loc))
        (\<lambda>newOld.
      bindE (resolveFor kind (l_newObject loc) (Some (l_newProperties loc)) False
               (l_newOptions loc))
        (\<lambda>newNew.
      Inr \<lparr> oldObjectOldProperties = oldOld, oldObjectNewProperties = oldNew,
            newObjectOldProperties = newOld, newObjectNewProperties = newNew,
            oldObjectTransitionDuration = 0, newObjectTransitionDelay = 0,
            newObjectTransitionDuration = 0 \<rparr>)))))"

definition initNewObject :: "transition_locals \<Rightarrow> transition_plan \<Rightarrow> element \<Rightarrow> element" where
  "initNewObject loc plan s =
     (case l_newObject loc of
        None \<Rightarrow> s
      | Some newObject \<Rightarrow>
          attachObject newObject
            (foldl (\<lambda>s kv. setPropertyValue newObject (fst kv) (snd kv) s) s
               (withDefault (newObjectOldProperties plan) [])))"

definition resolveDurations ::
  "element_kind \<Rightarrow> transition_locals \<Rightarrow> transition_plan \<Rightarrow> error + transition_plan" where
  "resolveDurations kind loc plan =
     bindE (durationFor kind (l_oldObject loc) (l_newProperties loc) False) (\<lambda>oldDuration.
     bindE (durationFor kind (l_newObject loc) (l_newProperties loc) True) (\<lambda>newDuration.
       Inr (plan\<lparr>oldObjectTransitionDuration := oldDuration,
                 newObjectTransitionDelay := (if crossFade kind then 0 else oldDuration),
                 newObjectTransitionDuration := newDuration\<rparr>)))"

definition finishTransition :: "transition_locals \<Rightarrow> element \<Rightarrow> element" where
  "finishTransition loc s =
     (if truthy (l_newValue loc)
      then s\<lparr>el_object := (case l_newObject loc of None \<Rightarrow> l_oldObject loc | Some n \<Rightarrow> Some n),
             el_properties := Some (l_newProperties loc),
             el_options := l_newOptions loc\<rparr>
      else s\<lparr>el_object := None, el_properties := None, el_options := NoOptions\<rparr>)"

text \<open>The second part of \<open>BaseElement.transition\<close>, run when the generator is resumed.\<close>

definition BaseElement_transition_resume ::
  "element_kind \<Rightarrow> transition_locals \<Rightarrow> element \<Rightarrow> error option \<times> element" where
  "BaseElement_transition_resume kind loc s =
     (case resolvePlan kind loc of
        Inl e \<Rightarrow> (Some e, s)
      | Inr plan0 \<Rightarrow>
          (let s1 = initNewObject loc plan0 s in
           case resolveDurations kind loc plan0 of
             Inl e \<Rightarrow> (Some e, s1)
           | Inr plan \<Rightarrow>
               (case (case oldObjectOldProperties plan of
                        Some ps \<Rightarrow> Inr (map fst ps)
                      | None \<Rightarrow>
                          (case newObjectNewProperties plan of
                             Some ps \<Rightarrow> Inr (map fst ps)
                           | None \<Rightarrow> Inl (Error ''Cannot convert undefined or null to object''))) of
                  Inl e \<Rightarrow> (Some e, s1)
                | Inr propertyNames \<Rightarrow>
                    (case transitionProperties kind loc plan propertyNames s1 of
                       (Some e, s2) \<Rightarrow> (Some e, s2)
                     | (None, s2) \<Rightarrow> (None, finishTransition loc s2)))))"

section \<open>Invariants of an element\<close>

text \<open>
  The transitions that are registered with the clock, the two multimaps and the heap
  agree: the three registries hold the same transitions, each once, under the object and
  the property name that its callbacks close over, and every registered transition is
  running.
\<close>

definition registriesAgree :: "element \<Rightarrow> bool" where
  "registriesAgree s \<longleftrightarrow>
     distinct (frameCallbacks s)
   \<and> distinct (map snd (objectTransitions s))
   \<and> distinct (map snd (propertyTransitions s))
   \<and> snd ` set (objectTransitions s) = set (frameCallbacks s)
   \<and> snd ` set (propertyTransitions s) = set (frameCallbacks s)"

definition keysAgree :: "element \<Rightarrow> bool" where
  "keysAgree s \<longleftrightarrow>
     (\<forall>kv \<in> set (objectTransitions s). t_object (store s ! snd kv) = fst kv)
   \<and> (\<forall>kv \<in> set (propertyTransitions s). t_propertyName (store s ! snd kv) = fst kv)"

definition registeredRunning :: "element \<Rightarrow> bool" where
  "registeredRunning s \<longleftrightarrow>
     (\<forall>tid \<in> set (frameCallbacks s).
        tid < length (store s) \<and> isRunning (t_transition (store s ! tid)))"

definition wellFormed :: "element \<Rightarrow> bool" where
  "wellFormed s \<longleftrightarrow> registriesAgree s \<and> keysAgree s \<and> registeredRunning s"

text \<open>At most one transition is registered with the clock for an object and a property.\<close>

definition onePerPair :: "element \<Rightarrow> bool" where
  "onePerPair s \<longleftrightarrow>
     (\<forall>t1 \<in> set (frameCallbacks s). \<forall>t2 \<in> set (frameCallbacks s).
        t_object (store s ! t1) = t_object (store s ! t2)
      \<and> t_propertyName (store s ! t1) = t_propertyName (store s ! t2) \<longrightarrow> t1 = t2)"

text \<open>
  The object that a suspended generator has created is not the outgoing object: objects
  are numbered in the order of their creation.
\<close>

definition objectKnown :: "element \<Rightarrow> bool" where
  "objectKnown s \<longleftrightarrow> (case el_object s of None \<Rightarrow> True | Some obj \<Rightarrow> obj < nextObject s)"

definition localsFresh :: "transition_locals \<Rightarrow> element \<Rightarrow> bool" where
  "localsFresh loc s \<longleftrightarrow>
     (case l_oldObject loc of None \<Rightarrow> True | Some obj \<Rightarrow> obj < nextObject s)
   \<and> (case l_newObject loc of
        None \<Rightarrow> True
      | Some obj \<Rightarrow> obj < nextObject s \<and> l_oldObject loc \<noteq> Some obj)"

definition elementInvariant :: "element \<Rightarrow> bool" where
  "elementInvariant s \<longleftrightarrow> wellFormed s \<and> onePerPair s \<and> objectKnown s"

text \<open>States that differ in the property values of the objects only.\<close>

definition sameRegistry :: "element \<Rightarrow> element \<Rightarrow> bool" where
  "sameRegistry s s' \<longleftrightarrow>
     (\<exists>np op. s' = s\<lparr>numberProperties := np, otherProperties := op\<rparr>)"

text \<open>The parts of a transition entry that no method changes.\<close>

definition entryStatic :: "transition_entry \<Rightarrow> nat \<times> string \<times> real \<times> real \<times> real \<times> real" where
  "entryStatic e =
     (t_object e, t_propertyName e, t_propertyValue e,
      delay (t_transition e), duration (t_transition e), endValue (t_transition e))"

text \<open>A new element.\<close>

definition new_element :: element where
  "new_element =
     \<lparr> el_object = None, el_properties = None, el_options = NoOptions,
       store = [], objectTransitions = [], propertyTransitions = [], frameCallbacks = [],
       numberProperties = (\<lambda>obj name. 0), otherProperties = (\<lambda>obj name. Undefined),
       events = [], nextObject = 0 \<rparr>"

text \<open>
  Well-formedness while a method of the transition \<open>tid\<close> is running: \<open>tid\<close> itself need
  not be running. The end notification is the last one that a method fires.
\<close>

definition wellFormedExcept :: "nat \<Rightarrow> element \<Rightarrow> bool" where
  "wellFormedExcept tid s \<longleftrightarrow>
     registriesAgree s \<and> keysAgree s
   \<and> (\<forall>tid' \<in> set (frameCallbacks s).
        tid' < length (store s) \<and> (tid' \<noteq> tid \<longrightarrow> isRunning (t_transition (store s ! tid'))))"

definition endsLast :: "real notification list \<Rightarrow> bool" where
  "endsLast ns \<longleftrightarrow>
     OnEnd \<notin> fst ` set ns \<or> (\<exists>ms v. ns = ms @ [(OnEnd, v)] \<and> OnEnd \<notin> fst ` set ms)"

text \<open>Delivering the notifications of a method call on \<open>tid\<close> that left the transition \<open>t'\<close>.\<close>

definition applyMethod ::
  "nat \<Rightarrow> real notification list \<times> real transition \<Rightarrow> element \<Rightarrow> task list \<times> element" where
  "applyMethod tid r s = elementNotify tid (fst r) (putTransition tid (snd r) s)"

text \<open>
  What running pending calls keeps: no transition is registered, created or started, and
  the variables that the callbacks close over do not change.
\<close>

definition stepKeeps :: "element \<Rightarrow> element \<Rightarrow> bool" where
  "stepKeeps s s' \<longleftrightarrow>
     set (frameCallbacks s') \<subseteq> set (frameCallbacks s)
   \<and> set (objectTransitions s') \<subseteq> set (objectTransitions s)
   \<and> length (store s') = length (store s)
   \<and> (\<forall>i. entryStatic (store s' ! i) = entryStatic (store s ! i))
   \<and> (\<forall>i. isRunning (t_transition (store s' ! i)) \<longrightarrow> isRunning (t_transition (store s ! i)))
   \<and> nextObject s' = nextObject s
   \<and> el_object s' = el_object s"

text \<open>
  What a call that may create transitions keeps: the heap only grows, and only
  transitions created by the call are newly registered.
\<close>

definition extends :: "element \<Rightarrow> element \<Rightarrow> bool" where
  "extends s s' \<longleftrightarrow>
     length (store s) \<le> length (store s')
   \<and> (\<forall>i < length (store s). entryStatic (store s' ! i) = entryStatic (store s ! i))
   \<and> set (frameCallbacks s') \<subseteq> set (frameCallbacks s) \<union> {length (store s) ..< length (store s')}
   \<and> nextObject s' = nextObject s
   \<and> el_object s' = el_object s"

text \<open>Every transition created since the heap had \<open>n\<close> entries satisfies \<open>Q\<close>.\<close>

definition createdSince ::
  "nat \<Rightarrow> (nat \<times> string \<times> real \<times> real \<times> real \<times> real \<Rightarrow> bool) \<Rightarrow> element \<Rightarrow> bool" where
  "createdSince n Q s \<longleftrightarrow>
     n \<le> length (store s) \<and> (\<forall>i. n \<le> i \<and> i < length (store s) \<longrightarrow> Q (entryStatic (store s ! i)))"

text \<open>No transition, or only transitions of one object, registered for a property name.\<close>

definition onlyFor :: "string \<Rightarrow> nat option \<Rightarrow> element \<Rightarrow> bool" where
  "onlyFor propertyName object s \<longleftrightarrow>
     (\<forall>tid \<in> set (frameCallbacks s).
        t_propertyName (store s ! tid) = propertyName \<longrightarrow> Some (t_object (store s ! tid)) = object)"

section \<open>A kind of element and an example\<close>

text \<open>
  \<open>TextElement\<close>: no cross-fade, the resolved properties of
  \<open>TextElementResolvedProperties.resolve\<close>, \<open>createObject\<close> never fails. The number of
  transition elements of a text object is a parameter.
\<close>

definition TextElement_kind :: "bool \<Rightarrow> (nat \<Rightarrow> real) \<Rightarrow> (real \<Rightarrow> real) \<Rightarrow> element_kind" where
  "TextElement_kind enterByGraphemeCluster transitionElementCount ease =
     \<lparr> crossFade = False,
       resolveProperties = (\<lambda>properties object changed options.
          Inr [(''value'', Num (if changed then 0 else 1))]),
       getTransitionElementCount = (\<lambda>object isEnter.
          if isEnter \<and> enterByGraphemeCluster then transitionElementCount object else 1),
       createObject = (\<lambda>t v. None),
       CssEasings_Ease = ease \<rparr>"

definition example_kind :: element_kind where
  "example_kind = TextElement_kind True (\<lambda>object. 14) (\<lambda>x. x)"

definition textProperties :: "string \<Rightarrow> element_properties" where
  "textProperties v =
     \<lparr> el_type = ''text'', el_index = 1, el_props = [''value'' \<mapsto> StringValue v] \<rparr>"

text \<open>
  An element that shows the text \<open>hello\<close> as object 0 with no transition running, the
  locals of a transition to the text \<open>world\<close> suspended at its yield, and the element
  after the generator has been resumed: object 0 fades out over 50 in the transition 0,
  and object 1 fades in over 700 after a delay of 50 in the transition 1.
\<close>

definition example_element :: element where
  "example_element =
     new_element\<lparr>el_object := Some 0, el_properties := Some (textProperties ''hello''),
        numberProperties := (\<lambda>obj name. if obj = 0 \<and> name = ''value'' then 1 else 0),
        events := [Attach 0], nextObject := 1\<rparr>"

definition example_locals :: transition_locals where
  "example_locals =
     \<lparr> l_oldObject = Some 0, l_oldProperties = Some (textProperties ''hello''),
       l_oldOptions = NoOptions, l_newProperties = textProperties ''world'',
       l_newOptions = NoOptions, l_oldValue = Some ''hello'', l_newValue = Some ''world'',
       l_newObject = Some 1 \<rparr>"

definition example_entry :: "nat \<Rightarrow> real \<Rightarrow> real \<Rightarrow> real \<Rightarrow> real \<Rightarrow> transition_entry" where
  "example_entry obj sv ev dl du =
     \<lparr> t_transition = (setEasing LinearEasing (setDelay dl (new_NumberTransition sv ev du)))
                        \<lparr>isStarted := True\<rparr>,
       t_object = obj, t_propertyName = ''value'', t_propertyValue = ev \<rparr>"

definition example_transitioning :: element where
  "example_transitioning =
     example_element\<lparr>el_object := Some 1, el_properties := Some (textProperties ''world''),
        store := [example_entry 0 1 0 0 50, example_entry 1 0 1 50 700],
        objectTransitions := [(0, 0), (1, 1)],
        propertyTransitions := [(''value'', 0), (''value'', 1)],
        frameCallbacks := [0, 1],
        events := [Attach 0, Attach 1], nextObject := 2\<rparr>"

text \<open>
  The locals and the plan of a later transition of the example element to the value
  \<open>none\<close>, while the two transitions above are running: object 1 is the outgoing
  object and there is no incoming object.
\<close>

definition example_locals_none :: transition_locals where
  "example_locals_none =
     \<lparr> l_oldObject = Some 1, l_oldProperties = Some (textProperties ''world''),
       l_oldOptions = NoOptions,
       l_newProperties = \<lparr> el_type = ''text'', el_index = 1,
                            el_props = [''value'' \<mapsto> NoneValue] \<rparr>,
       l_newOptions = NoOptions, l_oldValue = Some ''world'', l_newValue = None,
       l_newObject = None \<rparr>"

definition example_plan_none :: transition_plan where
  "example_plan_none =
     \<lparr> oldObjectOldProperties = Some [(''value'', Num 1)],
       oldObjectNewProperties = Some [(''value'', Num 0)],
       newObjectOldProperties = None, newObjectNewProperties = None,
       oldObjectTransitionDuration = 50, newObjectTransitionDelay = 50,
       newObjectTransitionDuration = 0 \<rparr>"

text \<open>
  The condition \<open>propertyName === 'value' && propertyValue === 0\<close> of the end callback, on
  the variables that the callbacks of a transition close over.
\<close>

definition destroysOnEnd :: "transition_entry \<Rightarrow> bool" where
  "destroysOnEnd e \<longleftrightarrow> t_propertyName e = ''value'' \<and> t_propertyValue e = 0"

text \<open>
  An element whose object 0 is leaving: its \<open>value\<close> goes to 0 in the transition 0 while
  its \<open>offsetX\<close> goes to 8 in the transition 1.
\<close>

definition example_leaving :: element where
  "example_leaving =
     example_element\<lparr>
        store := [example_entry 0 1 0 0 50,
                  (example_entry 0 0 8 0 50)\<lparr>t_propertyName := ''offsetX''\<rparr>],
        objectTransitions := [(0, 0), (0, 1)],
        propertyTransitions := [(''value'', 0), (''offsetX'', 1)],
        frameCallbacks := [0, 1]\<rparr>"

text \<open>
  An element whose object 0 is moving: its \<open>offsetX\<close> goes to 8 in the transition 0, and
  no transition of its \<open>value\<close> is registered.
\<close>

definition example_moving :: element where
  "example_moving =
     example_element\<lparr>
        store := [(example_entry 0 0 8 0 50)\<lparr>t_propertyName := ''offsetX''\<rparr>],
        objectTransitions := [(0, 0)],
        propertyTransitions := [(''offsetX'', 0)],
        frameCallbacks := [0]\<rparr>"

section \<open>Properties of Transition\<close>

lemma updateCurrentValue_zero_duration:
  "duration t = 0 \<Longrightarrow>
   updateCurrentValue t =
     (let t' = t\<lparr>currentValue :=
                  convertFromNumber t
                    (convertToNumber t (startValue t)
                     + easing t 1 * (convertToNumber t (endValue t) - convertToNumber t (startValue t))),
                isEnded := True\<rparr>
      in ([(OnUpdate, currentValue t'), (OnEnd, currentValue t')], t'))"
  by (simp add: updateCurrentValue_def fraction_def notifyCallbacks_def Let_def)

text \<open>
  Claim C4 as stated fails: on a transition that has ended, \<open>pause()\<close> and \<open>resume()\<close>
  are not no-ops, each throws.
\<close>

theorem C4_counterexample:
  "isEnded ended_example \<and> pause ended_example \<noteq> Inr ([], ended_example)
   \<and> pause ended_example = Inl (Error ''Cannot pause a transition that has already ended'')
   \<and> resume ended_example = Inl (Error ''Cannot resume a transition that has already ended'')"
  by (simp add: ended_example_def pause_def resume_def new_NumberTransition_def new_Transition_def)

text \<open>
  Claim C4, amended: \<open>pause()\<close> and \<open>resume()\<close> throw an \<open>Error\<close> when the transition
  has already ended. On a transition that has not ended each of them succeeds, is
  idempotent (a second call fires nothing and changes nothing), is a no-op when it is not
  applicable (pause when already paused, resume when not paused), leaves the current
  value as it is and fires no update notification.
\<close>

theorem C4_pause_resume:
  "(isEnded t \<longrightarrow>
      pause t = Inl (Error ''Cannot pause a transition that has already ended'')
    \<and> resume t = Inl (Error ''Cannot resume a transition that has already ended''))
 \<and> (\<not> isEnded t \<longrightarrow>
      (\<exists>ns t'. pause t = Inr (ns, t') \<and> pause t' = Inr ([], t')
          \<and> currentValue t' = currentValue t \<and> OnUpdate \<notin> fst ` set ns
          \<and> (isPaused t \<longrightarrow> ns = [] \<and> t' = t))
    \<and> (\<exists>ns t'. resume t = Inr (ns, t') \<and> resume t' = Inr ([], t')
          \<and> currentValue t' = currentValue t \<and> OnUpdate \<notin> fst ` set ns
          \<and> (\<not> isPaused t \<longrightarrow> ns = [] \<and> t' = t)))"
  by (simp add: pause_def resume_def notifyCallbacks_def Let_def)

text \<open>C4 at the ended and at the running example transition.\<close>

theorem C4_pause_resume_witness:
  "pause ended_example = Inl (Error ''Cannot pause a transition that has already ended'')
   \<and> (\<exists>ns t'. pause running_example = Inr (ns, t') \<and> pause t' = Inr ([], t')
          \<and> currentValue t' = currentValue running_example)"
proof -
  have e: "isEnded ended_example"
    by (simp add: ended_example_def)
  have r: "\<not> isEnded running_example"
    by (simp add: running_example_def new_NumberTransition_def new_Transition_def)
  from C4_pause_resume [of ended_example] e C4_pause_resume [of running_example] r
  show ?thesis by blast
qed

text \<open>
  Claim C5: \<open>cancel(snapToEnd = true)\<close> is a no-op unless the transition is running; on a
  running transition it marks the transition ended, sets the current value to the end
  value and fires exactly one update notification followed by exactly one end
  notification; \<open>cancel\<close> on an already ended transition, and so a second \<open>cancel\<close>,
  changes nothing.
\<close>

theorem C5_cancel:
  "(\<not> isRunning t \<longrightarrow> cancel True t = ([], t))
 \<and> (isEnded t \<longrightarrow> cancel snapToEnd t = ([], t))
 \<and> (isRunning t \<longrightarrow>
      (\<exists>t'. cancel True t = ([(OnUpdate, endValue t), (OnEnd, endValue t)], t')
          \<and> t' = t\<lparr>isEnded := True, currentValue := endValue t\<rparr>
          \<and> isEnded t' \<and> currentValue t' = endValue t
          \<and> cancel True t' = ([], t')))"
  by (simp add: cancel_def isRunning_def notifyCallbacks_def Let_def)

text \<open>C5 at the running and at the ended example transition.\<close>

theorem C5_cancel_witness:
  "isRunning running_example
   \<and> cancel True running_example =
       ([(OnUpdate, 1), (OnEnd, 1)], running_example\<lparr>isEnded := True, currentValue := 1\<rparr>)
   \<and> cancel True ended_example = ([], ended_example)"
proof -
  have r: "isRunning running_example"
    by (simp add: running_example_def isRunning_def new_NumberTransition_def new_Transition_def)
  have e: "isEnded ended_example"
    by (simp add: ended_example_def)
  have v: "endValue running_example = 1"
    by (simp add: running_example_def new_NumberTransition_def new_Transition_def)
  from C5_cancel [of running_example True] r v C5_cancel [of ended_example True] e
  show ?thesis by simp
qed

lemma clamp_min_max: "clamp x 0 1 = min (max 0 x) 1"
  by (simp add: clamp_def min_def max_def)

text \<open>
  Claim C6: \<open>fraction\<close> is \<open>clamp((runningTime - delay) / duration, 0, 1)\<close> when the
  duration is not zero and \<open>1\<close> when it is zero; a fresh zero-duration transition
  therefore ends synchronously within \<open>start()\<close>, which fires the start notification,
  then the update notification, then the end notification, and reports fraction \<open>1\<close>
  afterwards.
\<close>

theorem C6_fraction:
  "(duration t \<noteq> 0 \<longrightarrow> fraction t = clamp ((runningTime t - delay t) / duration t) 0 1)
 \<and> (duration t = 0 \<longrightarrow> fraction t = 1)
 \<and> (duration t = 0 \<and> \<not> isStarted t \<and> \<not> isEnded t \<longrightarrow>
      (\<exists>t'. start t = Inr ([(OnStart, currentValue t), (OnUpdate, currentValue t'),
                              (OnEnd, currentValue t')], t')
          \<and> fraction t' = 1 \<and> isStarted t' \<and> isEnded t'))"
  by (simp add: clamp_min_max fraction_def start_def updateCurrentValue_def
      notifyCallbacks_def Let_def)

text \<open>C6 at a quarter of a 500 transition and at the zero-duration example.\<close>

theorem C6_fraction_witness:
  "fraction (running_example\<lparr>runningTime := 125\<rparr>) = 1 / 4
   \<and> fraction zero_duration_example = 1
   \<and> (\<exists>t'. start zero_duration_example = Inr ([(OnStart, 0), (OnUpdate, 1), (OnEnd, 1)], t')
          \<and> fraction t' = 1 \<and> isEnded t')"
proof -
  have d: "duration (running_example\<lparr>runningTime := 125\<rparr>) \<noteq> 0"
    by (simp add: running_example_def new_NumberTransition_def new_Transition_def)
  have z: "duration zero_duration_example = 0 \<and> \<not> isStarted zero_duration_example
           \<and> \<not> isEnded zero_duration_example \<and> currentValue zero_duration_example = 0"
    by (simp add: zero_duration_example_def new_NumberTransition_def new_Transition_def)
  have c: "clamp ((runningTime (running_example\<lparr>runningTime := 125\<rparr>)
                    - delay (running_example\<lparr>runningTime := 125\<rparr>))
                  / duration (running_example\<lparr>runningTime := 125\<rparr>)) 0 1 = 1 / 4"
    by (simp add: running_example_def new_NumberTransition_def new_Transition_def clamp_def)
  from C6_fraction [of "running_example\<lparr>runningTime := 125\<rparr>"] d c
  have f: "fraction (running_example\<lparr>runningTime := 125\<rparr>) = 1 / 4" by simp
  from C6_fraction [of zero_duration_example] z
  obtain t' where s: "start zero_duration_example =
        Inr ([(OnStart, 0), (OnUpdate, currentValue t'), (OnEnd, currentValue t')], t')"
      and p: "fraction t' = 1" "isEnded t'" and z1: "fraction zero_duration_example = 1"
    by auto
  have "currentValue t' = 1"
    using s by (simp add: start_def zero_duration_example_def new_NumberTransition_def
        new_Transition_def updateCurrentValue_def fraction_def notifyCallbacks_def Let_def
        LinearEasing_def)
  with s p z1 f show ?thesis by auto
qed

section \<open>Properties of the view, the matcher and the engine\<close>

lemma counted_two:
  "countElements (sortElements two_figures) (Map.empty, Map.empty)
   = Inr ([''figure1'' \<mapsto> 0, ''figure2'' \<mapsto> 1], [''figure'' \<mapsto> 2])"
  by (simp add: two_figures_def sortElements_def figureProperties_def compareElements_def
      resolveElementValue_def resolvePropertyValue_def orElse_def truthy_def withDefault_def
      numeral_2_eq_2)

lemma figure_duration:
  "resolveElementTransitionDuration (figureProperties i v) 1 = Inr 500"
  by (simp add: resolveElementTransitionDuration_def defaultTransitionDuration_def
      figureProperties_def resolvePropertyValue_def)

lemma figure_positionX:
  "\<exists>r. ImageElement_resolveProperties m (figureProperties i v) naturalSize False
          (FigureOptions (Some k) (Some n)) = Inr r
       \<and> r_positionX r = Some ((real k / (real n + 1)) * m_width m)"
  by (simp add: ImageElement_resolveProperties_def ImageElementResolvedProperties_resolve_def
      figureProperties_def resolveLength_def resolveNumber_def resolveAngle_def
      resolvePropertyValue_def bindE_def orElse_def figureDefaultPositionX_def Let_def)

lemma figure_options:
  "viewTransitionOptions counted avatarPosition elementName (figureProperties i v)
   = FigureOptions (fst counted elementName) (snd counted ''figure'')"
  by (simp add: viewTransitionOptions_def figureProperties_def)

text \<open>
  Claim C1, evaluated on the code: for the snapshot with \<open>figure1 = a.png\<close> and
  \<open>figure2 = b.png\<close> and no declared position, both objects are created with the default
  transition duration 500, but their default \<open>positionX\<close> resolves to \<open>0\<close> and to
  \<open>screenWidth * 1/3\<close>, not to \<open>screenWidth * 1/3\<close> and \<open>screenWidth * 2/3\<close>: the
  0-based ordinal is divided by \<open>figureCount + 1\<close>.
\<close>

theorem C1_two_figures:
  "\<exists>r1 r2.
     viewResolveImage m two_figures avatarPosition naturalSize ''figure1'' = Inr (500, r1)
   \<and> viewResolveImage m two_figures avatarPosition naturalSize ''figure2'' = Inr (500, r2)
   \<and> r_positionX r1 = Some 0
   \<and> r_positionX r2 = Some (m_width m * (1 / 3))"
proof -
  obtain r1 where r1: "ImageElement_resolveProperties m (figureProperties 1 ''a.png'')
      naturalSize False (FigureOptions (Some 0) (Some 2)) = Inr r1"
    and p1: "r_positionX r1 = Some ((real 0 / (real 2 + 1)) * m_width m)"
    using figure_positionX [of m 1 "''a.png''" naturalSize 0 2] by blast
  obtain r2 where r2: "ImageElement_resolveProperties m (figureProperties 2 ''b.png'')
      naturalSize False (FigureOptions (Some (Suc 0)) (Some 2)) = Inr r2"
    and p2: "r_positionX r2 = Some ((real (Suc 0) / (real 2 + 1)) * m_width m)"
    using figure_positionX [of m 2 "''b.png''" naturalSize "Suc 0" 2] by blast
  have m1: "map_of two_figures ''figure1'' = Some (figureProperties 1 ''a.png'')"
    and m2: "map_of two_figures ''figure2'' = Some (figureProperties 2 ''b.png'')"
    by (simp_all add: two_figures_def)
  have v1: "viewResolveImage m two_figures avatarPosition naturalSize ''figure1'' = Inr (500, r1)"
    unfolding viewResolveImage_def counted_two
    by (simp add: bindE_def m1 figure_duration figure_options r1)
  have v2: "viewResolveImage m two_figures avatarPosition naturalSize ''figure2'' = Inr (500, r2)"
    unfolding viewResolveImage_def counted_two
    by (simp add: bindE_def m2 figure_duration figure_options r2)
  from v1 v2 p1 p2 show ?thesis by simp
qed

lemma trailing1Removed_unique:
  "trailing1Removed n b \<Longrightarrow> trailing1Removed n b' \<Longrightarrow> b' = b"
  by (simp add: trailing1Removed_def)

lemma replaceIndex1_removed:
  assumes "trailing1Removed n b"
  shows "replaceIndex1 n = b"
proof -
  from assms have n: "n = b @ ''1''" and d: "b = [] \<or> \<not> isDigit (last b)"
    by (simp_all add: trailing1Removed_def)
  show ?thesis
  proof (cases "rev b")
    case Nil
    then show ?thesis by (simp add: replaceIndex1_def n)
  next
    case (Cons c r)
    then have b: "b = rev r @ [c]" by (metis rev.simps(2) rev_rev_ident)
    with d have "\<not> isDigit c" by simp
    then show ?thesis by (simp add: replaceIndex1_def n b)
  qed
qed

lemma replaceIndex1_unchanged:
  assumes "\<forall>b. \<not> trailing1Removed n b"
  shows "replaceIndex1 n = n"
proof (cases "rev n")
  case Nil
  then show ?thesis by (simp add: replaceIndex1_def)
next
  case (Cons c r)
  then have n: "n = rev r @ [c]" by (metis rev.simps(2) rev_rev_ident)
  have "\<not> (c = CHR ''1'' \<and> (case r of [] \<Rightarrow> True | d # _ \<Rightarrow> \<not> isDigit d))"
  proof
    assume a: "c = CHR ''1'' \<and> (case r of [] \<Rightarrow> True | d # _ \<Rightarrow> \<not> isDigit d)"
    have "trailing1Removed n (rev r)"
    proof (cases r)
      case Nil
      with a show ?thesis by (simp add: trailing1Removed_def n)
    next
      case (Cons d r')
      with a show ?thesis by (simp add: trailing1Removed_def n)
    qed
    with assms show False by blast
  qed
  then show ?thesis using Cons by (simp add: replaceIndex1_def)
qed

lemma matches_replaceIndex1:
  "(e n \<or> e (replaceIndex1 n)) \<longleftrightarrow> (e n \<or> (\<exists>b. trailing1Removed n b \<and> e b))"
proof (cases "\<exists>b. trailing1Removed n b")
  case True
  then obtain b where b: "trailing1Removed n b" by blast
  have r: "replaceIndex1 n = b" using b by (rule replaceIndex1_removed)
  have "(\<exists>b'. trailing1Removed n b' \<and> e b') \<longleftrightarrow> e b"
    using b trailing1Removed_unique [OF b] by blast
  then show ?thesis by (simp only: r)
next
  case False
  then have "replaceIndex1 n = n" by (simp add: replaceIndex1_unchanged)
  then show ?thesis using False by simp
qed

text \<open>
  Claim C9: \<open>getPropertyMatcher(elementName)\<close> includes the property matcher of exactly
  those patterns whose element matcher matches the element name itself or the element
  name with one single trailing \<open>1\<close>, not preceded by another digit, removed; the
  returned matcher matches a property name iff one of the included matchers does.
\<close>

theorem C9_getPropertyMatcher:
  "propertyMatchers matchers elementName =
     map snd (filter (\<lambda>it. fst it elementName
                          \<or> (\<exists>base. trailing1Removed elementName base \<and> fst it base)) matchers)
   \<and> (getPropertyMatcher matchers elementName propertyName \<longleftrightarrow>
        (\<exists>it \<in> set matchers.
            (fst it elementName \<or> (\<exists>base. trailing1Removed elementName base \<and> fst it base))
          \<and> snd it propertyName))"
proof -
  have f: "filter (\<lambda>it. fst it elementName \<or> fst it (replaceIndex1 elementName)) matchers
    = filter (\<lambda>it. fst it elementName
                  \<or> (\<exists>base. trailing1Removed elementName base \<and> fst it base)) matchers"
    by (rule filter_cong) (simp_all add: matches_replaceIndex1)
  have g: "getPropertyMatcher matchers elementName propertyName \<longleftrightarrow>
        (\<exists>it \<in> set matchers.
            (fst it elementName \<or> (\<exists>base. trailing1Removed elementName base \<and> fst it base))
          \<and> snd it propertyName)"
    unfolding getPropertyMatcher_def propertyMatchers_def f list_ex_iff
    by force
  show ?thesis
    using g by (simp add: propertyMatchers_def f)
qed

text \<open>C9 for the pattern \<open>figure.value\<close> and the names \<open>figure1\<close>, \<open>figure\<close>, \<open>figure11\<close>, \<open>figure21\<close>.\<close>

theorem C9_getPropertyMatcher_witness:
  "trailing1Removed ''figure1'' ''figure''
   \<and> getPropertyMatcher figure_value_matchers ''figure1'' ''value''
   \<and> getPropertyMatcher figure_value_matchers ''figure'' ''value''
   \<and> \<not> getPropertyMatcher figure_value_matchers ''figure11'' ''value''
   \<and> \<not> getPropertyMatcher figure_value_matchers ''figure21'' ''value''"
proof -
  have t: "trailing1Removed ''figure1'' ''figure''"
    by (simp add: trailing1Removed_def isDigit_def)
  have n11: "\<not> (\<exists>base. trailing1Removed ''figure11'' base \<and> base = ''figure'')"
    by (simp add: trailing1Removed_def)
  have n21: "\<not> (\<exists>base. trailing1Removed ''figure21'' base \<and> base = ''figure'')"
    by (simp add: trailing1Removed_def)
  show ?thesis
    using t n11 n21
      C9_getPropertyMatcher [of figure_value_matchers "''figure1''" "''value''"]
      C9_getPropertyMatcher [of figure_value_matchers "''figure''" "''value''"]
      C9_getPropertyMatcher [of figure_value_matchers "''figure11''" "''value''"]
      C9_getPropertyMatcher [of figure_value_matchers "''figure21''" "''value''"]
    by (simp add: figure_value_matchers_def)
qed

text \<open>
  Claim C10: whenever \<open>Engine.updateView\<close> resolves, whatever the request and whatever
  boolean it resolves to, the state holds no element whose \<open>value\<close> is absent or is the
  \<open>none\<close> value, and \<open>keepSkippingWait\<close> is false; it resolves exactly when there is no
  view updater, or the call of the view updater returns a promise and that promise,
  awaited under the status \<open>updating\<close>, resolves.
\<close>

theorem C10_updateView:
  "(updateView onUpdateView options eng = (Inr b, eng') \<longrightarrow>
      (\<forall>(elementName, element) \<in> set (elements (e_state eng')).
          \<exists>v. el_props element ''value'' = Some v \<and> v \<noteq> NoneValue)
    \<and> \<not> keepSkippingWait (e_state eng'))
 \<and> ((\<exists>b eng'. updateView onUpdateView options eng = (Inr b, eng')) \<longleftrightarrow>
      (case onUpdateView of None \<Rightarrow> True
       | Some f \<Rightarrow>
           \<exists>promise eng1 r eng2. f options eng = (Inr promise, eng1)
             \<and> promise (eng1\<lparr>e_status := Updating\<rparr>) = (Inr r, eng2)))"
  by (cases onUpdateView)
    (auto simp: updateView_def updateWithStatus_def resetNoneElements_def isNoneOrUndefined_def
      Let_def split: sum.splits prod.splits)

text \<open>C10 for a pause request on the example engine with a blocking view updater.\<close>

theorem C10_updateView_witness:
  "updateView (Some blocking_updater) Pause example_engine
   = (Inr False, example_engine\<lparr>e_state := (e_state example_engine)
        \<lparr>elements := [(''figure1'', figureProperties 1 ''a.png'')], keepSkippingWait := False\<rparr>\<rparr>)
   \<and> (\<exists>v. el_props (figureProperties 1 ''a.png'') ''value'' = Some v \<and> v \<noteq> NoneValue)"
proof -
  have u: "updateView (Some blocking_updater) Pause example_engine
   = (Inr False, example_engine\<lparr>e_state := (e_state example_engine)
        \<lparr>elements := [(''figure1'', figureProperties 1 ''a.png'')], keepSkippingWait := False\<rparr>\<rparr>)"
    by (simp add: updateView_def updateWithStatus_def blocking_updater_def example_engine_def
        resetNoneElements_def isNoneOrUndefined_def figureProperties_def)
  from C10_updateView [of "Some blocking_updater" Pause example_engine False
      "example_engine\<lparr>e_state := (e_state example_engine)
        \<lparr>elements := [(''figure1'', figureProperties 1 ''a.png'')], keepSkippingWait := False\<rparr>\<rparr>"]
  show ?thesis using u by simp
qed

section \<open>Properties of Layout\<close>

lemma layoutNotify_names:
  "layoutNames (layoutNotify tid ns L) = layoutNames L
   \<and> l_layoutName (layoutNotify tid ns L) = l_layoutName L"
proof (induction ns arbitrary: L)
  case Nil
  then show ?case by (simp add: layoutNotify_def)
next
  case (Cons n ns)
  obtain c v where n: "n = (c, v)" by (cases n)
  have "layoutNames (layoutCallback tid n L) = layoutNames L
      \<and> l_layoutName (layoutCallback tid n L) = l_layoutName L"
    unfolding n by (cases c) simp_all
  with Cons [of "layoutCallback tid n L"] show ?case
    by (simp add: layoutNotify_def)
qed

lemma transitionElement_names:
  assumes "transitionElement el op d L = Inr L'"
  shows "layoutNames L' = layoutNames L \<and> l_layoutName L' = l_layoutName L"
  using assms
  by (auto simp: transitionElement_def Let_def layoutNotify_names split: sum.splits)

lemma transitionElements_names:
  "transitionElements els op d L = Inr L' \<Longrightarrow>
   layoutNames L' = layoutNames L \<and> l_layoutName L' = l_layoutName L"
proof (induction els arbitrary: L)
  case Nil
  then show ?case by simp
next
  case (Cons el els)
  then show ?case
    by (auto split: sum.splits dest!: transitionElement_names)
qed

lemma Layout_transition_names:
  assumes "Layout_transition name L = Inr (exitTypes, enter, L')"
  shows "layoutNames L' = layoutNames L \<and> l_layoutName L' = name \<and> name \<in> set (layoutNames L)"
proof -
  from assms have n: "name \<in> set (layoutNames L)"
    by (auto simp: Layout_transition_def split: if_splits)
  show ?thesis
  proof (cases "l_layoutName L = name")
    case True
    with assms n show ?thesis by (auto simp: Layout_transition_def)
  next
    case False
    with assms n obtain els L2 where
      "transitionElements els 0 LAYOUT_TRANSITION_DURATION (L\<lparr>l_layoutName := name\<rparr>) = Inr L2"
      and "L' = L2"
      by (auto simp: Layout_transition_def Let_def split: sum.splits)
    with transitionElements_names [of els 0 LAYOUT_TRANSITION_DURATION "L\<lparr>l_layoutName := name\<rparr>" L2] n
    show ?thesis by simp
  qed
qed

lemma Layout_transition_same:
  assumes "l_layoutName L = name" and "name \<in> set (layoutNames L)"
  shows "Layout_transition name L = Inr ([], [], L)"
  using assms by (simp add: Layout_transition_def)

text \<open>
  Claim C8: \<open>Layout.transition\<close> with the currently active layout name yields the empty
  exit set and leaves the layout as it is: no transition is created, no opacity changes,
  nothing is registered with the clock, and the resumed generator has no enter elements.
  Hence, after a switch to a layout name has run both of its steps, a second switch to
  the same name yields the empty exit set, so that the view destroys no element, and
  changes nothing.
\<close>

theorem C8_same_layout:
  "(l_layoutName L = name \<and> name \<in> set (layoutNames L) \<longrightarrow>
      Layout_transition name L = Inr ([], [], L) \<and> Layout_transition_resume [] L = Inr L)
 \<and> (Layout_transition name L = Inr (exitTypes, enterElements, L1)
      \<and> Layout_transition_resume enterElements L1 = Inr L2 \<longrightarrow>
      Layout_transition name L2 = Inr ([], [], L2) \<and> Layout_transition_resume [] L2 = Inr L2)"
proof -
  have r: "\<And>M. Layout_transition_resume [] M = Inr M"
    by (simp add: Layout_transition_resume_def)
  have a: "l_layoutName L = name \<and> name \<in> set (layoutNames L) \<longrightarrow>
      Layout_transition name L = Inr ([], [], L)"
    by (simp add: Layout_transition_same)
  have b: "Layout_transition name L = Inr (exitTypes, enterElements, L1)
      \<and> Layout_transition_resume enterElements L1 = Inr L2 \<longrightarrow>
      Layout_transition name L2 = Inr ([], [], L2)"
  proof (intro impI, elim conjE)
    assume 1: "Layout_transition name L = Inr (exitTypes, enterElements, L1)"
      and 2: "Layout_transition_resume enterElements L1 = Inr L2"
    from Layout_transition_names [OF 1]
    have n1: "layoutNames L1 = layoutNames L" "l_layoutName L1 = name" "name \<in> set (layoutNames L)"
      by simp_all
    from 2 have "layoutNames L2 = layoutNames L1 \<and> l_layoutName L2 = l_layoutName L1"
      unfolding Layout_transition_resume_def by (rule transitionElements_names)
    with n1 show "Layout_transition name L2 = Inr ([], [], L2)"
      by (simp add: Layout_transition_same)
  qed
  from a b r show ?thesis by simp
qed

lemma example_first:
  "Layout_transition ''dialogue'' example_layout
     = Inr ([''text''], [7], example_layout\<lparr>l_layoutName := ''dialogue''\<rparr>)"
  by (simp add: Layout_transition_def example_layout_def sortStrings_def Let_def)

lemma example_resume:
  "Layout_transition_resume [7] (example_layout\<lparr>l_layoutName := ''dialogue''\<rparr>)
     = Inr (example_layout\<lparr>l_layoutName := ''dialogue'',
              l_store := [((new_NumberTransition 0 1 500)\<lparr>isStarted := True\<rparr>, 7)],
              l_transitions := [0], l_frameCallbacks := [0]\<rparr>)"
  apply (simp add: Layout_transition_resume_def transitionElement_def example_layout_def
       LAYOUT_TRANSITION_DURATION_def Let_def start_def new_NumberTransition_def
       new_Transition_def updateCurrentValue_def fraction_def notifyCallbacks_def
       layoutNotify_def addFrameCallback_def LinearEasing_def)
  apply (rule ext)
  apply simp
  done

text \<open>C8 on the example layout: a switch to \<open>none\<close>, and two switches to \<open>dialogue\<close>.\<close>

theorem C8_same_layout_witness:
  "Layout_transition ''none'' example_layout = Inr ([], [], example_layout)
   \<and> Layout_transition ''dialogue'' example_layout
       = Inr ([''text''], [7], example_layout\<lparr>l_layoutName := ''dialogue''\<rparr>)
   \<and> Layout_transition_resume [7] (example_layout\<lparr>l_layoutName := ''dialogue''\<rparr>)
       = Inr example_switched
   \<and> Layout_transition ''dialogue'' example_switched = Inr ([], [], example_switched)
   \<and> Layout_transition_resume [] example_switched = Inr example_switched"
proof -
  have n: "l_layoutName example_layout = ''none'' \<and> ''none'' \<in> set (layoutNames example_layout)"
    by (simp add: example_layout_def)
  have r: "Layout_transition_resume [7] (example_layout\<lparr>l_layoutName := ''dialogue''\<rparr>)
       = Inr example_switched"
    unfolding example_switched_def by (rule example_resume)
  from C8_same_layout [of example_layout "''none''"] n
    C8_same_layout [of example_layout "''dialogue''" "[''text'']" "[7]"
      "example_layout\<lparr>l_layoutName := ''dialogue''\<rparr>" example_switched]
    example_first r
  show ?thesis by simp
qed

section \<open>Properties of the element machine\<close>

subsection \<open>Lists of key and value pairs\<close>

lemma remove1_absent_value:
  "v \<notin> snd ` set m \<Longrightarrow> remove1 (k, v) m = m"
  by (rule remove1_idem) force

lemma distinct_snd_remove1:
  "distinct (map snd m) \<Longrightarrow> distinct (map snd (remove1 kv m))"
proof (induction m)
  case Nil
  then show ?case by simp
next
  case (Cons a m)
  have "snd ` set (remove1 kv m) \<subseteq> snd ` set m"
    using set_remove1_subset [of kv m] by blast
  with Cons show ?case by auto
qed

lemma snd_set_remove1:
  "distinct (map snd m) \<Longrightarrow> (k, v) \<in> set m \<Longrightarrow>
   snd ` set (remove1 (k, v) m) = snd ` set m - {v}"
proof (induction m)
  case Nil
  then show ?case by simp
next
  case (Cons a m)
  show ?case
  proof (cases "a = (k, v)")
    case True
    with Cons.prems show ?thesis by force
  next
    case False
    with Cons.prems have in_m: "(k, v) \<in> set m" and d: "distinct (map snd m)"
      and a: "snd a \<notin> snd ` set m" by auto
    from in_m a have "snd a \<noteq> v" by (metis image_eqI snd_conv)
    with Cons.IH [OF d in_m] False show ?thesis by auto
  qed
qed

lemma multimap_get_set:
  "set (multimap_get m k) = {v. (k, v) \<in> set m}"
  by (force simp: multimap_get_def)

subsection \<open>States that differ in property values only\<close>

lemma sameRegistry_refl: "sameRegistry s s"
proof -
  have "s = s\<lparr>numberProperties := numberProperties s, otherProperties := otherProperties s\<rparr>"
    by simp
  then show ?thesis unfolding sameRegistry_def by blast
qed

lemma sameRegistry_trans:
  "sameRegistry s s' \<Longrightarrow> sameRegistry s' s'' \<Longrightarrow> sameRegistry s s''"
  unfolding sameRegistry_def by force

lemma sameRegistry_setPropertyValue: "sameRegistry s (setPropertyValue obj name v s)"
proof (cases v)
  case (Num r)
  then have "setPropertyValue obj name v s
      = s\<lparr>numberProperties := (numberProperties s)(obj := (numberProperties s obj)(name := r)),
          otherProperties := otherProperties s\<rparr>"
    by (simp add: setPropertyValue_def)
  then show ?thesis unfolding sameRegistry_def by blast
next
  case Undefined
  then have "setPropertyValue obj name v s
      = s\<lparr>numberProperties := numberProperties s,
          otherProperties := (otherProperties s)(obj := (otherProperties s obj)(name := v))\<rparr>"
    by (simp add: setPropertyValue_def)
  then show ?thesis unfolding sameRegistry_def by blast
next
  case (Bool b)
  then have "setPropertyValue obj name v s
      = s\<lparr>numberProperties := numberProperties s,
          otherProperties := (otherProperties s)(obj := (otherProperties s obj)(name := v))\<rparr>"
    by (simp add: setPropertyValue_def)
  then show ?thesis unfolding sameRegistry_def by blast
next
  case (Str x)
  then have "setPropertyValue obj name v s
      = s\<lparr>numberProperties := numberProperties s,
          otherProperties := (otherProperties s)(obj := (otherProperties s obj)(name := v))\<rparr>"
    by (simp add: setPropertyValue_def)
  then show ?thesis unfolding sameRegistry_def by blast
qed

lemma sameRegistry_fields:
  assumes "sameRegistry s s'"
  shows "store s' = store s" "objectTransitions s' = objectTransitions s"
    "propertyTransitions s' = propertyTransitions s" "frameCallbacks s' = frameCallbacks s"
    "events s' = events s" "nextObject s' = nextObject s" "el_object s' = el_object s"
    "el_properties s' = el_properties s" "el_options s' = el_options s"
  using assms unfolding sameRegistry_def by auto

lemma sameRegistry_invariants:
  assumes "sameRegistry s s'"
  shows "wellFormed s' = wellFormed s" "onePerPair s' = onePerPair s"
    "objectKnown s' = objectKnown s" "localsFresh loc s' = localsFresh loc s"
  using sameRegistry_fields [OF assms]
  by (simp_all add: wellFormed_def registriesAgree_def keysAgree_def registeredRunning_def
      onePerPair_def objectKnown_def localsFresh_def cong: option.case_cong)

subsection \<open>Notifications\<close>

lemma elementNotify_no_end:
  "OnEnd \<notin> fst ` set ns \<Longrightarrow>
   fst (elementNotify tid ns s) = [] \<and> sameRegistry s (snd (elementNotify tid ns s))"
proof (induction ns arbitrary: s)
  case Nil
  then show ?case by (simp add: sameRegistry_refl)
next
  case (Cons n ns)
  obtain c v where n: "n = (c, v)" by (cases n)
  from Cons.prems have c: "c \<noteq> OnEnd" and r: "OnEnd \<notin> fst ` set ns" by (auto simp: n)
  have f: "fst (elementCallback tid n s) = []"
    and g: "sameRegistry s (snd (elementCallback tid n s))"
    using c unfolding n
    by (cases c; simp add: onUpdateCallback_def Let_def sameRegistry_refl
        sameRegistry_setPropertyValue)+
  from Cons.IH [OF r, of "snd (elementCallback tid n s)"] f g show ?case
    by (auto simp: split_def Let_def intro: sameRegistry_trans)
qed

lemma elementNotify_append:
  "elementNotify tid (ns @ ms) s =
     (let (ts, s1) = elementNotify tid ns s; (ts', s2) = elementNotify tid ms s1
      in (ts @ ts', s2))"
  by (induction ns arbitrary: s) (simp_all add: split_def Let_def)

lemma elementNotify_end:
  assumes "OnEnd \<notin> fst ` set ns"
  shows "elementNotify tid (ns @ [(OnEnd, v)]) s
         = onEndCallback tid (snd (elementNotify tid ns s))"
  using elementNotify_no_end [OF assms, of tid s]
  by (simp add: elementNotify_append split_def Let_def)

subsection \<open>Outcomes of the methods of a transition\<close>

lemma cancel_running:
  "isRunning t \<Longrightarrow>
   cancel True t = ([(OnUpdate, endValue t), (OnEnd, endValue t)],
                    t\<lparr>isEnded := True, currentValue := endValue t\<rparr>)"
  by (simp add: cancel_def notifyCallbacks_def Let_def)

lemma cancel_not_running: "\<not> isRunning t \<Longrightarrow> cancel True t = ([], t)"
  by (simp add: cancel_def)

lemma cancel_outcome:
  "endsLast (fst (cancel True t))
   \<and> delay (snd (cancel True t)) = delay t
   \<and> duration (snd (cancel True t)) = duration t
   \<and> endValue (snd (cancel True t)) = endValue t
   \<and> (OnEnd \<notin> fst ` set (fst (cancel True t)) \<longrightarrow> \<not> isRunning t \<and> snd (cancel True t) = t)"
proof (cases "isRunning t")
  case True
  have "[(OnUpdate, endValue t), (OnEnd, endValue t)] = [(OnUpdate, endValue t)] @ [(OnEnd, endValue t)]"
    by simp
  then have "endsLast [(OnUpdate, endValue t), (OnEnd, endValue t)]"
    unfolding endsLast_def by (metis (no_types, lifting) callbacks.distinct(19) empty_iff
        empty_set fst_conv image_iff list.simps(15) insert_iff)
  with True show ?thesis by (simp add: cancel_running)
next
  case False
  then show ?thesis by (simp add: cancel_not_running endsLast_def)
qed

lemma updateCurrentValue_outcome:
  "endsLast (fst (updateCurrentValue t))
   \<and> delay (snd (updateCurrentValue t)) = delay t
   \<and> duration (snd (updateCurrentValue t)) = duration t
   \<and> endValue (snd (updateCurrentValue t)) = endValue t
   \<and> isStarted (snd (updateCurrentValue t)) = isStarted t
   \<and> isPaused (snd (updateCurrentValue t)) = isPaused t
   \<and> (OnEnd \<notin> fst ` set (fst (updateCurrentValue t)) \<longrightarrow>
        isEnded (snd (updateCurrentValue t)) = isEnded t)
   \<and> OnStart \<notin> fst ` set (fst (updateCurrentValue t))"
proof (cases "fraction t = 1")
  case True
  define v where "v = currentValue (snd (updateCurrentValue t))"
  have f: "fst (updateCurrentValue t) = [(OnUpdate, v)] @ [(OnEnd, v)]"
    using True by (simp add: updateCurrentValue_def notifyCallbacks_def Let_def v_def)
  have "OnEnd \<notin> fst ` set [(OnUpdate, v)]" by simp
  with f have "endsLast (fst (updateCurrentValue t))"
    unfolding endsLast_def by blast
  moreover have "OnStart \<notin> fst ` set (fst (updateCurrentValue t))"
    unfolding f by simp
  moreover have "OnEnd \<in> fst ` set (fst (updateCurrentValue t))"
    unfolding f by simp
  ultimately show ?thesis
    using True by (simp add: updateCurrentValue_def Let_def)
next
  case False
  then show ?thesis
    by (simp add: updateCurrentValue_def notifyCallbacks_def Let_def endsLast_def)
qed

lemma update_outcome:
  "endsLast (fst (update time t))
   \<and> delay (snd (update time t)) = delay t
   \<and> duration (snd (update time t)) = duration t
   \<and> endValue (snd (update time t)) = endValue t
   \<and> (OnEnd \<notin> fst ` set (fst (update time t)) \<longrightarrow>
        isRunning (snd (update time t)) = isRunning t)"
proof (cases "isRunning t")
  case False
  then show ?thesis by (simp add: update_def endsLast_def isRunning_def)
next
  case True
  define t2 where "t2 = (case lastUpdateTime t of
                        None \<Rightarrow> t
                      | Some l \<Rightarrow> t\<lparr>runningTime := runningTime t + (time - l)\<rparr>)
                     \<lparr>lastUpdateTime := Some time\<rparr>"
  have u: "update time t = updateCurrentValue t2"
    using True by (simp add: update_def t2_def Let_def)
  have s: "delay t2 = delay t" "duration t2 = duration t" "endValue t2 = endValue t"
    "isStarted t2 = isStarted t" "isPaused t2 = isPaused t" "isEnded t2 = isEnded t"
    by (simp_all add: t2_def split: option.splits)
  from updateCurrentValue_outcome [of t2] s show ?thesis
    unfolding u by (simp add: isRunning_def)
qed

lemma start_fresh_outcome:
  assumes "\<not> isStarted t" "\<not> isPaused t" "\<not> isEnded t"
  shows "\<exists>ns t'. start t = Inr (ns, t') \<and> endsLast ns
     \<and> delay t' = delay t \<and> duration t' = duration t \<and> endValue t' = endValue t
     \<and> (OnEnd \<notin> fst ` set ns \<longrightarrow> isRunning t')"
proof -
  define t1 where "t1 = t\<lparr>isStarted := True\<rparr>"
  define r where "r = updateCurrentValue t1"
  have s: "start t = Inr ((OnStart, currentValue t) # fst r, snd r)"
    using assms by (simp add: start_def Let_def notifyCallbacks_def split_def t1_def r_def)
  have o: "endsLast (fst r)" "delay (snd r) = delay t" "duration (snd r) = duration t"
    "endValue (snd r) = endValue t" "isStarted (snd r)" "\<not> isPaused (snd r)"
    "OnEnd \<notin> fst ` set (fst r) \<longrightarrow> \<not> isEnded (snd r)"
    using updateCurrentValue_outcome [of t1] assms by (simp_all add: r_def t1_def)
  have e: "endsLast ((OnStart, currentValue t) # fst r)"
  proof (cases "OnEnd \<in> fst ` set (fst r)")
    case False
    then show ?thesis by (simp add: endsLast_def)
  next
    case True
    with o(1) obtain ms v where m: "fst r = ms @ [(OnEnd, v)]" "OnEnd \<notin> fst ` set ms"
      unfolding endsLast_def by blast
    then have "(OnStart, currentValue t) # fst r = ((OnStart, currentValue t) # ms) @ [(OnEnd, v)]"
      and "OnEnd \<notin> fst ` set ((OnStart, currentValue t) # ms)"
      by simp_all
    then show ?thesis unfolding endsLast_def by blast
  qed
  have "OnEnd \<notin> fst ` set ((OnStart, currentValue t) # fst r) \<longrightarrow> isRunning (snd r)"
    using o by (simp add: isRunning_def)
  with s e o show ?thesis by simp
qed

subsection \<open>One method call with its callbacks\<close>

lemma putTransition_fields:
  "objectTransitions (putTransition tid t s) = objectTransitions s"
  "propertyTransitions (putTransition tid t s) = propertyTransitions s"
  "frameCallbacks (putTransition tid t s) = frameCallbacks s"
  "events (putTransition tid t s) = events s"
  "nextObject (putTransition tid t s) = nextObject s"
  "el_object (putTransition tid t s) = el_object s"
  "el_properties (putTransition tid t s) = el_properties s"
  "el_options (putTransition tid t s) = el_options s"
  "length (store (putTransition tid t s)) = length (store s)"
  by (simp_all add: putTransition_def)

lemma putTransition_other:
  "i \<noteq> tid \<Longrightarrow> store (putTransition tid t s) ! i = store s ! i"
  by (simp add: putTransition_def)

lemma putTransition_same:
  "tid < length (store s) \<Longrightarrow>
   store (putTransition tid t s) ! tid = (store s ! tid)\<lparr>t_transition := t\<rparr>"
  by (simp add: putTransition_def)

lemma putTransition_keys:
  "t_object (store (putTransition tid t s) ! i) = t_object (store s ! i)"
  "t_propertyName (store (putTransition tid t s) ! i) = t_propertyName (store s ! i)"
  "t_propertyValue (store (putTransition tid t s) ! i) = t_propertyValue (store s ! i)"
proof -
  have "t_object (store (putTransition tid t s) ! i) = t_object (store s ! i)
     \<and> t_propertyName (store (putTransition tid t s) ! i) = t_propertyName (store s ! i)
     \<and> t_propertyValue (store (putTransition tid t s) ! i) = t_propertyValue (store s ! i)"
  proof (cases "tid < length (store s)")
    case True
    then show ?thesis by (simp add: putTransition_def nth_list_update)
  next
    case False
    then show ?thesis by (simp add: putTransition_def list_update_beyond)
  qed
  then show "t_object (store (putTransition tid t s) ! i) = t_object (store s ! i)"
    "t_propertyName (store (putTransition tid t s) ! i) = t_propertyName (store s ! i)"
    "t_propertyValue (store (putTransition tid t s) ! i) = t_propertyValue (store s ! i)"
    by simp_all
qed

lemma onEndCallback_state:
  "snd (onEndCallback tid s) =
     s\<lparr>objectTransitions := multimap_remove (objectTransitions s) (t_object (store s ! tid)) tid,
       propertyTransitions :=
         multimap_remove (propertyTransitions s) (t_propertyName (store s ! tid)) tid,
       frameCallbacks := removeFrameCallback tid (frameCallbacks s)\<rparr>"
  by (simp add: onEndCallback_def Let_def)

lemma onEndCallback_tasks:
  "fst (onEndCallback tid s) =
     (if t_propertyName (store s ! tid) = ''value'' \<and> t_propertyValue (store s ! tid) = 0
      then map Cancel (multimap_get (objectTransitions (snd (onEndCallback tid s)))
                         (t_object (store s ! tid)))
           @ [Finish (t_object (store s ! tid))]
      else [])"
  by (simp add: onEndCallback_def Let_def)

text \<open>Removing a transition from the three registries keeps them well formed.\<close>

lemma deregister_wellFormed:
  assumes w: "wellFormedExcept tid s"
  shows "wellFormed (snd (onEndCallback tid s))"
    and "set (frameCallbacks (snd (onEndCallback tid s))) = set (frameCallbacks s) - {tid}"
proof -
  let ?s' = "snd (onEndCallback tid s)"
  let ?o = "t_object (store s ! tid)"
  let ?p = "t_propertyName (store s ! tid)"
  from w have r: "registriesAgree s" and k: "keysAgree s"
    and run: "\<forall>tid' \<in> set (frameCallbacks s).
        tid' < length (store s) \<and> (tid' \<noteq> tid \<longrightarrow> isRunning (t_transition (store s ! tid')))"
    by (simp_all add: wellFormedExcept_def)
  have f: "set (frameCallbacks ?s') = set (frameCallbacks s) - {tid}"
    by (auto simp: onEndCallback_state removeFrameCallback_def)
  have o: "snd ` set (objectTransitions ?s') = set (frameCallbacks s) - {tid}"
  proof (cases "tid \<in> set (frameCallbacks s)")
    case True
    with r obtain x where x: "(x, tid) \<in> set (objectTransitions s)"
      unfolding registriesAgree_def by force
    with k have "x = ?o" unfolding keysAgree_def by force
    with x r show ?thesis
      by (simp add: onEndCallback_state multimap_remove_def snd_set_remove1 registriesAgree_def)
  next
    case False
    with r have "tid \<notin> snd ` set (objectTransitions s)" by (simp add: registriesAgree_def)
    with False r show ?thesis
      by (simp add: onEndCallback_state multimap_remove_def remove1_absent_value
          registriesAgree_def)
  qed
  have p: "snd ` set (propertyTransitions ?s') = set (frameCallbacks s) - {tid}"
  proof (cases "tid \<in> set (frameCallbacks s)")
    case True
    with r obtain x where x: "(x, tid) \<in> set (propertyTransitions s)"
      unfolding registriesAgree_def by force
    with k have "x = ?p" unfolding keysAgree_def by force
    with x r show ?thesis
      by (simp add: onEndCallback_state multimap_remove_def snd_set_remove1 registriesAgree_def)
  next
    case False
    with r have "tid \<notin> snd ` set (propertyTransitions s)" by (simp add: registriesAgree_def)
    with False r show ?thesis
      by (simp add: onEndCallback_state multimap_remove_def remove1_absent_value
          registriesAgree_def)
  qed
  have d: "distinct (frameCallbacks ?s')" "distinct (map snd (objectTransitions ?s'))"
    "distinct (map snd (propertyTransitions ?s'))"
    using r
    by (simp_all add: onEndCallback_state removeFrameCallback_def multimap_remove_def
        distinct_removeAll distinct_snd_remove1 registriesAgree_def)
  have ra: "registriesAgree ?s'"
    using d o p f by (simp add: registriesAgree_def)
  have so: "set (objectTransitions ?s') \<subseteq> set (objectTransitions s)"
    and sp: "set (propertyTransitions ?s') \<subseteq> set (propertyTransitions s)"
    by (simp_all add: onEndCallback_state multimap_remove_def set_remove1_subset)
  have st: "store ?s' = store s" by (simp add: onEndCallback_state)
  have ka: "keysAgree ?s'"
    using k so sp unfolding keysAgree_def st by blast
  have rr: "registeredRunning ?s'"
    using run f unfolding registeredRunning_def st by simp
  show "wellFormed ?s'" using ra ka rr by (simp add: wellFormed_def)
  show "set (frameCallbacks ?s') = set (frameCallbacks s) - {tid}" by (rule f)
qed

lemma wellFormedExcept_sameRegistry:
  assumes "sameRegistry s s'"
  shows "wellFormedExcept tid s' = wellFormedExcept tid s"
  using sameRegistry_fields [OF assms]
  by (simp add: wellFormedExcept_def registriesAgree_def keysAgree_def)

lemma wellFormedExcept_put:
  assumes "wellFormedExcept tid s"
  shows "wellFormedExcept tid (putTransition tid t s)"
proof -
  have "\<And>i. i \<noteq> tid \<Longrightarrow> store (putTransition tid t s) ! i = store s ! i"
    by (rule putTransition_other)
  with assms show ?thesis
    by (simp add: wellFormedExcept_def registriesAgree_def keysAgree_def putTransition_fields
        putTransition_keys)
qed

lemma wellFormedExcept_running:
  "wellFormedExcept tid s \<Longrightarrow>
   (tid \<in> set (frameCallbacks s) \<longrightarrow> isRunning (t_transition (store s ! tid))) \<Longrightarrow>
   wellFormed s"
  by (auto simp: wellFormedExcept_def wellFormed_def registeredRunning_def)

lemma wellFormed_Except: "wellFormed s \<Longrightarrow> wellFormedExcept tid s"
  by (auto simp: wellFormedExcept_def wellFormed_def registeredRunning_def)

lemma applyMethod_cases:
  assumes "endsLast ns"
  shows "\<exists>s1. sameRegistry (putTransition tid t' s) s1
           \<and> ((OnEnd \<notin> fst ` set ns \<and> applyMethod tid (ns, t') s = ([], s1))
              \<or> (OnEnd \<in> fst ` set ns \<and> applyMethod tid (ns, t') s = onEndCallback tid s1))"
proof (cases "OnEnd \<in> fst ` set ns")
  case False
  with elementNotify_no_end [of ns tid "putTransition tid t' s"]
  have "fst (applyMethod tid (ns, t') s) = []"
    and "sameRegistry (putTransition tid t' s) (snd (applyMethod tid (ns, t') s))"
    by (simp_all add: applyMethod_def)
  with False show ?thesis by (metis prod.collapse)
next
  case True
  with assms obtain ms v where m: "ns = ms @ [(OnEnd, v)]" "OnEnd \<notin> fst ` set ms"
    unfolding endsLast_def by blast
  have "applyMethod tid (ns, t') s
      = onEndCallback tid (snd (elementNotify tid ms (putTransition tid t' s)))"
    unfolding applyMethod_def m(1) using elementNotify_end [OF m(2)] by simp
  moreover have "sameRegistry (putTransition tid t' s)
      (snd (elementNotify tid ms (putTransition tid t' s)))"
    using elementNotify_no_end [OF m(2)] by simp
  ultimately show ?thesis using True by blast
qed

lemma entryStatic_put:
  assumes "delay t' = delay (t_transition (store s ! tid))"
    "duration t' = duration (t_transition (store s ! tid))"
    "endValue t' = endValue (t_transition (store s ! tid))"
  shows "entryStatic (store (putTransition tid t' s) ! i) = entryStatic (store s ! i)"
proof (cases "i = tid \<and> tid < length (store s)")
  case True
  with assms show ?thesis by (simp add: entryStatic_def putTransition_same)
next
  case False
  then have "store (putTransition tid t' s) ! i = store s ! i"
    by (auto simp: putTransition_def list_update_beyond)
  then show ?thesis by simp
qed

text \<open>What one method call with its callbacks keeps and changes.\<close>

lemma applyMethod_step:
  assumes w: "wellFormedExcept tid s"
    and e: "endsLast ns"
    and q: "OnEnd \<notin> fst ` set ns \<longrightarrow> tid \<in> set (frameCallbacks s) \<longrightarrow> isRunning t'"
    and st: "delay t' = delay (t_transition (store s ! tid))"
      "duration t' = duration (t_transition (store s ! tid))"
      "endValue t' = endValue (t_transition (store s ! tid))"
    and l: "tid < length (store s)"
  shows "wellFormed (snd (applyMethod tid (ns, t') s))"
    and "set (frameCallbacks (snd (applyMethod tid (ns, t') s))) \<subseteq> set (frameCallbacks s)"
    and "OnEnd \<in> fst ` set ns \<longrightarrow> tid \<notin> set (frameCallbacks (snd (applyMethod tid (ns, t') s)))"
    and "length (store (snd (applyMethod tid (ns, t') s))) = length (store s)"
    and "\<forall>i. entryStatic (store (snd (applyMethod tid (ns, t') s)) ! i) = entryStatic (store s ! i)"
    and "\<forall>i. i \<noteq> tid \<longrightarrow> store (snd (applyMethod tid (ns, t') s)) ! i = store s ! i"
    and "t_transition (store (snd (applyMethod tid (ns, t') s)) ! tid) = t'"
    and "events (snd (applyMethod tid (ns, t') s)) = events s"
    and "nextObject (snd (applyMethod tid (ns, t') s)) = nextObject s"
    and "el_object (snd (applyMethod tid (ns, t') s)) = el_object s"
    and "set (objectTransitions (snd (applyMethod tid (ns, t') s))) \<subseteq> set (objectTransitions s)"
proof -
  let ?s0 = "putTransition tid t' s"
  let ?r = "applyMethod tid (ns, t') s"
  from applyMethod_cases [OF e, of tid t' s] obtain s1 where
    sr: "sameRegistry ?s0 s1"
    and c: "(OnEnd \<notin> fst ` set ns \<and> ?r = ([], s1))
          \<or> (OnEnd \<in> fst ` set ns \<and> ?r = onEndCallback tid s1)"
    by blast
  note f = sameRegistry_fields [OF sr]
  have w0: "wellFormedExcept tid ?s0"
    by (rule wellFormedExcept_put [OF w])
  have w1: "wellFormedExcept tid s1"
    using w0 wellFormedExcept_sameRegistry [OF sr, of tid] by simp
  have st1: "store s1 = store ?s0" by (rule f(1))
  have es: "\<forall>i. entryStatic (store s1 ! i) = entryStatic (store s ! i)"
    unfolding st1 using entryStatic_put [OF st] by simp
  have ot: "\<forall>i. i \<noteq> tid \<longrightarrow> store s1 ! i = store s ! i"
    unfolding st1 by (simp add: putTransition_other)
  have tt: "t_transition (store s1 ! tid) = t'"
    unfolding st1 using l by (simp add: putTransition_same)
  have fc0: "frameCallbacks s1 = frameCallbacks s"
    using f(4) by (simp add: putTransition_fields)
  from c show "wellFormed (snd ?r)"
  proof (elim disjE conjE)
    assume a: "OnEnd \<notin> fst ` set ns" and b: "?r = ([], s1)"
    from q a have "tid \<in> set (frameCallbacks s1) \<longrightarrow> isRunning (t_transition (store s1 ! tid))"
      unfolding tt fc0 by simp
    with w1 have "wellFormed s1" by (rule wellFormedExcept_running)
    then show ?thesis unfolding b by simp
  next
    assume b: "?r = onEndCallback tid s1"
    show ?thesis unfolding b by (rule deregister_wellFormed(1) [OF w1])
  qed
  have sn: "snd ?r = s1 \<or> snd ?r = snd (onEndCallback tid s1)"
  proof (rule disjE [OF c])
    assume "OnEnd \<notin> fst ` set ns \<and> ?r = ([], s1)"
    then have "snd ?r = s1" by simp
    then show ?thesis by (rule disjI1)
  next
    assume "OnEnd \<in> fst ` set ns \<and> ?r = onEndCallback tid s1"
    then have "snd ?r = snd (onEndCallback tid s1)" by simp
    then show ?thesis by (rule disjI2)
  qed
  have oe: "store (snd (onEndCallback tid s1)) = store s1"
    "events (snd (onEndCallback tid s1)) = events s1"
    "nextObject (snd (onEndCallback tid s1)) = nextObject s1"
    "el_object (snd (onEndCallback tid s1)) = el_object s1"
    by (simp_all add: onEndCallback_state)
  have os: "set (objectTransitions (snd (onEndCallback tid s1))) \<subseteq> set (objectTransitions s1)"
    by (simp add: onEndCallback_state multimap_remove_def set_remove1_subset)
  have fc: "set (frameCallbacks (snd (onEndCallback tid s1))) = set (frameCallbacks s1) - {tid}"
    by (rule deregister_wellFormed(2) [OF w1])
  have f0: "events s1 = events s"
    "nextObject s1 = nextObject s" "el_object s1 = el_object s"
    "objectTransitions s1 = objectTransitions s" "length (store s1) = length (store s)"
    unfolding f by (simp_all only: putTransition_fields)
  show "set (frameCallbacks (snd ?r)) \<subseteq> set (frameCallbacks s)"
  proof (rule disjE [OF sn])
    assume "snd ?r = s1"
    then show ?thesis by (simp only: fc0 subset_refl)
  next
    assume "snd ?r = snd (onEndCallback tid s1)"
    then show ?thesis by (simp only: fc fc0 Diff_subset)
  qed
  show "OnEnd \<in> fst ` set ns \<longrightarrow> tid \<notin> set (frameCallbacks (snd ?r))"
  proof
    assume "OnEnd \<in> fst ` set ns"
    with c have "?r = onEndCallback tid s1" by blast
    then have "set (frameCallbacks (snd ?r)) = set (frameCallbacks s1) - {tid}"
      by (simp only: fc)
    then show "tid \<notin> set (frameCallbacks (snd ?r))" by blast
  qed
  have sst: "store (snd ?r) = store s1"
    by (rule disjE [OF sn]) (simp_all only: oe)
  show "length (store (snd ?r)) = length (store s)"
    by (simp only: sst f0)
  show "\<forall>i. entryStatic (store (snd ?r) ! i) = entryStatic (store s ! i)"
    unfolding sst by (rule es)
  show "\<forall>i. i \<noteq> tid \<longrightarrow> store (snd ?r) ! i = store s ! i"
    unfolding sst by (rule ot)
  show "t_transition (store (snd ?r) ! tid) = t'"
    unfolding sst by (rule tt)
  show "events (snd ?r) = events s"
    by (rule disjE [OF sn]) (simp_all only: oe f0)
  show "nextObject (snd ?r) = nextObject s"
    by (rule disjE [OF sn]) (simp_all only: oe f0)
  show "el_object (snd ?r) = el_object s"
    by (rule disjE [OF sn]) (simp_all only: oe f0)
  show "set (objectTransitions (snd ?r)) \<subseteq> set (objectTransitions s)"
  proof (rule disjE [OF sn])
    assume "snd ?r = s1"
    then show ?thesis by (simp only: f0 subset_refl)
  next
    assume "snd ?r = snd (onEndCallback tid s1)"
    then show ?thesis using os by (simp only: f0)
  qed
qed

subsection \<open>Running the pending calls\<close>

lemma stepKeeps_refl: "stepKeeps s s"
  by (simp add: stepKeeps_def)

lemma stepKeeps_trans: "stepKeeps s s' \<Longrightarrow> stepKeeps s' s'' \<Longrightarrow> stepKeeps s s''"
  unfolding stepKeeps_def by (metis (no_types, lifting) subset_trans)

lemma onePerPair_keeps:
  assumes "onePerPair s" and k: "stepKeeps s s'"
  shows "onePerPair s'"
proof -
  from k have sub: "set (frameCallbacks s') \<subseteq> set (frameCallbacks s)"
    and es: "\<And>i. entryStatic (store s' ! i) = entryStatic (store s ! i)"
    by (simp_all add: stepKeeps_def)
  have o: "\<And>i. t_object (store s' ! i) = t_object (store s ! i)"
    and p: "\<And>i. t_propertyName (store s' ! i) = t_propertyName (store s ! i)"
    using es by (simp_all add: entryStatic_def)
  show ?thesis
    using assms(1) sub unfolding onePerPair_def o p by blast
qed

lemma cancelStep_applyMethod:
  "tid < length (store s) \<Longrightarrow>
   cancelStep tid s = applyMethod tid (cancel True (t_transition (store s ! tid))) s"
  by (simp add: cancelStep_def applyMethod_def split_def Let_def)

lemma frameStep_applyMethod:
  "tid < length (store s) \<Longrightarrow> tid \<in> set (frameCallbacks s) \<Longrightarrow>
   frameStep tid time s = applyMethod tid (update time (t_transition (store s ! tid))) s"
  by (simp add: frameStep_def applyMethod_def split_def Let_def)

lemma applyMethod_keeps:
  assumes w: "wellFormedExcept tid s"
    and e: "endsLast ns"
    and q: "OnEnd \<notin> fst ` set ns \<longrightarrow> tid \<in> set (frameCallbacks s) \<longrightarrow> isRunning t'"
    and st: "delay t' = delay (t_transition (store s ! tid))"
      "duration t' = duration (t_transition (store s ! tid))"
      "endValue t' = endValue (t_transition (store s ! tid))"
    and l: "tid < length (store s)"
    and m: "isRunning t' \<longrightarrow> isRunning (t_transition (store s ! tid))"
  shows "stepKeeps s (snd (applyMethod tid (ns, t') s))"
proof -
  let ?s' = "snd (applyMethod tid (ns, t') s)"
  note a = applyMethod_step [OF w e q st l]
  have "\<forall>i. isRunning (t_transition (store ?s' ! i)) \<longrightarrow> isRunning (t_transition (store s ! i))"
  proof (intro allI impI)
    fix i
    assume r: "isRunning (t_transition (store ?s' ! i))"
    show "isRunning (t_transition (store s ! i))"
    proof (cases "i = tid")
      case True
      with r a(7) m show ?thesis by simp
    next
      case False
      with r a(6) show ?thesis by simp
    qed
  qed
  with a(2,4,5,9,10,11) show ?thesis
    unfolding stepKeeps_def by blast
qed

lemma cancelStep_keeps:
  assumes w: "wellFormed s"
  shows "wellFormed (snd (cancelStep tid s))"
    and "stepKeeps s (snd (cancelStep tid s))"
    and "tid \<notin> set (frameCallbacks (snd (cancelStep tid s)))"
    and "events (snd (cancelStep tid s)) = events s"
proof -
  let ?t = "t_transition (store s ! tid)"
  let ?c = "cancel True ?t"
  have reg: "tid \<in> set (frameCallbacks s) \<Longrightarrow> tid < length (store s) \<and> isRunning ?t"
    using w by (simp add: wellFormed_def registeredRunning_def)
  have all: "wellFormed (snd (cancelStep tid s)) \<and> stepKeeps s (snd (cancelStep tid s))
      \<and> tid \<notin> set (frameCallbacks (snd (cancelStep tid s)))
      \<and> events (snd (cancelStep tid s)) = events s"
  proof (cases "tid < length (store s)")
    case False
    then have "cancelStep tid s = ([], s)" by (simp add: cancelStep_def)
    with False w reg show ?thesis by (auto simp: stepKeeps_refl)
  next
    case True
    note o = cancel_outcome [of ?t]
    have c: "cancelStep tid s = applyMethod tid (fst ?c, snd ?c) s"
      using cancelStep_applyMethod [OF True] by simp
    have q: "OnEnd \<notin> fst ` set (fst ?c) \<longrightarrow> tid \<in> set (frameCallbacks s) \<longrightarrow> isRunning (snd ?c)"
      using o reg by auto
    have m: "isRunning (snd ?c) \<longrightarrow> isRunning ?t"
      by (cases "isRunning ?t") (simp_all add: cancel_running cancel_not_running isRunning_def)
    have e: "endsLast (fst ?c)" and st: "delay (snd ?c) = delay ?t"
      "duration (snd ?c) = duration ?t" "endValue (snd ?c) = endValue ?t"
      using o by simp_all
    note we = wellFormed_Except [OF w, of tid]
    note a = applyMethod_step [OF we e q st True]
    note k = applyMethod_keeps [OF we e q st True m]
    have n: "tid \<notin> set (frameCallbacks (snd (applyMethod tid (fst ?c, snd ?c) s)))"
    proof (cases "OnEnd \<in> fst ` set (fst ?c)")
      case True
      with a(3) show ?thesis by simp
    next
      case False
      with o have "\<not> isRunning ?t" by simp
      with reg have "tid \<notin> set (frameCallbacks s)" by blast
      with a(2) show ?thesis by blast
    qed
    from a(1) a(8) k n show ?thesis unfolding c by simp
  qed
  from all show "wellFormed (snd (cancelStep tid s))" by simp
  from all show "stepKeeps s (snd (cancelStep tid s))" by simp
  from all show "tid \<notin> set (frameCallbacks (snd (cancelStep tid s)))" by simp
  from all show "events (snd (cancelStep tid s)) = events s" by simp
qed

lemma frameStep_keeps:
  assumes w: "wellFormed s"
  shows "wellFormed (snd (frameStep tid time s))"
    and "stepKeeps s (snd (frameStep tid time s))"
    and "events (snd (frameStep tid time s)) = events s"
proof -
  let ?t = "t_transition (store s ! tid)"
  let ?c = "update time ?t"
  have all: "wellFormed (snd (frameStep tid time s)) \<and> stepKeeps s (snd (frameStep tid time s))
      \<and> events (snd (frameStep tid time s)) = events s"
  proof (cases "tid < length (store s) \<and> tid \<in> set (frameCallbacks s)")
    case False
    then have "frameStep tid time s = ([], s)" by (auto simp: frameStep_def)
    with w show ?thesis by (simp add: stepKeeps_refl)
  next
    case True
    then have l: "tid < length (store s)" and r: "tid \<in> set (frameCallbacks s)" by simp_all
    have run: "isRunning ?t"
      using w r by (simp add: wellFormed_def registeredRunning_def)
    note o = update_outcome [of time ?t]
    have c: "frameStep tid time s = applyMethod tid (fst ?c, snd ?c) s"
      using frameStep_applyMethod [OF l r] by simp
    have q: "OnEnd \<notin> fst ` set (fst ?c) \<longrightarrow> tid \<in> set (frameCallbacks s) \<longrightarrow> isRunning (snd ?c)"
      using o run by simp
    have m: "isRunning (snd ?c) \<longrightarrow> isRunning ?t"
      using run by simp
    have e: "endsLast (fst ?c)" and st: "delay (snd ?c) = delay ?t"
      "duration (snd ?c) = duration ?t" "endValue (snd ?c) = endValue ?t"
      using o by simp_all
    note we = wellFormed_Except [OF w, of tid]
    note a = applyMethod_step [OF we e q st l]
    note k = applyMethod_keeps [OF we e q st l m]
    from a(1) a(8) k show ?thesis unfolding c by simp
  qed
  from all show "wellFormed (snd (frameStep tid time s))" by simp
  from all show "stepKeeps s (snd (frameStep tid time s))" by simp
  from all show "events (snd (frameStep tid time s)) = events s" by simp
qed

lemma finish_keeps:
  "wellFormed (destroyObject obj (detachObject obj s)) = wellFormed s"
  "stepKeeps s (destroyObject obj (detachObject obj s))"
  by (simp_all add: destroyObject_def detachObject_def wellFormed_def registriesAgree_def
      keysAgree_def registeredRunning_def stepKeeps_def)

lemma run_keeps:
  "wellFormed s \<Longrightarrow>
   wellFormed (run ts s) \<and> stepKeeps s (run ts s)
   \<and> (\<forall>tid. Cancel tid \<in> set ts \<longrightarrow> tid \<notin> set (frameCallbacks (run ts s)))"
proof (induction ts s rule: run.induct)
  case (1 s)
  then show ?case by (simp add: stepKeeps_refl)
next
  case (2 object ts s)
  let ?s1 = "destroyObject object (detachObject object s)"
  have w1: "wellFormed ?s1" using 2(2) by (simp add: finish_keeps)
  from 2(1) [OF w1] have ih: "wellFormed (run ts ?s1)" "stepKeeps ?s1 (run ts ?s1)"
    "\<forall>tid. Cancel tid \<in> set ts \<longrightarrow> tid \<notin> set (frameCallbacks (run ts ?s1))"
    by simp_all
  have "stepKeeps s (run ts ?s1)"
    using finish_keeps(2) [of s object] ih(2) by (rule stepKeeps_trans)
  with ih show ?case by simp
next
  case (3 tid ts s)
  obtain ts' s' where c: "cancelStep tid s = (ts', s')" by (cases "cancelStep tid s")
  note k = cancelStep_keeps [OF 3(2), of tid, unfolded c, simplified]
  from 3(1) [OF refl c [symmetric] k(1)]
  have ih: "wellFormed (run (ts' @ ts) s')" "stepKeeps s' (run (ts' @ ts) s')"
    "\<forall>t. Cancel t \<in> set (ts' @ ts) \<longrightarrow> t \<notin> set (frameCallbacks (run (ts' @ ts) s'))"
    by simp_all
  have r: "run (Cancel tid # ts) s = run (ts' @ ts) s'" by (simp add: c)
  have sk: "stepKeeps s (run (ts' @ ts) s')"
    using k(2) ih(2) by (rule stepKeeps_trans)
  have "tid \<notin> set (frameCallbacks (run (ts' @ ts) s'))"
    using k(3) ih(2) unfolding stepKeeps_def by blast
  with ih sk show ?case unfolding r by auto
next
  case (4 tid time ts s)
  obtain ts' s' where c: "frameStep tid time s = (ts', s')" by (cases "frameStep tid time s")
  note k = frameStep_keeps [OF 4(2), of tid time, unfolded c, simplified]
  from 4(1) [OF refl c [symmetric] k(1)]
  have ih: "wellFormed (run (ts' @ ts) s')" "stepKeeps s' (run (ts' @ ts) s')"
    "\<forall>t. Cancel t \<in> set (ts' @ ts) \<longrightarrow> t \<notin> set (frameCallbacks (run (ts' @ ts) s'))"
    by simp_all
  have r: "run (Frame tid time # ts) s = run (ts' @ ts) s'" by (simp add: c)
  have sk: "stepKeeps s (run (ts' @ ts) s')"
    using k(2) ih(2) by (rule stepKeeps_trans)
  with ih show ?case unfolding r by auto
qed

subsection \<open>Creating a transition\<close>

lemma extends_refl: "extends s s"
  by (simp add: extends_def)

lemma extends_trans:
  assumes "extends s s'" "extends s' s''"
  shows "extends s s''"
proof -
  from assms have l: "length (store s) \<le> length (store s')" "length (store s') \<le> length (store s'')"
    by (simp_all add: extends_def)
  from assms have f: "set (frameCallbacks s') \<subseteq> set (frameCallbacks s) \<union> {length (store s) ..< length (store s')}"
    "set (frameCallbacks s'') \<subseteq> set (frameCallbacks s') \<union> {length (store s') ..< length (store s'')}"
    by (simp_all add: extends_def)
  have "set (frameCallbacks s'') \<subseteq> set (frameCallbacks s) \<union> {length (store s) ..< length (store s'')}"
  proof
    fix x assume "x \<in> set (frameCallbacks s'')"
    with f(2) have "x \<in> set (frameCallbacks s') \<or> (length (store s') \<le> x \<and> x < length (store s''))"
      by auto
    then show "x \<in> set (frameCallbacks s) \<union> {length (store s) ..< length (store s'')}"
    proof
      assume "x \<in> set (frameCallbacks s')"
      with f(1) l show ?thesis by auto
    next
      assume "length (store s') \<le> x \<and> x < length (store s'')"
      with l show ?thesis by auto
    qed
  qed
  moreover have "\<forall>i < length (store s). entryStatic (store s'' ! i) = entryStatic (store s ! i)"
    using assms l by (simp add: extends_def)
  ultimately show ?thesis using assms l by (simp add: extends_def)
qed

lemma stepKeeps_extends: "stepKeeps s s' \<Longrightarrow> extends s s'"
  by (auto simp: stepKeeps_def extends_def)

lemma sameRegistry_extends: "sameRegistry s s' \<Longrightarrow> extends s s'"
  using sameRegistry_fields [of s s'] by (simp add: extends_def)

text \<open>The state in which \<open>transitionPropertyValue\<close> calls \<open>start()\<close>.\<close>

lemma register_wellFormedExcept:
  fixes e :: transition_entry
  assumes w: "wellFormed s"
  defines "tid \<equiv> length (store s)"
  defines "s1 \<equiv> s\<lparr>store := store s @ [e],
                 objectTransitions := multimap_set (objectTransitions s) (t_object e) tid,
                 propertyTransitions := multimap_set (propertyTransitions s) (t_propertyName e) tid,
                 frameCallbacks := addFrameCallback tid (frameCallbacks s)\<rparr>"
  shows "wellFormedExcept tid s1"
    and "set (frameCallbacks s1) = insert tid (set (frameCallbacks s))"
proof -
  from w have r: "registriesAgree s" and k: "keysAgree s" and rr: "registeredRunning s"
    by (simp_all add: wellFormed_def)
  have n: "tid \<notin> set (frameCallbacks s)"
    using rr unfolding registeredRunning_def tid_def by auto
  then have fc: "frameCallbacks s1 = frameCallbacks s @ [tid]"
    by (simp add: s1_def addFrameCallback_def)
  have lt: "\<And>t. t \<in> set (frameCallbacks s) \<Longrightarrow> t < length (store s)"
    using rr unfolding registeredRunning_def by simp
  have old: "\<And>t. t \<in> set (frameCallbacks s) \<Longrightarrow> store s1 ! t = store s ! t"
    using lt by (simp add: s1_def nth_append)
  have new: "store s1 ! tid = e"
    by (simp add: s1_def tid_def)
  have ra: "registriesAgree s1"
    using r n unfolding registriesAgree_def fc
    by (auto simp: s1_def multimap_set_def)
  have ka: "keysAgree s1"
    unfolding keysAgree_def
  proof (intro conjI ballI)
    fix kv assume "kv \<in> set (objectTransitions s1)"
    then have "kv \<in> set (objectTransitions s) \<or> kv = (t_object e, tid)"
      by (auto simp: s1_def multimap_set_def)
    then show "t_object (store s1 ! snd kv) = fst kv"
    proof
      assume a: "kv \<in> set (objectTransitions s)"
      with r have "snd kv \<in> set (frameCallbacks s)" unfolding registriesAgree_def by force
      with old a k show ?thesis unfolding keysAgree_def by simp
    next
      assume "kv = (t_object e, tid)"
      with new show ?thesis by simp
    qed
  next
    fix kv assume "kv \<in> set (propertyTransitions s1)"
    then have "kv \<in> set (propertyTransitions s) \<or> kv = (t_propertyName e, tid)"
      by (auto simp: s1_def multimap_set_def)
    then show "t_propertyName (store s1 ! snd kv) = fst kv"
    proof
      assume a: "kv \<in> set (propertyTransitions s)"
      with r have "snd kv \<in> set (frameCallbacks s)" unfolding registriesAgree_def by force
      with old a k show ?thesis unfolding keysAgree_def by simp
    next
      assume "kv = (t_propertyName e, tid)"
      with new show ?thesis by simp
    qed
  qed
  have rn: "\<forall>tid' \<in> set (frameCallbacks s1).
        tid' < length (store s1) \<and> (tid' \<noteq> tid \<longrightarrow> isRunning (t_transition (store s1 ! tid')))"
  proof
    fix t assume "t \<in> set (frameCallbacks s1)"
    then have "t \<in> set (frameCallbacks s) \<or> t = tid" unfolding fc by auto
    then show "t < length (store s1) \<and> (t \<noteq> tid \<longrightarrow> isRunning (t_transition (store s1 ! t)))"
    proof
      assume a: "t \<in> set (frameCallbacks s)"
      with rr have "t < length (store s)" "isRunning (t_transition (store s ! t))"
        unfolding registeredRunning_def by simp_all
      with old [OF a] show ?thesis by (simp add: s1_def)
    next
      assume "t = tid"
      then show ?thesis by (simp add: s1_def tid_def)
    qed
  qed
  show "wellFormedExcept tid s1"
    using ra ka rn by (simp add: wellFormedExcept_def)
  show "set (frameCallbacks s1) = insert tid (set (frameCallbacks s))"
    unfolding fc by simp
qed

lemma transitionPropertyValue_other:
  assumes "\<forall>target. v \<noteq> Num target"
  shows "transitionPropertyValue obj p v dl du ea s = (None, setPropertyValue obj p v s)"
  using assms by (cases v) (simp_all add: transitionPropertyValue_def)

lemma transitionPropertyValue_number:
  fixes obj :: nat and p :: string and target dl du :: real and ea :: "real \<Rightarrow> real"
  assumes w: "wellFormed s"
  defines "r \<equiv> transitionPropertyValue obj p (Num target) dl du ea s"
  shows "fst r = None"
    and "wellFormed (snd r)"
    and "extends s (snd r)"
    and "length (store (snd r)) = Suc (length (store s))"
    and "entryStatic (store (snd r) ! length (store s)) = (obj, p, target, dl, du, target)"
proof -
  define tid where "tid = length (store s)"
  define t where "t = setEasing ea (setDelay dl
      (new_NumberTransition (numberProperties s obj p) target du))"
  define e where "e = \<lparr> t_transition = t, t_object = obj, t_propertyName = p,
      t_propertyValue = target \<rparr>"
  define s1 where "s1 = s\<lparr>store := store s @ [e],
                 objectTransitions := multimap_set (objectTransitions s) (t_object e) tid,
                 propertyTransitions := multimap_set (propertyTransitions s) (t_propertyName e) tid,
                 frameCallbacks := addFrameCallback tid (frameCallbacks s)\<rparr>"
  have fresh: "\<not> isStarted t" "\<not> isPaused t" "\<not> isEnded t"
    and tst: "delay t = dl" "duration t = du" "endValue t = target"
    by (simp_all add: t_def setEasing_def setDelay_def new_NumberTransition_def new_Transition_def)
  from start_fresh_outcome [OF fresh] obtain ns t' where
    st: "start t = Inr (ns, t')" and el: "endsLast ns"
    and t'st: "delay t' = delay t" "duration t' = duration t" "endValue t' = endValue t"
    and q: "OnEnd \<notin> fst ` set ns \<longrightarrow> isRunning t'"
    by blast
  define a where "a = applyMethod tid (ns, t') s1"
  have r: "r = (None, run (fst a) (snd a))"
    unfolding r_def transitionPropertyValue_def a_def applyMethod_def s1_def e_def tid_def
    using st [unfolded t_def]
    by (simp add: Let_def split_def t_def)
  have we: "wellFormedExcept tid s1"
    and f1: "set (frameCallbacks s1) = insert tid (set (frameCallbacks s))"
    using register_wellFormedExcept [OF w, of e] unfolding tid_def s1_def by simp_all
  have l1: "tid < length (store s1)" and n1: "store s1 ! tid = e"
    and len1: "length (store s1) = Suc (length (store s))"
    by (simp_all add: s1_def tid_def)
  have st1: "delay t' = delay (t_transition (store s1 ! tid))"
    "duration t' = duration (t_transition (store s1 ! tid))"
    "endValue t' = endValue (t_transition (store s1 ! tid))"
    using t'st by (simp_all add: n1 e_def)
  have q1: "OnEnd \<notin> fst ` set ns \<longrightarrow> tid \<in> set (frameCallbacks s1) \<longrightarrow> isRunning t'"
    using q by simp
  note m = applyMethod_step [OF we el q1 st1 l1, folded a_def]
  note k = run_keeps [OF m(1), of "fst a"]
  from k have w2: "wellFormed (run (fst a) (snd a))"
    and sk: "stepKeeps (snd a) (run (fst a) (snd a))" by simp_all
  have old1: "\<forall>i < length (store s). entryStatic (store s1 ! i) = entryStatic (store s ! i)"
    by (simp add: s1_def nth_append)
  have e1: "extends s s1"
    unfolding extends_def using old1 f1 len1
    by (auto simp: s1_def tid_def)
  have e2: "extends s1 (snd a)"
    unfolding extends_def using m(2,4,5,9,10) by auto
  have e3: "extends (snd a) (run (fst a) (snd a))"
    using sk by (rule stepKeeps_extends)
  show "fst r = None" by (simp add: r)
  show "wellFormed (snd r)" using w2 by (simp add: r)
  show "extends s (snd r)"
    using extends_trans [OF e1 extends_trans [OF e2 e3]] by (simp add: r)
  have len: "length (store (run (fst a) (snd a))) = length (store s1)"
    using sk m(4) by (simp add: stepKeeps_def)
  show "length (store (snd r)) = Suc (length (store s))"
    using len len1 by (simp add: r)
  have "entryStatic (store (run (fst a) (snd a)) ! tid) = entryStatic (store s1 ! tid)"
    using sk m(5) by (simp add: stepKeeps_def)
  then have "entryStatic (store (snd r) ! tid) = entryStatic e"
    by (simp add: r n1)
  then show "entryStatic (store (snd r) ! length (store s)) = (obj, p, target, dl, du, target)"
    using tst unfolding tid_def by (simp add: e_def entryStatic_def)
qed

lemma transitionObjectProperty_cases:
  fixes p :: string and dl du :: real and ea :: "real \<Rightarrow> real" and v :: pvalue
    and object :: "nat option" and changed :: bool
  assumes w: "wellFormed s"
  defines "r \<equiv> transitionObjectProperty changed object p v dl du ea s"
  shows "fst r = None \<and> wellFormed (snd r) \<and> extends s (snd r)
     \<and> (sameRegistry s (snd r)
        \<or> (\<exists>obj target. changed \<and> object = Some obj \<and> v = Num target
              \<and> length (store (snd r)) = Suc (length (store s))
              \<and> entryStatic (store (snd r) ! length (store s)) = (obj, p, target, dl, du, target)))"
proof (cases "changed \<and> object \<noteq> None")
  case False
  then have "r = (None, s)"
    by (auto simp: r_def transitionObjectProperty_def)
  with w show ?thesis by (simp add: extends_refl sameRegistry_refl)
next
  case True
  then obtain obj where o: "object = Some obj" and c: changed by auto
  have r: "r = transitionPropertyValue obj p v dl du ea s"
    by (simp add: r_def transitionObjectProperty_def o c)
  show ?thesis
  proof (cases "\<exists>target. v = Num target")
    case True
    then obtain target where v: "v = Num target" by blast
    note n = transitionPropertyValue_number [OF w, of obj p target dl du ea]
    from n show ?thesis unfolding r v using o c by simp
  next
    case False
    then have "r = (None, setPropertyValue obj p v s)"
      unfolding r using transitionPropertyValue_other [of v obj p dl du ea s] by simp
    moreover have sr: "sameRegistry s (setPropertyValue obj p v s)"
      by (rule sameRegistry_setPropertyValue)
    ultimately show ?thesis
      using w sameRegistry_invariants(1) [OF sr] sameRegistry_extends [OF sr] by simp
  qed
qed

lemma created_createdSince:
  assumes e: "extends s s'"
    and l: "length (store s') = Suc (length (store s))"
    and n: "entryStatic (store s' ! length (store s)) = x"
    and c: "createdSince k Q s" and q: "Q x"
  shows "createdSince k Q s'"
  unfolding createdSince_def
proof (intro conjI allI impI)
  from c l show "k \<le> length (store s')" by (simp add: createdSince_def)
next
  fix i assume i: "k \<le> i \<and> i < length (store s')"
  show "Q (entryStatic (store s' ! i))"
  proof (cases "i < length (store s)")
    case True
    with e have "entryStatic (store s' ! i) = entryStatic (store s ! i)"
      by (simp add: extends_def)
    with c i True show ?thesis by (simp add: createdSince_def)
  next
    case False
    with i l have "i = length (store s)" by simp
    with n q show ?thesis by simp
  qed
qed

lemma createdSince_same:
  assumes e: "extends s s'" and l: "length (store s') = length (store s)"
    and c: "createdSince k Q s"
  shows "createdSince k Q s'"
  using assms by (simp add: createdSince_def extends_def)

lemma registered_old_or_new:
  assumes e: "extends s s'" and l: "length (store s') = Suc (length (store s))"
    and t: "t \<in> set (frameCallbacks s')"
  shows "(t \<in> set (frameCallbacks s) \<and> t \<noteq> length (store s)) \<or> t = length (store s)"
  using e t unfolding extends_def l by auto

lemma created_onePerPair:
  assumes e: "extends s s'"
    and l: "length (store s') = Suc (length (store s))"
    and n: "entryStatic (store s' ! length (store s)) = (obj, p, target, dl, du, target)"
    and o: "onePerPair s"
    and rr: "registeredRunning s"
    and f: "\<forall>tid \<in> set (frameCallbacks s).
        t_propertyName (store s ! tid) = p \<longrightarrow> t_object (store s ! tid) \<noteq> obj"
  shows "onePerPair s'"
  unfolding onePerPair_def
proof (intro ballI impI)
  fix t1 t2
  assume t1: "t1 \<in> set (frameCallbacks s')" and t2: "t2 \<in> set (frameCallbacks s')"
    and eq: "t_object (store s' ! t1) = t_object (store s' ! t2)
        \<and> t_propertyName (store s' ! t1) = t_propertyName (store s' ! t2)"
  have old: "\<And>t. t \<in> set (frameCallbacks s) \<Longrightarrow>
      t_object (store s' ! t) = t_object (store s ! t)
      \<and> t_propertyName (store s' ! t) = t_propertyName (store s ! t)"
  proof -
    fix t assume "t \<in> set (frameCallbacks s)"
    with rr have "t < length (store s)" by (simp add: registeredRunning_def)
    with e have "entryStatic (store s' ! t) = entryStatic (store s ! t)"
      by (simp add: extends_def)
    then show "t_object (store s' ! t) = t_object (store s ! t)
      \<and> t_propertyName (store s' ! t) = t_propertyName (store s ! t)"
      by (simp add: entryStatic_def)
  qed
  have new: "t_object (store s' ! length (store s)) = obj
      \<and> t_propertyName (store s' ! length (store s)) = p"
    using n by (simp add: entryStatic_def)
  from registered_old_or_new [OF e l t1] registered_old_or_new [OF e l t2]
  show "t1 = t2"
  proof (elim disjE conjE)
    assume a: "t1 \<in> set (frameCallbacks s)" "t2 \<in> set (frameCallbacks s)"
    with old [OF a(1)] old [OF a(2)] eq o show ?thesis
      unfolding onePerPair_def by simp
  next
    assume a: "t1 \<in> set (frameCallbacks s)" "t2 = length (store s)"
    with old [OF a(1)] new eq f show ?thesis by auto
  next
    assume a: "t1 = length (store s)" "t2 \<in> set (frameCallbacks s)"
    with old [OF a(2)] new eq f show ?thesis by auto
  next
    assume "t1 = length (store s)" "t2 = length (store s)"
    then show ?thesis by simp
  qed
qed

lemma created_onlyFor:
  assumes e: "extends s s'"
    and l: "length (store s') = Suc (length (store s))"
    and n: "entryStatic (store s' ! length (store s)) = (obj, p, target, dl, du, target)"
    and rr: "registeredRunning s"
    and f: "onlyFor q None s"
  shows "onlyFor q (Some obj) s'"
  unfolding onlyFor_def
proof (intro ballI impI)
  fix t assume t: "t \<in> set (frameCallbacks s')" and pq: "t_propertyName (store s' ! t) = q"
  from registered_old_or_new [OF e l t]
  show "Some (t_object (store s' ! t)) = Some obj"
  proof (elim disjE conjE)
    assume a: "t \<in> set (frameCallbacks s)"
    with rr have "t < length (store s)" by (simp add: registeredRunning_def)
    with e have "entryStatic (store s' ! t) = entryStatic (store s ! t)"
      by (simp add: extends_def)
    with pq have "t_propertyName (store s ! t) = q" by (simp add: entryStatic_def)
    with f a show ?thesis by (simp add: onlyFor_def)
  next
    assume "t = length (store s)"
    with n show ?thesis by (simp add: entryStatic_def)
  qed
qed

lemma sameRegistry_onlyFor:
  assumes "sameRegistry s s'"
  shows "onlyFor q x s' = onlyFor q x s"
  using sameRegistry_fields [OF assms] by (simp add: onlyFor_def)

lemma sameRegistry_createdSince:
  assumes "sameRegistry s s'"
  shows "createdSince k Q s' = createdSince k Q s"
  using sameRegistry_fields [OF assms] by (simp add: createdSince_def)

lemma onlyFor_None_Some: "onlyFor q None s \<Longrightarrow> onlyFor q x s"
  by (simp add: onlyFor_def)

subsection \<open>The loop over the property names\<close>

lemma cancelPropertyTransitions_effect:
  assumes w: "wellFormed s"
  shows "wellFormed (cancelPropertyTransitions p s)"
    and "stepKeeps s (cancelPropertyTransitions p s)"
    and "onlyFor p None (cancelPropertyTransitions p s)"
proof -
  let ?ts = "map Cancel (multimap_get (propertyTransitions s) p)"
  let ?s1 = "cancelPropertyTransitions p s"
  have s1: "?s1 = run ?ts s" by (simp add: cancelPropertyTransitions_def)
  note k = run_keeps [OF w, of ?ts, folded s1]
  from k show "wellFormed ?s1" and sk: "stepKeeps s ?s1" by simp_all
  from w have r: "registriesAgree s" and ka: "keysAgree s" by (simp_all add: wellFormed_def)
  show "onlyFor p None ?s1"
    unfolding onlyFor_def
  proof (intro ballI impI)
    fix tid assume t: "tid \<in> set (frameCallbacks ?s1)"
      and pp: "t_propertyName (store ?s1 ! tid) = p"
    from sk t have t0: "tid \<in> set (frameCallbacks s)" unfolding stepKeeps_def by blast
    from sk have "entryStatic (store ?s1 ! tid) = entryStatic (store s ! tid)"
      by (simp add: stepKeeps_def)
    with pp have p0: "t_propertyName (store s ! tid) = p" by (simp add: entryStatic_def)
    from t0 r obtain x where x: "(x, tid) \<in> set (propertyTransitions s)"
      unfolding registriesAgree_def by force
    with ka p0 have "x = p" unfolding keysAgree_def by force
    with x have "tid \<in> set (multimap_get (propertyTransitions s) p)"
      by (simp add: multimap_get_set)
    then have "Cancel tid \<in> set ?ts" by simp
    with k have "tid \<notin> set (frameCallbacks ?s1)" by blast
    with t show "Some (t_object (store ?s1 ! tid)) = None" by simp
  qed
qed

lemma wellFormed_registeredRunning: "wellFormed s \<Longrightarrow> registeredRunning s"
  by (simp add: wellFormed_def)

lemma transitionProperty_effect:
  fixes Q :: "nat \<times> string \<times> real \<times> real \<times> real \<times> real \<Rightarrow> bool"
    and kind :: element_kind
  assumes w: "wellFormed s" and o: "onePerPair s"
    and d: "\<forall>n. l_newObject loc = Some n \<longrightarrow> l_oldObject loc \<noteq> Some n"
    and c: "createdSince k Q s"
    and qo: "\<forall>obj target. l_oldObject loc = Some obj \<longrightarrow>
        Q (obj, p, target, 0, oldObjectTransitionDuration plan, target)"
    and qn: "\<forall>obj target. l_newObject loc = Some obj \<longrightarrow>
        Q (obj, p, target, newObjectTransitionDelay plan, newObjectTransitionDuration plan, target)"
  defines "r \<equiv> transitionProperty kind loc plan p s"
  shows "wellFormed (snd r)" and "onePerPair (snd r)" and "extends s (snd r)"
    and "createdSince k Q (snd r)"
    and "length (store s) < length (store (snd r)) \<longrightarrow>
         (\<forall>tid \<in> set (frameCallbacks s).
             t_propertyName (store s ! tid) = p \<longrightarrow> tid \<notin> set (frameCallbacks (snd r)))"
proof -
  define oc where "oc = (lookupProperty (oldObjectOldProperties plan) p
               \<noteq> lookupProperty (oldObjectNewProperties plan) p)"
  define nc where "nc = (lookupProperty (newObjectOldProperties plan) p
               \<noteq> lookupProperty (newObjectNewProperties plan) p)"
  define s1 where "s1 = (if oc \<or> nc then cancelPropertyTransitions p s else s)"
  define ea where "ea = bindE (resolveElementPropertyTransitionEasing (l_newProperties loc) p)
                (getElementTransitionEasing kind)"
  have w1: "wellFormed s1" and k1: "stepKeeps s s1"
    using cancelPropertyTransitions_effect(1,2) [OF w, of p] w
    by (simp_all add: s1_def stepKeeps_refl)
  have only1: "oc \<or> nc \<Longrightarrow> onlyFor p None s1"
    using cancelPropertyTransitions_effect(3) [OF w, of p] by (simp add: s1_def)
  have o1: "onePerPair s1" using o k1 by (rule onePerPair_keeps)
  have e1: "extends s s1" using k1 by (rule stepKeeps_extends)
  have l1: "length (store s1) = length (store s)" using k1 by (simp add: stepKeeps_def)
  have c1: "createdSince k Q s1" using e1 l1 c by (rule createdSince_same)
  have mech1: "oc \<or> nc \<Longrightarrow> \<forall>tid \<in> set (frameCallbacks s).
      t_propertyName (store s ! tid) = p \<longrightarrow> tid \<notin> set (frameCallbacks s1)"
  proof (intro ballI impI)
    fix tid assume ch: "oc \<or> nc" and t: "tid \<in> set (frameCallbacks s)"
      and pp: "t_propertyName (store s ! tid) = p"
    from k1 have "entryStatic (store s1 ! tid) = entryStatic (store s ! tid)"
      by (simp add: stepKeeps_def)
    with pp have "t_propertyName (store s1 ! tid) = p" by (simp add: entryStatic_def)
    with only1 [OF ch] show "tid \<notin> set (frameCallbacks s1)"
      unfolding onlyFor_def by auto
  qed
  have lt: "\<And>tid. tid \<in> set (frameCallbacks s) \<Longrightarrow> tid < length (store s)"
    using w by (simp add: wellFormed_def registeredRunning_def)
  have all: "wellFormed (snd r) \<and> onePerPair (snd r) \<and> extends s (snd r)
      \<and> createdSince k Q (snd r)
      \<and> (length (store s) < length (store (snd r)) \<longrightarrow>
         (\<forall>tid \<in> set (frameCallbacks s).
             t_propertyName (store s ! tid) = p \<longrightarrow> tid \<notin> set (frameCallbacks (snd r))))"
  proof (cases ea)
    case (Inl e)
    then have "r = (Some e, s1)"
      unfolding r_def transitionProperty_def
      by (simp add: Let_def oc_def [symmetric] nc_def [symmetric] s1_def [symmetric]
          ea_def [symmetric])
    with w1 o1 e1 c1 l1 show ?thesis by simp
  next
    case (Inr easing)
    define r2 where "r2 = transitionObjectProperty oc (l_oldObject loc) p
                     (lookupProperty (oldObjectNewProperties plan) p)
                     0 (oldObjectTransitionDuration plan) easing s1"
    define r3 where "r3 = transitionObjectProperty nc (l_newObject loc) p
                    (lookupProperty (newObjectNewProperties plan) p)
                    (newObjectTransitionDelay plan) (newObjectTransitionDuration plan)
                    easing (snd r2)"
    note a2 = transitionObjectProperty_cases [OF w1, of oc "l_oldObject loc" p
        "lookupProperty (oldObjectNewProperties plan) p" 0 "oldObjectTransitionDuration plan" easing,
        folded r2_def]
    from a2 have n2: "fst r2 = None" and w2: "wellFormed (snd r2)" and e2: "extends s1 (snd r2)"
      by simp_all
    note a3 = transitionObjectProperty_cases [OF w2, of nc "l_newObject loc" p
        "lookupProperty (newObjectNewProperties plan) p" "newObjectTransitionDelay plan"
        "newObjectTransitionDuration plan" easing, folded r3_def]
    from a3 have w3: "wellFormed (snd r3)" and e3: "extends (snd r2) (snd r3)"
      by simp_all
    have r: "r = r3"
      unfolding r_def transitionProperty_def
      using n2
      by (simp add: Let_def oc_def [symmetric] nc_def [symmetric] s1_def [symmetric]
          ea_def [symmetric] Inr r2_def [symmetric] r3_def [symmetric] split_def
          split: option.splits)
    have e13: "extends s1 (snd r3)" using e2 e3 by (rule extends_trans)
    have e03: "extends s (snd r3)" using e1 e13 by (rule extends_trans)
    \<comment> \<open>the first call\<close>
    have s2: "onePerPair (snd r2) \<and> createdSince k Q (snd r2)
        \<and> (oc \<or> nc \<longrightarrow> onlyFor p (l_oldObject loc) (snd r2))
        \<and> (length (store s1) < length (store (snd r2)) \<longrightarrow> oc)"
    proof (rule disjE [OF a2 [THEN conjunct2, THEN conjunct2, THEN conjunct2]])
      assume sr: "sameRegistry s1 (snd r2)"
      have "oc \<or> nc \<longrightarrow> onlyFor p (l_oldObject loc) (snd r2)"
        using only1 sameRegistry_onlyFor [OF sr] onlyFor_None_Some by blast
      then show ?thesis
        using o1 c1 sameRegistry_invariants(2) [OF sr] sameRegistry_createdSince [OF sr]
          sameRegistry_fields(1) [OF sr] by simp
    next
      assume "\<exists>obj target. oc \<and> l_oldObject loc = Some obj
          \<and> lookupProperty (oldObjectNewProperties plan) p = Num target
          \<and> length (store (snd r2)) = Suc (length (store s1))
          \<and> entryStatic (store (snd r2) ! length (store s1))
              = (obj, p, target, 0, oldObjectTransitionDuration plan, target)"
      then obtain obj target where oc: oc and ob: "l_oldObject loc = Some obj"
        and len: "length (store (snd r2)) = Suc (length (store s1))"
        and en: "entryStatic (store (snd r2) ! length (store s1))
              = (obj, p, target, 0, oldObjectTransitionDuration plan, target)"
        by blast
      from oc only1 have on: "onlyFor p None s1" by simp
      then have f: "\<forall>tid \<in> set (frameCallbacks s1).
          t_propertyName (store s1 ! tid) = p \<longrightarrow> t_object (store s1 ! tid) \<noteq> obj"
        by (simp add: onlyFor_def)
      have "onePerPair (snd r2)"
        using e2 len en o1 wellFormed_registeredRunning [OF w1] f by (rule created_onePerPair)
      moreover have "createdSince k Q (snd r2)"
        using e2 len en c1 qo ob by (auto intro: created_createdSince)
      moreover have "onlyFor p (l_oldObject loc) (snd r2)"
        unfolding ob
        using e2 len en wellFormed_registeredRunning [OF w1] on by (rule created_onlyFor)
      ultimately show ?thesis using oc by simp
    qed
    \<comment> \<open>the second call\<close>
    have s3: "onePerPair (snd r3) \<and> createdSince k Q (snd r3)
        \<and> (length (store (snd r2)) < length (store (snd r3)) \<longrightarrow> nc)"
    proof (rule disjE [OF a3 [THEN conjunct2, THEN conjunct2, THEN conjunct2]])
      assume sr: "sameRegistry (snd r2) (snd r3)"
      show ?thesis
        using s2 sameRegistry_invariants(2) [OF sr] sameRegistry_createdSince [OF sr]
          sameRegistry_fields(1) [OF sr] by simp
    next
      assume "\<exists>obj target. nc \<and> l_newObject loc = Some obj
          \<and> lookupProperty (newObjectNewProperties plan) p = Num target
          \<and> length (store (snd r3)) = Suc (length (store (snd r2)))
          \<and> entryStatic (store (snd r3) ! length (store (snd r2)))
              = (obj, p, target, newObjectTransitionDelay plan,
                 newObjectTransitionDuration plan, target)"
      then obtain obj target where nc: nc and ob: "l_newObject loc = Some obj"
        and len: "length (store (snd r3)) = Suc (length (store (snd r2)))"
        and en: "entryStatic (store (snd r3) ! length (store (snd r2)))
              = (obj, p, target, newObjectTransitionDelay plan,
                 newObjectTransitionDuration plan, target)"
        by blast
      from nc s2 have on: "onlyFor p (l_oldObject loc) (snd r2)" by simp
      from d ob have ne: "l_oldObject loc \<noteq> Some obj" by simp
      have f: "\<forall>tid \<in> set (frameCallbacks (snd r2)).
          t_propertyName (store (snd r2) ! tid) = p \<longrightarrow> t_object (store (snd r2) ! tid) \<noteq> obj"
        using on ne unfolding onlyFor_def by auto
      have "onePerPair (snd r3)"
        using e3 len en s2 [THEN conjunct1] wellFormed_registeredRunning [OF w2] f
        by (rule created_onePerPair)
      moreover have "createdSince k Q (snd r3)"
        using e3 len en s2 [THEN conjunct2, THEN conjunct1] qn ob
        by (auto intro: created_createdSince)
      ultimately show ?thesis using nc by simp
    qed
    have mech: "length (store s) < length (store (snd r3)) \<longrightarrow>
         (\<forall>tid \<in> set (frameCallbacks s).
             t_propertyName (store s ! tid) = p \<longrightarrow> tid \<notin> set (frameCallbacks (snd r3)))"
    proof (intro impI ballI)
      fix tid
      assume g: "length (store s) < length (store (snd r3))"
        and t: "tid \<in> set (frameCallbacks s)" and pp: "t_propertyName (store s ! tid) = p"
      from e2 have "length (store s1) \<le> length (store (snd r2))" by (simp add: extends_def)
      with g l1 s2 s3 have ch: "oc \<or> nc"
        by (cases "length (store s1) < length (store (snd r2))") auto
      from mech1 [OF ch] t pp have n1: "tid \<notin> set (frameCallbacks s1)" by simp
      from lt [OF t] l1 have "tid < length (store s1)" by simp
      with n1 e13 show "tid \<notin> set (frameCallbacks (snd r3))"
        unfolding extends_def by auto
    qed
    from w3 s3 e03 mech show ?thesis
      unfolding r by simp
  qed
  from all show "wellFormed (snd r)" by simp
  from all show "onePerPair (snd r)" by simp
  from all show "extends s (snd r)" by simp
  from all show "createdSince k Q (snd r)" by simp
  from all show "length (store s) < length (store (snd r)) \<longrightarrow>
         (\<forall>tid \<in> set (frameCallbacks s).
             t_propertyName (store s ! tid) = p \<longrightarrow> tid \<notin> set (frameCallbacks (snd r)))"
    by simp
qed

lemma transitionProperties_effect:
  fixes Q :: "nat \<times> string \<times> real \<times> real \<times> real \<times> real \<Rightarrow> bool"
    and kind :: element_kind
  assumes d: "\<forall>n. l_newObject loc = Some n \<longrightarrow> l_oldObject loc \<noteq> Some n"
    and qo: "\<forall>obj p target. l_oldObject loc = Some obj \<longrightarrow>
        Q (obj, p, target, 0, oldObjectTransitionDuration plan, target)"
    and qn: "\<forall>obj p target. l_newObject loc = Some obj \<longrightarrow>
        Q (obj, p, target, newObjectTransitionDelay plan, newObjectTransitionDuration plan, target)"
  shows "wellFormed s \<Longrightarrow> onePerPair s \<Longrightarrow> createdSince k Q s \<Longrightarrow>
     wellFormed (snd (transitionProperties kind loc plan names s))
   \<and> onePerPair (snd (transitionProperties kind loc plan names s))
   \<and> extends s (snd (transitionProperties kind loc plan names s))
   \<and> createdSince k Q (snd (transitionProperties kind loc plan names s))"
proof (induction names arbitrary: s)
  case Nil
  then show ?case by (simp add: extends_refl)
next
  case (Cons p names)
  define r where "r = transitionProperty kind loc plan p s"
  have qo': "\<forall>obj target. l_oldObject loc = Some obj \<longrightarrow>
        Q (obj, p, target, 0, oldObjectTransitionDuration plan, target)"
    using qo by blast
  have qn': "\<forall>obj target. l_newObject loc = Some obj \<longrightarrow>
        Q (obj, p, target, newObjectTransitionDelay plan, newObjectTransitionDuration plan, target)"
    using qn by blast
  note e = transitionProperty_effect [OF Cons.prems(1,2) d Cons.prems(3) qo' qn', of kind,
      folded r_def]
  show ?case
  proof (cases "fst r")
    case (Some err)
    then have "transitionProperties kind loc plan (p # names) s = (Some err, snd r)"
      by (simp add: r_def [symmetric] split_def)
    with e show ?thesis by simp
  next
    case None
    then have t: "transitionProperties kind loc plan (p # names) s
        = transitionProperties kind loc plan names (snd r)"
      by (simp add: r_def [symmetric] split_def)
    from Cons.IH [OF e(1) e(2) e(4)] e(3) show ?thesis
      unfolding t by (auto intro: extends_trans)
  qed
qed

subsection \<open>The two parts of \<open>BaseElement.transition\<close>\<close>

lemma setProperties_sameRegistry:
  "sameRegistry s (foldl (\<lambda>s kv. setPropertyValue obj (fst kv) (snd kv) s) s ps)"
proof (induction ps arbitrary: s)
  case Nil
  show ?case by (simp add: sameRegistry_refl)
next
  case (Cons kv ps)
  have "sameRegistry s (setPropertyValue obj (fst kv) (snd kv) s)"
    by (rule sameRegistry_setPropertyValue)
  with Cons [of "setPropertyValue obj (fst kv) (snd kv) s"] show ?case
    by (auto intro: sameRegistry_trans)
qed

lemma initNewObject_fields:
  "store (initNewObject loc plan s) = store s"
  "objectTransitions (initNewObject loc plan s) = objectTransitions s"
  "propertyTransitions (initNewObject loc plan s) = propertyTransitions s"
  "frameCallbacks (initNewObject loc plan s) = frameCallbacks s"
  "nextObject (initNewObject loc plan s) = nextObject s"
  "el_object (initNewObject loc plan s) = el_object s"
proof -
  have "store (initNewObject loc plan s) = store s
    \<and> objectTransitions (initNewObject loc plan s) = objectTransitions s
    \<and> propertyTransitions (initNewObject loc plan s) = propertyTransitions s
    \<and> frameCallbacks (initNewObject loc plan s) = frameCallbacks s
    \<and> nextObject (initNewObject loc plan s) = nextObject s
    \<and> el_object (initNewObject loc plan s) = el_object s"
  proof (cases "l_newObject loc")
    case None
    then show ?thesis by (simp add: initNewObject_def)
  next
    case (Some n)
    note f = sameRegistry_fields [OF setProperties_sameRegistry
        [of s n "withDefault (newObjectOldProperties plan) []"]]
    from Some f show ?thesis by (simp add: initNewObject_def attachObject_def)
  qed
  then show "store (initNewObject loc plan s) = store s"
    "objectTransitions (initNewObject loc plan s) = objectTransitions s"
    "propertyTransitions (initNewObject loc plan s) = propertyTransitions s"
    "frameCallbacks (initNewObject loc plan s) = frameCallbacks s"
    "nextObject (initNewObject loc plan s) = nextObject s"
    "el_object (initNewObject loc plan s) = el_object s"
    by simp_all
qed

lemma initNewObject_invariants:
  "wellFormed (initNewObject loc plan s) = wellFormed s"
  "onePerPair (initNewObject loc plan s) = onePerPair s"
  "extends s (initNewObject loc plan s)"
  "createdSince k Q (initNewObject loc plan s) = createdSince k Q s"
  by (simp_all add: wellFormed_def registriesAgree_def keysAgree_def registeredRunning_def
      onePerPair_def extends_def createdSince_def initNewObject_fields)

lemma finishTransition_fields:
  "store (finishTransition loc s) = store s"
  "objectTransitions (finishTransition loc s) = objectTransitions s"
  "propertyTransitions (finishTransition loc s) = propertyTransitions s"
  "frameCallbacks (finishTransition loc s) = frameCallbacks s"
  "nextObject (finishTransition loc s) = nextObject s"
  by (simp_all add: finishTransition_def)

lemma finishTransition_invariants:
  "wellFormed (finishTransition loc s) = wellFormed s"
  "onePerPair (finishTransition loc s) = onePerPair s"
  "createdSince k Q (finishTransition loc s) = createdSince k Q s"
  by (simp_all add: wellFormed_def registriesAgree_def keysAgree_def registeredRunning_def
      onePerPair_def createdSince_def finishTransition_fields)

lemma finishTransition_objectKnown:
  assumes "localsFresh loc s"
  shows "objectKnown (finishTransition loc s)"
  using assms
  by (auto simp: objectKnown_def localsFresh_def finishTransition_def split: option.splits)

lemma resolveDurations_plan:
  assumes "resolveDurations kind loc plan0 = Inr plan"
  shows "\<exists>dOld dNew.
      durationFor kind (l_oldObject loc) (l_newProperties loc) False = Inr dOld
    \<and> durationFor kind (l_newObject loc) (l_newProperties loc) True = Inr dNew
    \<and> plan = plan0\<lparr>oldObjectTransitionDuration := dOld,
                 newObjectTransitionDelay := (if crossFade kind then 0 else dOld),
                 newObjectTransitionDuration := dNew\<rparr>"
  using assms by (auto simp: resolveDurations_def bindE_def split: sum.splits)

text \<open>
  The second part keeps the invariants, and every transition it creates belongs to the
  outgoing or to the incoming object, with the delay and the duration of that object.
\<close>

lemma BaseElement_transition_resume_effect:
  fixes kind :: element_kind
  assumes w: "wellFormed s" and o: "onePerPair s"
    and d: "\<forall>n. l_newObject loc = Some n \<longrightarrow> l_oldObject loc \<noteq> Some n"
  defines "r \<equiv> BaseElement_transition_resume kind loc s"
  shows "wellFormed (snd r)" and "onePerPair (snd r)"
    and "nextObject (snd r) = nextObject s"
    and "length (store s) \<le> length (store (snd r))"
    and "\<forall>i. length (store s) \<le> i \<and> i < length (store (snd r)) \<longrightarrow>
          (\<exists>dOld dNew.
              durationFor kind (l_oldObject loc) (l_newProperties loc) False = Inr dOld
            \<and> durationFor kind (l_newObject loc) (l_newProperties loc) True = Inr dNew
            \<and> ((Some (t_object (store (snd r) ! i)) = l_oldObject loc
                  \<and> delay (t_transition (store (snd r) ! i)) = 0
                  \<and> duration (t_transition (store (snd r) ! i)) = dOld)
               \<or> (Some (t_object (store (snd r) ! i)) = l_newObject loc
                  \<and> delay (t_transition (store (snd r) ! i)) = (if crossFade kind then 0 else dOld)
                  \<and> duration (t_transition (store (snd r) ! i)) = dNew)))"
    and "(fst r \<noteq> None \<and> el_object (snd r) = el_object s)
      \<or> (\<exists>s2. snd r = finishTransition loc s2 \<and> nextObject s2 = nextObject s)"
proof -
  let ?G = "\<lambda>s'. wellFormed s' \<and> onePerPair s' \<and> nextObject s' = nextObject s
      \<and> length (store s) \<le> length (store s')
      \<and> (\<forall>i. length (store s) \<le> i \<and> i < length (store s') \<longrightarrow>
          (\<exists>dOld dNew.
              durationFor kind (l_oldObject loc) (l_newProperties loc) False = Inr dOld
            \<and> durationFor kind (l_newObject loc) (l_newProperties loc) True = Inr dNew
            \<and> ((Some (t_object (store s' ! i)) = l_oldObject loc
                  \<and> delay (t_transition (store s' ! i)) = 0
                  \<and> duration (t_transition (store s' ! i)) = dOld)
               \<or> (Some (t_object (store s' ! i)) = l_newObject loc
                  \<and> delay (t_transition (store s' ! i)) = (if crossFade kind then 0 else dOld)
                  \<and> duration (t_transition (store s' ! i)) = dNew))))"
  have g0: "?G s" using w o by auto
  have pre: "\<exists>s2. ?G s2 \<and> el_object s2 = el_object s
      \<and> ((fst r \<noteq> None \<and> snd r = s2) \<or> (fst r = None \<and> snd r = finishTransition loc s2))"
  proof (cases "resolvePlan kind loc")
    case (Inl e)
    then have "r = (Some e, s)" by (simp add: r_def BaseElement_transition_resume_def)
    with g0 show ?thesis by auto
  next
    case (Inr plan0)
    define s1 where "s1 = initNewObject loc plan0 s"
    have g1: "?G s1"
      using w o by (auto simp: s1_def initNewObject_invariants initNewObject_fields)
    have o1: "el_object s1 = el_object s"
      by (simp add: s1_def initNewObject_fields)
    show ?thesis
    proof (cases "resolveDurations kind loc plan0")
      case (Inl e)
      then have "r = (Some e, s1)"
        by (simp add: r_def BaseElement_transition_resume_def Inr s1_def Let_def)
      with g1 o1 show ?thesis by auto
    next
      case plan: (Inr plan)
      from resolveDurations_plan [OF plan] obtain dOld dNew where
        dOld: "durationFor kind (l_oldObject loc) (l_newProperties loc) False = Inr dOld"
        and dNew: "durationFor kind (l_newObject loc) (l_newProperties loc) True = Inr dNew"
        and pl: "plan = plan0\<lparr>oldObjectTransitionDuration := dOld,
                 newObjectTransitionDelay := (if crossFade kind then 0 else dOld),
                 newObjectTransitionDuration := dNew\<rparr>"
        by blast
      define names where "names = (case oldObjectOldProperties plan of
                        Some ps \<Rightarrow> Inr (map fst ps)
                      | None \<Rightarrow>
                          (case newObjectNewProperties plan of
                             Some ps \<Rightarrow> Inr (map fst ps)
                           | None \<Rightarrow> Inl (Error ''Cannot convert undefined or null to object'')))"
      show ?thesis
      proof (cases names)
        case (Inl e)
        then have "r = (Some e, s1)"
          by (simp add: r_def BaseElement_transition_resume_def Inr s1_def Let_def plan
              names_def [symmetric])
        with g1 o1 show ?thesis by auto
      next
        case ns: (Inr propertyNames)
        define Q :: "nat \<times> string \<times> real \<times> real \<times> real \<times> real \<Rightarrow> bool" where
          "Q = (\<lambda>(obj, p, pv, dl, du, ev).
              (Some obj = l_oldObject loc \<and> dl = 0 \<and> du = dOld)
            \<or> (Some obj = l_newObject loc \<and> dl = (if crossFade kind then 0 else dOld)
                \<and> du = dNew))"
        define r2 where "r2 = transitionProperties kind loc plan propertyNames s1"
        have w1: "wellFormed s1" and o1: "onePerPair s1"
          using w o by (simp_all add: s1_def initNewObject_invariants)
        have c1: "createdSince (length (store s)) Q s1"
          by (auto simp: createdSince_def s1_def initNewObject_fields)
        have qo: "\<forall>obj p target. l_oldObject loc = Some obj \<longrightarrow>
            Q (obj, p, target, 0, oldObjectTransitionDuration plan, target)"
          by (simp add: Q_def pl)
        have qn: "\<forall>obj p target. l_newObject loc = Some obj \<longrightarrow>
            Q (obj, p, target, newObjectTransitionDelay plan, newObjectTransitionDuration plan,
               target)"
          by (simp add: Q_def pl)
        note e = transitionProperties_effect [OF d qo qn w1 o1 c1, of kind propertyNames,
            folded r2_def]
        have n2: "nextObject (snd r2) = nextObject s"
          using e by (simp add: extends_def s1_def initNewObject_fields)
        have o2: "el_object (snd r2) = el_object s"
          using e by (simp add: extends_def s1_def initNewObject_fields)
        have cs: "createdSince (length (store s)) Q (snd r2)" using e by simp
        have g2: "?G (snd r2)"
        proof (intro conjI allI impI)
          show "wellFormed (snd r2)" "onePerPair (snd r2)" using e by simp_all
          show "nextObject (snd r2) = nextObject s" by (rule n2)
          show "length (store s) \<le> length (store (snd r2))"
            using cs by (simp add: createdSince_def)
        next
          fix i assume i: "length (store s) \<le> i \<and> i < length (store (snd r2))"
          with cs have "Q (entryStatic (store (snd r2) ! i))" by (simp add: createdSince_def)
          then have "(Some (t_object (store (snd r2) ! i)) = l_oldObject loc
                  \<and> delay (t_transition (store (snd r2) ! i)) = 0
                  \<and> duration (t_transition (store (snd r2) ! i)) = dOld)
               \<or> (Some (t_object (store (snd r2) ! i)) = l_newObject loc
                  \<and> delay (t_transition (store (snd r2) ! i)) = (if crossFade kind then 0 else dOld)
                  \<and> duration (t_transition (store (snd r2) ! i)) = dNew)"
            by (simp add: Q_def entryStatic_def)
          with dOld dNew show "\<exists>dOld dNew.
              durationFor kind (l_oldObject loc) (l_newProperties loc) False = Inr dOld
            \<and> durationFor kind (l_newObject loc) (l_newProperties loc) True = Inr dNew
            \<and> ((Some (t_object (store (snd r2) ! i)) = l_oldObject loc
                  \<and> delay (t_transition (store (snd r2) ! i)) = 0
                  \<and> duration (t_transition (store (snd r2) ! i)) = dOld)
               \<or> (Some (t_object (store (snd r2) ! i)) = l_newObject loc
                  \<and> delay (t_transition (store (snd r2) ! i)) = (if crossFade kind then 0 else dOld)
                  \<and> duration (t_transition (store (snd r2) ! i)) = dNew))"
            by blast
        qed
        have rr: "r = (case r2 of (Some e, s2) \<Rightarrow> (Some e, s2)
                       | (None, s2) \<Rightarrow> (None, finishTransition loc s2))"
          by (simp add: r_def BaseElement_transition_resume_def Inr s1_def [symmetric] Let_def
              plan names_def [symmetric] ns r2_def [symmetric])
        show ?thesis
        proof (cases "fst r2")
          case (Some err)
          then have "r = (Some err, snd r2)" by (simp add: rr split_def)
          then have "fst r \<noteq> None \<and> snd r = snd r2" by simp
          with g2 o2 show ?thesis by blast
        next
          case None
          then have "r = (None, finishTransition loc (snd r2))" by (simp add: rr split_def)
          then have "fst r = None \<and> snd r = finishTransition loc (snd r2)" by simp
          with g2 o2 show ?thesis by blast
        qed
      qed
    qed
  qed
  from pre obtain s2 where g: "?G s2" and eo: "el_object s2 = el_object s"
    and c: "(fst r \<noteq> None \<and> snd r = s2) \<or> (fst r = None \<and> snd r = finishTransition loc s2)"
    by blast
  have st: "store (snd r) = store s2"
    using c by (auto simp: finishTransition_fields)
  from c g show "wellFormed (snd r)" by (auto simp: finishTransition_invariants)
  from c g show "onePerPair (snd r)" by (auto simp: finishTransition_invariants)
  from c g show "nextObject (snd r) = nextObject s" by (auto simp: finishTransition_fields)
  from g show "length (store s) \<le> length (store (snd r))" unfolding st by blast
  from g show "\<forall>i. length (store s) \<le> i \<and> i < length (store (snd r)) \<longrightarrow>
          (\<exists>dOld dNew.
              durationFor kind (l_oldObject loc) (l_newProperties loc) False = Inr dOld
            \<and> durationFor kind (l_newObject loc) (l_newProperties loc) True = Inr dNew
            \<and> ((Some (t_object (store (snd r) ! i)) = l_oldObject loc
                  \<and> delay (t_transition (store (snd r) ! i)) = 0
                  \<and> duration (t_transition (store (snd r) ! i)) = dOld)
               \<or> (Some (t_object (store (snd r) ! i)) = l_newObject loc
                  \<and> delay (t_transition (store (snd r) ! i)) = (if crossFade kind then 0 else dOld)
                  \<and> duration (t_transition (store (snd r) ! i)) = dNew)))"
    unfolding st by blast
  from c g eo show "(fst r \<noteq> None \<and> el_object (snd r) = el_object s)
      \<or> (\<exists>s2. snd r = finishTransition loc s2 \<and> nextObject s2 = nextObject s)"
    by blast
qed

subsection \<open>The example element\<close>

lemma ex_begin:
  "BaseElement_transition example_kind (textProperties ''world'') NoOptions example_element
   = Inr (Some example_locals, example_element\<lparr>nextObject := 2\<rparr>)"
  by (simp add: BaseElement_transition_def example_element_def new_element_def bindE_def
      resolveElementValue_def resolvePropertyValue_def orElse_def textProperties_def truthy_def
      example_kind_def TextElement_kind_def example_locals_def withDefault_def Let_def)

lemma ex_plan:
  "resolvePlan (example_kind\<lparr>crossFade := cf\<rparr>) example_locals
   = Inr \<lparr> oldObjectOldProperties = Some [(''value'', Num 1)],
           oldObjectNewProperties = Some [(''value'', Num 0)],
           newObjectOldProperties = Some [(''value'', Num 0)],
           newObjectNewProperties = Some [(''value'', Num 1)],
           oldObjectTransitionDuration = 0, newObjectTransitionDelay = 0,
           newObjectTransitionDuration = 0 \<rparr>"
  by (simp add: resolvePlan_def example_locals_def example_kind_def TextElement_kind_def
      resolveFor_def bindE_def truthy_def Let_def)

lemma ex_durations:
  "resolveDurations (example_kind\<lparr>crossFade := cf\<rparr>) example_locals plan0
   = Inr (plan0\<lparr>oldObjectTransitionDuration := 50,
                 newObjectTransitionDelay := (if cf then 0 else 50),
                 newObjectTransitionDuration := 700\<rparr>)"
  by (simp add: resolveDurations_def durationFor_def example_locals_def example_kind_def
      TextElement_kind_def bindE_def resolveElementTransitionDuration_def
      defaultTransitionDuration_def textProperties_def resolvePropertyValue_def)

lemma ex_start:
  "start (setEasing LinearEasing (setDelay dl (new_NumberTransition sv ev du)))
   = (if du = 0 \<or> 1 \<le> (- dl) / du
      then Inr ([(OnStart, sv), (OnUpdate, sv + (ev - sv)), (OnEnd, sv + (ev - sv))],
                (setEasing LinearEasing (setDelay dl (new_NumberTransition sv ev du)))
                  \<lparr>isStarted := True, currentValue := sv + (ev - sv), isEnded := True\<rparr>)
      else Inr ([(OnStart, sv), (OnUpdate, sv + max 0 ((- dl) / du) * (ev - sv))],
                (setEasing LinearEasing (setDelay dl (new_NumberTransition sv ev du)))
                  \<lparr>isStarted := True, currentValue := sv + max 0 ((- dl) / du) * (ev - sv)\<rparr>))"
  by (simp add: start_def setEasing_def setDelay_def new_NumberTransition_def new_Transition_def
      updateCurrentValue_def fraction_def notifyCallbacks_def LinearEasing_def Let_def
      min_def max_def)

lemma ex_loop:
  assumes "dl = 0 \<or> dl = 50"
    and "transitionProperty (example_kind\<lparr>crossFade := cf\<rparr>) example_locals
     \<lparr> oldObjectOldProperties = Some [(''value'', Num 1)],
       oldObjectNewProperties = Some [(''value'', Num 0)],
       newObjectOldProperties = Some [(''value'', Num 0)],
       newObjectNewProperties = Some [(''value'', Num 1)],
       oldObjectTransitionDuration = 50, newObjectTransitionDelay = dl,
       newObjectTransitionDuration = 700 \<rparr> ''value''
     (attachObject 1 (setPropertyValue 1 ''value'' (Num 0) (example_element\<lparr>nextObject := 2\<rparr>)))
   = r3"
  shows "fst r3 = None
   \<and> store (snd r3) = [example_entry 0 1 0 0 50, example_entry 1 0 1 dl 700]
   \<and> frameCallbacks (snd r3) = [0, 1] \<and> objectTransitions (snd r3) = [(0, 0), (1, 1)]
   \<and> propertyTransitions (snd r3) = [(''value'', 0), (''value'', 1)]
   \<and> events (snd r3) = [Attach 0, Attach 1]"
  using assms(1) unfolding assms(2) [symmetric]
  apply (simp add: transitionProperty_def lookupProperty_def cancelPropertyTransitions_def
      multimap_get_def example_element_def new_element_def attachObject_def setPropertyValue_def
      resolveElementPropertyTransitionEasing_def getElementTransitionEasing_def bindE_def
      example_locals_def textProperties_def resolvePropertyValue_def withDefault_def
      transitionObjectProperty_def transitionPropertyValue_def ex_start Let_def
      putTransition_def onUpdateCallback_def multimap_set_def addFrameCallback_def
      example_entry_def split_def)
  apply (auto simp: setEasing_def setDelay_def new_NumberTransition_def new_Transition_def)
  done

lemma ex_resume:
  assumes "BaseElement_transition_resume (example_kind\<lparr>crossFade := cf\<rparr>) example_locals
             (example_element\<lparr>nextObject := 2\<rparr>) = r"
  shows "fst r = None
   \<and> store (snd r) = [example_entry 0 1 0 0 50, example_entry 1 0 1 (if cf then 0 else 50) 700]
   \<and> frameCallbacks (snd r) = [0, 1] \<and> objectTransitions (snd r) = [(0, 0), (1, 1)]
   \<and> propertyTransitions (snd r) = [(''value'', 0), (''value'', 1)]
   \<and> events (snd r) = [Attach 0, Attach 1] \<and> el_object (snd r) = Some 1"
proof -
  define dl :: real where "dl = (if cf then 0 else 50)"
  define plan where "plan = \<lparr> oldObjectOldProperties = Some [(''value'', Num 1)],
       oldObjectNewProperties = Some [(''value'', Num 0)],
       newObjectOldProperties = Some [(''value'', Num 0)],
       newObjectNewProperties = Some [(''value'', Num 1)],
       oldObjectTransitionDuration = 50, newObjectTransitionDelay = dl,
       newObjectTransitionDuration = 700 \<rparr>"
  define s1 where "s1 = attachObject 1 (setPropertyValue 1 ''value'' (Num 0)
      (example_element\<lparr>nextObject := 2\<rparr>))"
  define r3 where "r3 = transitionProperty (example_kind\<lparr>crossFade := cf\<rparr>) example_locals
      plan ''value'' s1"
  have dd: "dl = 0 \<or> dl = 50" by (simp add: dl_def)
  note l = ex_loop [OF dd refl, of cf, folded plan_def s1_def r3_def]
  define plan0 where "plan0 = \<lparr> oldObjectOldProperties = Some [(''value'', Num 1)],
           oldObjectNewProperties = Some [(''value'', Num 0)],
           newObjectOldProperties = Some [(''value'', Num 0)],
           newObjectNewProperties = Some [(''value'', Num 1)],
           oldObjectTransitionDuration = 0, newObjectTransitionDelay = 0,
           newObjectTransitionDuration = 0 \<rparr>"
  have p0: "resolvePlan (example_kind\<lparr>crossFade := cf\<rparr>) example_locals = Inr plan0"
    unfolding plan0_def by (rule ex_plan)
  have i: "initNewObject example_locals plan0 (example_element\<lparr>nextObject := 2\<rparr>) = s1"
    by (simp add: initNewObject_def example_locals_def withDefault_def s1_def plan0_def)
  have d: "resolveDurations (example_kind\<lparr>crossFade := cf\<rparr>) example_locals plan0 = Inr plan"
    by (simp add: ex_durations plan_def plan0_def dl_def)
  have pn: "oldObjectOldProperties plan = Some [(''value'', Num 1)]"
    by (simp add: plan_def)
  have tp: "transitionProperties (example_kind\<lparr>crossFade := cf\<rparr>) example_locals plan
      [''value''] s1 = (None, snd r3)"
    using l by (simp add: r3_def [symmetric] split_def split: option.splits)
  have "r = (None, finishTransition example_locals (snd r3))"
    unfolding assms [symmetric] BaseElement_transition_resume_def
    by (simp add: p0 i d pn tp del: transitionProperties.simps)
  with l show ?thesis
    by (simp add: finishTransition_def example_locals_def truthy_def dl_def)
qed

lemma ex_kind: "example_kind\<lparr>crossFade := False\<rparr> = example_kind"
  by (simp add: example_kind_def TextElement_kind_def)

subsection \<open>The invariant of an element\<close>

lemma new_element_invariant: "elementInvariant new_element"
  by (simp add: elementInvariant_def wellFormed_def registriesAgree_def keysAgree_def
      registeredRunning_def onePerPair_def objectKnown_def new_element_def)

lemma run_invariant:
  assumes "elementInvariant s"
  shows "elementInvariant (run ts s)"
    and "localsFresh loc (run ts s) = localsFresh loc s"
proof -
  from assms have w: "wellFormed s" and o: "onePerPair s" and k: "objectKnown s"
    by (simp_all add: elementInvariant_def)
  from run_keeps [OF w, of ts] have w': "wellFormed (run ts s)" and sk: "stepKeeps s (run ts s)"
    by simp_all
  have o': "onePerPair (run ts s)" using o sk by (rule onePerPair_keeps)
  from sk have n: "nextObject (run ts s) = nextObject s" "el_object (run ts s) = el_object s"
    by (simp_all add: stepKeeps_def)
  from k n have "objectKnown (run ts s)"
    by (simp add: objectKnown_def cong: option.case_cong)
  with w' o' show "elementInvariant (run ts s)" by (simp add: elementInvariant_def)
  from n show "localsFresh loc (run ts s) = localsFresh loc s"
    by (simp add: localsFresh_def cong: option.case_cong)
qed

lemma BaseElement_transition_locals:
  assumes i: "elementInvariant s"
    and b: "BaseElement_transition kind properties options s = Inr (Some loc, s1)"
  shows "elementInvariant s1 \<and> localsFresh loc s1"
proof -
  from i have k: "objectKnown s" by (simp add: elementInvariant_def)
  from b obtain oldValue newValue where
    c: "(truthy newValue \<and> newValue \<noteq> oldValue
          \<and> loc = \<lparr> l_oldObject = el_object s, l_oldProperties = el_properties s,
                      l_oldOptions = el_options s, l_newProperties = properties,
                      l_newOptions = options, l_oldValue = oldValue, l_newValue = newValue,
                      l_newObject = Some (nextObject s) \<rparr>
          \<and> s1 = s\<lparr>nextObject := Suc (nextObject s)\<rparr>)
       \<or> (loc = \<lparr> l_oldObject = el_object s, l_oldProperties = el_properties s,
                      l_oldOptions = el_options s, l_newProperties = properties,
                      l_newOptions = options, l_oldValue = oldValue, l_newValue = newValue,
                      l_newObject = None \<rparr>
          \<and> s1 = s)"
    by (auto simp: BaseElement_transition_def bindE_def Let_def
        split: sum.splits if_splits option.splits)
  from c show ?thesis
  proof
    assume a: "truthy newValue \<and> newValue \<noteq> oldValue
          \<and> loc = \<lparr> l_oldObject = el_object s, l_oldProperties = el_properties s,
                      l_oldOptions = el_options s, l_newProperties = properties,
                      l_newOptions = options, l_oldValue = oldValue, l_newValue = newValue,
                      l_newObject = Some (nextObject s) \<rparr>
          \<and> s1 = s\<lparr>nextObject := Suc (nextObject s)\<rparr>"
    then have "localsFresh loc s1"
      using k by (auto simp: localsFresh_def objectKnown_def split: option.splits)
    moreover have "elementInvariant s1"
      using i a
      by (auto simp: elementInvariant_def wellFormed_def registriesAgree_def keysAgree_def
          registeredRunning_def onePerPair_def objectKnown_def split: option.splits)
    ultimately show ?thesis by simp
  next
    assume a: "loc = \<lparr> l_oldObject = el_object s, l_oldProperties = el_properties s,
                      l_oldOptions = el_options s, l_newProperties = properties,
                      l_newOptions = options, l_oldValue = oldValue, l_newValue = newValue,
                      l_newObject = None \<rparr>
          \<and> s1 = s"
    then have "localsFresh loc s1"
      using k by (auto simp: localsFresh_def objectKnown_def split: option.splits)
    with i a show ?thesis by simp
  qed
qed

lemma localsFresh_distinct:
  "localsFresh loc s \<Longrightarrow> \<forall>n. l_newObject loc = Some n \<longrightarrow> l_oldObject loc \<noteq> Some n"
  by (auto simp: localsFresh_def split: option.splits)

lemma BaseElement_transition_resume_invariant:
  assumes i: "elementInvariant s" and f: "localsFresh loc s"
  shows "elementInvariant (snd (BaseElement_transition_resume kind loc s))"
proof -
  let ?r = "BaseElement_transition_resume kind loc s"
  from i have w: "wellFormed s" and o: "onePerPair s" and k: "objectKnown s"
    by (simp_all add: elementInvariant_def)
  note e = BaseElement_transition_resume_effect [OF w o localsFresh_distinct [OF f], of kind]
  have "objectKnown (snd ?r)"
  proof (rule disjE [OF e(6)])
    assume "fst ?r \<noteq> None \<and> el_object (snd ?r) = el_object s"
    with k e(3) show ?thesis by (simp add: objectKnown_def cong: option.case_cong)
  next
    assume "\<exists>s2. snd ?r = finishTransition loc s2 \<and> nextObject s2 = nextObject s"
    then obtain s2 where s2: "snd ?r = finishTransition loc s2" "nextObject s2 = nextObject s"
      by blast
    from f s2(2) have "localsFresh loc s2"
      by (simp add: localsFresh_def cong: option.case_cong)
    then show ?thesis unfolding s2(1) by (rule finishTransition_objectKnown)
  qed
  with e(1,2) show ?thesis by (simp add: elementInvariant_def)
qed

lemma ex_cancel0:
  assumes "run [Cancel 0] example_transitioning = s'"
  shows "frameCallbacks s' = [1] \<and> objectTransitions s' = [(1, 1)]
   \<and> propertyTransitions s' = [(''value'', 1)]
   \<and> events s' = [Attach 0, Attach 1, Detach 0, Destroy 0]
   \<and> length (store s') = 2
   \<and> isEnded (t_transition (store s' ! 0)) \<and> isRunning (t_transition (store s' ! 1))
   \<and> numberProperties s' 0 ''value'' = 0"
  unfolding assms [symmetric]
  by (simp add: example_transitioning_def example_element_def new_element_def example_entry_def
      cancelStep_def cancel_def isRunning_def notifyCallbacks_def putTransition_def
      onUpdateCallback_def onEndCallback_def setPropertyValue_def multimap_remove_def
      multimap_get_def removeFrameCallback_def detachObject_def destroyObject_def
      setEasing_def setDelay_def new_NumberTransition_def new_Transition_def Let_def)

lemma ex_cancel1:
  assumes "run [Cancel 1] example_transitioning = s'"
  shows "frameCallbacks s' = [0] \<and> objectTransitions s' = [(0, 0)]
   \<and> propertyTransitions s' = [(''value'', 0)]
   \<and> events s' = [Attach 0, Attach 1]
   \<and> isEnded (t_transition (store s' ! 1)) \<and> isRunning (t_transition (store s' ! 0))
   \<and> numberProperties s' 1 ''value'' = 1"
  unfolding assms [symmetric]
  by (simp add: example_transitioning_def example_element_def new_element_def example_entry_def
      cancelStep_def cancel_def isRunning_def notifyCallbacks_def putTransition_def
      onUpdateCallback_def onEndCallback_def setPropertyValue_def multimap_remove_def
      multimap_get_def removeFrameCallback_def detachObject_def destroyObject_def
      setEasing_def setDelay_def new_NumberTransition_def new_Transition_def Let_def)

lemma ex_invariant: "elementInvariant example_transitioning"
  by (simp add: elementInvariant_def wellFormed_def registriesAgree_def keysAgree_def
      registeredRunning_def onePerPair_def objectKnown_def example_transitioning_def
      example_element_def new_element_def example_entry_def isRunning_def
      setEasing_def setDelay_def new_NumberTransition_def new_Transition_def)

lemma ex_replace:
  assumes "transitionProperty example_kind example_locals_none example_plan_none ''value''
             example_transitioning = r"
  shows "fst r = None \<and> frameCallbacks (snd r) = [2] \<and> length (store (snd r)) = 3
   \<and> events (snd r) = [Attach 0, Attach 1, Detach 0, Destroy 0]
   \<and> t_object (store (snd r) ! 2) = 1 \<and> t_propertyName (store (snd r) ! 2) = ''value''"
  unfolding assms [symmetric]
  apply (simp add: transitionProperty_def lookupProperty_def cancelPropertyTransitions_def
      example_plan_none_def example_locals_none_def
      resolveElementPropertyTransitionEasing_def getElementTransitionEasing_def bindE_def
      resolvePropertyValue_def withDefault_def
      transitionObjectProperty_def transitionPropertyValue_def ex_start
      multimap_set_def addFrameCallback_def split_def
      example_transitioning_def example_element_def new_element_def example_entry_def
      cancelStep_def cancel_def isRunning_def notifyCallbacks_def putTransition_def
      onUpdateCallback_def onEndCallback_def setPropertyValue_def multimap_remove_def
      multimap_get_def removeFrameCallback_def detachObject_def destroyObject_def
      Let_def)
  apply (auto simp: setEasing_def setDelay_def new_NumberTransition_def new_Transition_def)
  done

text \<open>
  Claim C7: when \<open>BaseElement.transition\<close> is resumed with both an outgoing and an
  incoming object, every transition it creates belongs to one of the two; those of the
  outgoing object have delay 0 and the outgoing object's transition duration, and those
  of the incoming object are delayed by the outgoing object's transition duration when
  the kind does not cross-fade and have delay 0 when it does.
\<close>

theorem C7_transition_delays:
  "wellFormed s \<and> onePerPair s
   \<and> l_oldObject loc = Some old \<and> l_newObject loc = Some new \<and> old \<noteq> new
   \<and> length (store s) \<le> i
   \<and> i < length (store (snd (BaseElement_transition_resume kind loc s)))
   \<longrightarrow>
   (\<exists>dOld.
       resolveElementTransitionDuration (l_newProperties loc)
         (getTransitionElementCount kind old False) = Inr dOld
     \<and> ((t_object (store (snd (BaseElement_transition_resume kind loc s)) ! i) = old
          \<and> delay (t_transition (store (snd (BaseElement_transition_resume kind loc s)) ! i)) = 0
          \<and> duration (t_transition (store (snd (BaseElement_transition_resume kind loc s)) ! i))
              = dOld)
        \<or> (t_object (store (snd (BaseElement_transition_resume kind loc s)) ! i) = new
          \<and> delay (t_transition (store (snd (BaseElement_transition_resume kind loc s)) ! i))
              = (if crossFade kind then 0 else dOld))))"
proof (intro impI, elim conjE)
  let ?s' = "snd (BaseElement_transition_resume kind loc s)"
  assume w: "wellFormed s" and o: "onePerPair s"
    and lo: "l_oldObject loc = Some old" and ln: "l_newObject loc = Some new"
    and ne: "old \<noteq> new" and i: "length (store s) \<le> i" "i < length (store ?s')"
  have d: "\<forall>n. l_newObject loc = Some n \<longrightarrow> l_oldObject loc \<noteq> Some n"
    using lo ln ne by simp
  from BaseElement_transition_resume_effect(5) [OF w o d, of kind] i
  obtain dOld dNew where
    dOld: "durationFor kind (l_oldObject loc) (l_newProperties loc) False = Inr dOld"
    and c: "(Some (t_object (store ?s' ! i)) = l_oldObject loc
              \<and> delay (t_transition (store ?s' ! i)) = 0
              \<and> duration (t_transition (store ?s' ! i)) = dOld)
          \<or> (Some (t_object (store ?s' ! i)) = l_newObject loc
              \<and> delay (t_transition (store ?s' ! i)) = (if crossFade kind then 0 else dOld)
              \<and> duration (t_transition (store ?s' ! i)) = dNew)"
    by blast
  from dOld have "resolveElementTransitionDuration (l_newProperties loc)
         (getTransitionElementCount kind old False) = Inr dOld"
    by (simp add: durationFor_def lo)
  with c show "\<exists>dOld.
       resolveElementTransitionDuration (l_newProperties loc)
         (getTransitionElementCount kind old False) = Inr dOld
     \<and> ((t_object (store ?s' ! i) = old
          \<and> delay (t_transition (store ?s' ! i)) = 0
          \<and> duration (t_transition (store ?s' ! i)) = dOld)
        \<or> (t_object (store ?s' ! i) = new
          \<and> delay (t_transition (store ?s' ! i)) = (if crossFade kind then 0 else dOld)))"
    unfolding lo ln by auto
qed

lemma ex_base: "wellFormed (example_element\<lparr>nextObject := 2\<rparr>)
    \<and> onePerPair (example_element\<lparr>nextObject := 2\<rparr>)
    \<and> length (store (example_element\<lparr>nextObject := 2\<rparr>)) = 0"
  by (simp add: wellFormed_def registriesAgree_def keysAgree_def registeredRunning_def
      onePerPair_def example_element_def new_element_def)

lemma ex_entry:
  "t_object (example_entry obj sv ev dl du) = obj"
  "delay (t_transition (example_entry obj sv ev dl du)) = dl"
  "duration (t_transition (example_entry obj sv ev dl du)) = du"
  by (simp_all add: example_entry_def setEasing_def setDelay_def new_NumberTransition_def
      new_Transition_def)

text \<open>
  C7 on the example element, without and with cross-fade: the transition of the
  outgoing object 0 has delay 0 and duration 50; the transition of the incoming object 1
  has delay 50 without cross-fade and delay 0 with it.
\<close>

theorem C7_transition_delays_witness:
  "store (snd (BaseElement_transition_resume example_kind example_locals
                 (example_element\<lparr>nextObject := 2\<rparr>)))
     = [example_entry 0 1 0 0 50, example_entry 1 0 1 50 700]
   \<and> store (snd (BaseElement_transition_resume (example_kind\<lparr>crossFade := True\<rparr>) example_locals
                 (example_element\<lparr>nextObject := 2\<rparr>)))
     = [example_entry 0 1 0 0 50, example_entry 1 0 1 0 700]
   \<and> resolveElementTransitionDuration (textProperties ''world'') 1 = Inr 50
   \<and> delay (t_transition (example_entry 0 1 0 0 50)) = 0
   \<and> delay (t_transition (example_entry 1 0 1 50 700)) = 50
   \<and> delay (t_transition (example_entry 1 0 1 0 700)) = 0"
proof -
  let ?s = "example_element\<lparr>nextObject := 2\<rparr>"
  let ?k = "example_kind\<lparr>crossFade := True\<rparr>"
  have a: "store (snd (BaseElement_transition_resume example_kind example_locals ?s))
     = [example_entry 0 1 0 0 50, example_entry 1 0 1 50 700]"
    using ex_resume [OF refl, of False] by (simp add: ex_kind)
  have b: "store (snd (BaseElement_transition_resume ?k example_locals ?s))
     = [example_entry 0 1 0 0 50, example_entry 1 0 1 0 700]"
    using ex_resume [OF refl, of True] by simp
  have l: "l_oldObject example_locals = Some 0" "l_newObject example_locals = Some 1"
    "l_newProperties example_locals = textProperties ''world''"
    by (simp_all add: example_locals_def)
  have k: "getTransitionElementCount example_kind 0 False = 1"
    "getTransitionElementCount ?k 0 False = 1" "\<not> crossFade example_kind" "crossFade ?k"
    by (simp_all add: example_kind_def TextElement_kind_def)
  from C7_transition_delays [of ?s example_locals 0 1 1 example_kind] ex_base
  have c1: "\<exists>dOld. resolveElementTransitionDuration (textProperties ''world'') 1 = Inr dOld
      \<and> delay (t_transition (example_entry 1 0 1 50 700)) = dOld"
    by (simp add: a l k ex_entry)
  from C7_transition_delays [of ?s example_locals 0 1 0 example_kind] ex_base
  have c0: "delay (t_transition (example_entry 0 1 0 0 50)) = 0"
    by (simp add: a l k ex_entry)
  from C7_transition_delays [of ?s example_locals 0 1 1 ?k] ex_base
  have c2: "delay (t_transition (example_entry 1 0 1 0 700)) = 0"
    by (simp add: b l k ex_entry)
  from c1 have "resolveElementTransitionDuration (textProperties ''world'') 1 = Inr 50"
    by (simp add: ex_entry)
  with a b c0 c2 show ?thesis by (simp add: ex_entry)
qed

text \<open>
  Claim C2: at most one transition is registered with the clock for an object and a
  property. The invariant holds for a new element and is kept by a frame of the clock, by
  \<open>snap\<close> and by both parts of \<open>BaseElement.transition\<close> (the locals of the suspended
  generator stay fresh while frames and \<open>snap\<close> run); and whenever the loop body of
  \<open>BaseElement.transition\<close> creates a transition for a property name, no transition that
  was registered for that name before is registered afterwards: a transition registered
  for the name afterwards was created by this call.
\<close>

theorem C2_one_transition_per_pair:
  "elementInvariant new_element
   \<and> (elementInvariant s \<longrightarrow>
        onePerPair s
      \<and> elementInvariant (nextFrame time s)
      \<and> elementInvariant (BaseElement_snap propertyMatcher s)
      \<and> localsFresh loc (nextFrame time s) = localsFresh loc s
      \<and> localsFresh loc (BaseElement_snap propertyMatcher s) = localsFresh loc s
      \<and> (\<forall>loc1 s1. BaseElement_transition kind properties options s = Inr (Some loc1, s1) \<longrightarrow>
            elementInvariant s1 \<and> localsFresh loc1 s1)
      \<and> (localsFresh loc s \<longrightarrow>
            elementInvariant (snd (BaseElement_transition_resume kind loc s))))
   \<and> (wellFormed s \<and> onePerPair s \<and> localsFresh loc s
      \<and> length (store s) < length (store (snd (transitionProperty kind loc plan p s)))
      \<longrightarrow> onePerPair (snd (transitionProperty kind loc plan p s))
        \<and> (\<forall>tid \<in> set (frameCallbacks s). t_propertyName (store s ! tid) = p \<longrightarrow>
              tid \<notin> set (frameCallbacks (snd (transitionProperty kind loc plan p s))))
        \<and> (\<forall>tid \<in> set (frameCallbacks (snd (transitionProperty kind loc plan p s))).
              t_propertyName (store (snd (transitionProperty kind loc plan p s)) ! tid) = p \<longrightarrow>
              length (store s) \<le> tid))"
proof (intro conjI impI allI)
  show "elementInvariant new_element" by (rule new_element_invariant)
next
  assume "elementInvariant s" then show "onePerPair s" by (simp add: elementInvariant_def)
next
  assume "elementInvariant s"
  then show "elementInvariant (nextFrame time s)"
    unfolding nextFrame_def by (rule run_invariant(1))
next
  assume "elementInvariant s"
  then show "elementInvariant (BaseElement_snap propertyMatcher s)"
    unfolding BaseElement_snap_def by (rule run_invariant(1))
next
  assume "elementInvariant s"
  then show "localsFresh loc (nextFrame time s) = localsFresh loc s"
    unfolding nextFrame_def by (rule run_invariant(2))
next
  assume "elementInvariant s"
  then show "localsFresh loc (BaseElement_snap propertyMatcher s) = localsFresh loc s"
    unfolding BaseElement_snap_def by (rule run_invariant(2))
next
  fix loc1 s1
  assume i: "elementInvariant s"
    and b: "BaseElement_transition kind properties options s = Inr (Some loc1, s1)"
  from BaseElement_transition_locals [OF i b]
  show "elementInvariant s1" and "localsFresh loc1 s1" by simp_all
next
  assume "elementInvariant s" and "localsFresh loc s"
  then show "elementInvariant (snd (BaseElement_transition_resume kind loc s))"
    by (rule BaseElement_transition_resume_invariant)
next
  let ?s' = "snd (transitionProperty kind loc plan p s)"
  assume a: "wellFormed s \<and> onePerPair s \<and> localsFresh loc s
      \<and> length (store s) < length (store ?s')"
  then have w: "wellFormed s" and o: "onePerPair s" and f: "localsFresh loc s"
    and g: "length (store s) < length (store ?s')" by simp_all
  have c: "createdSince (length (store s)) (\<lambda>e. True) s" by (simp add: createdSince_def)
  note e = transitionProperty_effect [where kind = kind and p = p and plan = plan,
      OF w o localsFresh_distinct [OF f] c]
  from e(2) show "onePerPair ?s'" by simp
  from e(5) g
  show m: "\<forall>tid \<in> set (frameCallbacks s). t_propertyName (store s ! tid) = p \<longrightarrow>
              tid \<notin> set (frameCallbacks ?s')"
    by simp
  from e(3) have x: "extends s ?s'" by simp
  show "\<forall>tid \<in> set (frameCallbacks ?s').
              t_propertyName (store ?s' ! tid) = p \<longrightarrow> length (store s) \<le> tid"
  proof (intro ballI impI, rule ccontr)
    fix tid assume t: "tid \<in> set (frameCallbacks ?s')"
      and pp: "t_propertyName (store ?s' ! tid) = p" and n: "\<not> length (store s) \<le> tid"
    from n have lt: "tid < length (store s)" by simp
    with x t have t0: "tid \<in> set (frameCallbacks s)" unfolding extends_def by auto
    from x lt have "entryStatic (store ?s' ! tid) = entryStatic (store s ! tid)"
      unfolding extends_def by simp
    with pp have "t_propertyName (store s ! tid) = p" by (simp add: entryStatic_def)
    with m t0 t show False by blast
  qed
qed

lemma ex_fresh_none: "localsFresh example_locals_none example_transitioning"
  by (simp add: localsFresh_def example_locals_none_def example_transitioning_def
      example_element_def new_element_def)

lemma ex_registered:
  "frameCallbacks example_transitioning = [0, 1]"
  "length (store example_transitioning) = 2"
  "t_propertyName (store example_transitioning ! 0) = ''value''"
  "t_propertyName (store example_transitioning ! Suc 0) = ''value''"
  by (simp_all add: example_transitioning_def example_element_def new_element_def
      example_entry_def)

text \<open>
  C2 on the example element: the transition that starts it keeps the invariant, and a
  later transition to \<open>none\<close>, started while transitions 0 and 1 are registered for
  \<open>value\<close>, leaves only the new transition 2 registered.
\<close>

theorem C2_one_transition_per_pair_witness:
  "elementInvariant example_element
   \<and> BaseElement_transition example_kind (textProperties ''world'') NoOptions example_element
      = Inr (Some example_locals, example_element\<lparr>nextObject := 2\<rparr>)
   \<and> onePerPair (snd (BaseElement_transition_resume example_kind example_locals
                        (example_element\<lparr>nextObject := 2\<rparr>)))
   \<and> frameCallbacks example_transitioning = [0, 1]
   \<and> t_propertyName (store example_transitioning ! 0) = ''value''
   \<and> t_propertyName (store example_transitioning ! 1) = ''value''
   \<and> frameCallbacks (snd (transitionProperty example_kind example_locals_none
                             example_plan_none ''value'' example_transitioning)) = [2]
   \<and> 0 \<notin> set (frameCallbacks (snd (transitionProperty example_kind example_locals_none
                             example_plan_none ''value'' example_transitioning)))
   \<and> 1 \<notin> set (frameCallbacks (snd (transitionProperty example_kind example_locals_none
                             example_plan_none ''value'' example_transitioning)))
   \<and> onePerPair (snd (transitionProperty example_kind example_locals_none
                             example_plan_none ''value'' example_transitioning))"
proof -
  let ?s1 = "example_element\<lparr>nextObject := 2\<rparr>"
  let ?r = "transitionProperty example_kind example_locals_none example_plan_none ''value''
              example_transitioning"
  have i0: "elementInvariant example_element"
    by (simp add: elementInvariant_def wellFormed_def registriesAgree_def keysAgree_def
        registeredRunning_def onePerPair_def objectKnown_def example_element_def new_element_def)
  note b = ex_begin
  from C2_one_transition_per_pair [of example_element _ _ _ example_kind
      "textProperties ''world''" NoOptions] i0 b
  have p1: "elementInvariant ?s1 \<and> localsFresh example_locals ?s1" by simp
  from C2_one_transition_per_pair [of ?s1 _ _ example_locals example_kind] p1
  have "elementInvariant (snd (BaseElement_transition_resume example_kind example_locals ?s1))"
    by simp
  from C2_one_transition_per_pair [of "snd (BaseElement_transition_resume example_kind
      example_locals ?s1)"] this
  have p2: "onePerPair (snd (BaseElement_transition_resume example_kind example_locals ?s1))"
    by simp
  from ex_invariant have wt: "wellFormed example_transitioning"
    and ot: "onePerPair example_transitioning" by (simp_all add: elementInvariant_def)
  note x = ex_replace [OF refl]
  from x have g: "length (store example_transitioning) < length (store (snd ?r))"
    by (simp add: ex_registered)
  from C2_one_transition_per_pair [of example_transitioning _ _ example_locals_none example_kind
      _ _ example_plan_none "''value''"] wt ot ex_fresh_none g
  have m: "onePerPair (snd ?r)
        \<and> (\<forall>tid \<in> set (frameCallbacks example_transitioning).
              t_propertyName (store example_transitioning ! tid) = ''value'' \<longrightarrow>
              tid \<notin> set (frameCallbacks (snd ?r)))"
    by simp
  then have "0 \<notin> set (frameCallbacks (snd ?r))" "1 \<notin> set (frameCallbacks (snd ?r))"
    by (simp_all add: ex_registered)
  with i0 b p2 m x show ?thesis by (simp add: ex_registered)
qed

subsection \<open>The end callback of a transition\<close>

lemma run_append: "run (ts @ rest) s = run rest (run ts s)"
proof (induction ts s rule: run.induct)
  case (1 s)
  show ?case by simp
next
  case (2 object ts s)
  then show ?case by simp
next
  case (3 tid ts s)
  obtain ts' s' where c: "cancelStep tid s = (ts', s')" by (cases "cancelStep tid s")
  from 3 [OF refl c [symmetric]] show ?case by (simp add: c)
next
  case (4 tid time ts s)
  obtain ts' s' where c: "frameStep tid time s = (ts', s')" by (cases "frameStep tid time s")
  from 4 [OF refl c [symmetric]] show ?case by (simp add: c)
qed

lemma applyMethod_tasks:
  assumes e: "endsLast ns"
  shows "fst (applyMethod tid (ns, t') s) =
     (if OnEnd \<in> fst ` set ns \<and> destroysOnEnd (store s ! tid)
      then map Cancel (multimap_get (objectTransitions (snd (applyMethod tid (ns, t') s)))
                         (t_object (store s ! tid)))
           @ [Finish (t_object (store s ! tid))]
      else [])"
proof -
  from applyMethod_cases [OF e, of tid t' s] obtain s1 where
    sr: "sameRegistry (putTransition tid t' s) s1"
    and c: "(OnEnd \<notin> fst ` set ns \<and> applyMethod tid (ns, t') s = ([], s1))
          \<or> (OnEnd \<in> fst ` set ns \<and> applyMethod tid (ns, t') s = onEndCallback tid s1)"
    by blast
  have st: "store s1 = store (putTransition tid t' s)" by (rule sameRegistry_fields(1) [OF sr])
  have k: "t_object (store s1 ! tid) = t_object (store s ! tid)"
    "destroysOnEnd (store s1 ! tid) = destroysOnEnd (store s ! tid)"
    unfolding st by (simp_all add: destroysOnEnd_def putTransition_keys)
  show ?thesis
  proof (rule disjE [OF c])
    assume "OnEnd \<notin> fst ` set ns \<and> applyMethod tid (ns, t') s = ([], s1)"
    then show ?thesis by simp
  next
    assume a: "OnEnd \<in> fst ` set ns \<and> applyMethod tid (ns, t') s = onEndCallback tid s1"
    then have "fst (applyMethod tid (ns, t') s) = fst (onEndCallback tid s1)"
      and "snd (applyMethod tid (ns, t') s) = snd (onEndCallback tid s1)" by simp_all
    with a k onEndCallback_tasks [of tid s1] show ?thesis
      by (simp add: destroysOnEnd_def)
  qed
qed

lemma cancelStep_tasks:
  "fst (cancelStep tid s) =
     (if tid < length (store s) \<and> isRunning (t_transition (store s ! tid))
         \<and> destroysOnEnd (store s ! tid)
      then map Cancel (multimap_get (objectTransitions (snd (cancelStep tid s)))
                         (t_object (store s ! tid)))
           @ [Finish (t_object (store s ! tid))]
      else [])"
proof (cases "tid < length (store s)")
  case False
  then show ?thesis by (simp add: cancelStep_def)
next
  case True
  let ?c = "cancel True (t_transition (store s ! tid))"
  have c: "cancelStep tid s = applyMethod tid (fst ?c, snd ?c) s"
    using cancelStep_applyMethod [OF True] by simp
  have e: "endsLast (fst ?c)" using cancel_outcome by blast
  have o: "OnEnd \<in> fst ` set (fst ?c) \<longleftrightarrow> isRunning (t_transition (store s ! tid))"
    by (cases "isRunning (t_transition (store s ! tid))")
      (simp_all add: cancel_running cancel_not_running)
  from applyMethod_tasks [OF e, of tid "snd ?c" s] True show ?thesis
    unfolding c o by simp
qed

lemma frameStep_tasks:
  assumes "tid < length (store s)" and "tid \<in> set (frameCallbacks s)"
  shows "fst (frameStep tid time s) =
     (if OnEnd \<in> fst ` set (fst (update time (t_transition (store s ! tid))))
         \<and> destroysOnEnd (store s ! tid)
      then map Cancel (multimap_get (objectTransitions (snd (frameStep tid time s)))
                         (t_object (store s ! tid)))
           @ [Finish (t_object (store s ! tid))]
      else [])"
proof -
  let ?c = "update time (t_transition (store s ! tid))"
  have c: "frameStep tid time s = applyMethod tid (fst ?c, snd ?c) s"
    using frameStep_applyMethod [OF assms] by simp
  have e: "endsLast (fst ?c)" using update_outcome by blast
  from applyMethod_tasks [OF e, of tid "snd ?c" s] show ?thesis
    unfolding c by simp
qed

lemma cancelStep_ended:
  assumes w: "wellFormed s" and l: "tid < length (store s)"
  shows "\<not> isRunning (t_transition (store (snd (cancelStep tid s)) ! tid))"
proof -
  let ?t = "t_transition (store s ! tid)"
  let ?c = "cancel True ?t"
  note o = cancel_outcome [of ?t]
  have c: "cancelStep tid s = applyMethod tid (fst ?c, snd ?c) s"
    using cancelStep_applyMethod [OF l] by simp
  have reg: "tid \<in> set (frameCallbacks s) \<Longrightarrow> isRunning ?t"
    using w by (simp add: wellFormed_def registeredRunning_def)
  have q: "OnEnd \<notin> fst ` set (fst ?c) \<longrightarrow> tid \<in> set (frameCallbacks s) \<longrightarrow> isRunning (snd ?c)"
    using o reg by auto
  have e: "endsLast (fst ?c)" and st: "delay (snd ?c) = delay ?t"
    "duration (snd ?c) = duration ?t" "endValue (snd ?c) = endValue ?t"
    using o by simp_all
  note a = applyMethod_step(7) [OF wellFormed_Except [OF w, of tid] e q st l]
  have "\<not> isRunning (snd ?c)"
    by (cases "isRunning ?t") (simp_all add: cancel_running cancel_not_running isRunning_def)
  with a show ?thesis unfolding c by simp
qed

lemma run_cancelled:
  "wellFormed s \<Longrightarrow> Cancel tid \<in> set ts \<Longrightarrow> tid < length (store s) \<Longrightarrow>
   \<not> isRunning (t_transition (store (run ts s) ! tid))"
proof (induction ts s rule: run.induct)
  case (1 s)
  then show ?case by simp
next
  case (2 object ts s)
  let ?s1 = "destroyObject object (detachObject object s)"
  have w1: "wellFormed ?s1" using 2(2) by (simp add: finish_keeps)
  have l1: "tid < length (store ?s1)" using 2(4) by (simp add: destroyObject_def detachObject_def)
  from 2(3) have "Cancel tid \<in> set ts" by simp
  from 2(1) [OF w1 this l1] show ?case by simp
next
  case (3 tid' ts s)
  obtain ts' s' where c: "cancelStep tid' s = (ts', s')" by (cases "cancelStep tid' s")
  note k = cancelStep_keeps [OF 3(2), of tid', unfolded c, simplified]
  have r: "run (Cancel tid' # ts) s = run (ts' @ ts) s'" by (simp add: c)
  from k(2) have l': "tid < length (store s')" using 3(4) by (simp add: stepKeeps_def)
  show ?case
  proof (cases "Cancel tid \<in> set ts")
    case True
    then have "Cancel tid \<in> set (ts' @ ts)" by simp
    from 3(1) [OF refl c [symmetric] k(1) this l'] show ?thesis unfolding r .
  next
    case False
    with 3(3) have t: "tid' = tid" by simp
    from 3(4) have "tid' < length (store s)" by (simp add: t)
    from cancelStep_ended [OF 3(2) this]
    have "\<not> isRunning (t_transition (store s' ! tid'))" by (simp add: c)
    then have n: "\<not> isRunning (t_transition (store s' ! tid))" by (simp add: t)
    from run_keeps [OF k(1), of "ts' @ ts"] have "stepKeeps s' (run (ts' @ ts) s')" by simp
    with n show ?thesis unfolding r stepKeeps_def by blast
  qed
next
  case (4 tid' time ts s)
  obtain ts' s' where c: "frameStep tid' time s = (ts', s')" by (cases "frameStep tid' time s")
  note k = frameStep_keeps [OF 4(2), of tid' time, unfolded c, simplified]
  have r: "run (Frame tid' time # ts) s = run (ts' @ ts) s'" by (simp add: c)
  from k(2) have l': "tid < length (store s')" using 4(4) by (simp add: stepKeeps_def)
  from 4(3) have "Cancel tid \<in> set (ts' @ ts)" by simp
  from 4(1) [OF refl c [symmetric] k(1) this l'] show ?case unfolding r .
qed

lemma destroysOnEnd_static:
  "entryStatic e' = entryStatic e \<Longrightarrow> destroysOnEnd e' = destroysOnEnd e"
  by (simp add: entryStatic_def destroysOnEnd_def)

text \<open>Cancelling transitions none of which destroys its object on its end.\<close>

lemma quiet_cancels:
  "wellFormed s \<Longrightarrow> \<forall>t \<in> set tids. \<not> destroysOnEnd (store s ! t) \<Longrightarrow>
   events (run (map Cancel tids) s) = events s"
proof (induction tids arbitrary: s)
  case Nil
  show ?case by simp
next
  case (Cons t tids)
  obtain ts' s' where c: "cancelStep t s = (ts', s')" by (cases "cancelStep t s")
  note k = cancelStep_keeps [OF Cons(2), of t, unfolded c, simplified]
  from Cons(3) have "\<not> destroysOnEnd (store s ! t)" by simp
  with cancelStep_tasks [of t s] have e: "ts' = []" by (simp add: c)
  from k(2) have "\<forall>i. entryStatic (store s' ! i) = entryStatic (store s ! i)"
    by (simp add: stepKeeps_def)
  then have "\<forall>i. destroysOnEnd (store s' ! i) = destroysOnEnd (store s ! i)"
    using destroysOnEnd_static by blast
  with Cons(3) have q: "\<forall>t \<in> set tids. \<not> destroysOnEnd (store s' ! t)" by simp
  from Cons(1) [OF k(1) q] k(4) show ?case by (simp add: c e)
qed

lemma update_ended:
  "OnEnd \<in> fst ` set (fst (update time t)) \<Longrightarrow> \<not> isRunning (snd (update time t))"
  by (cases "isRunning t")
    (auto simp: update_def updateCurrentValue_def notifyCallbacks_def isRunning_def Let_def
      split: if_splits option.splits)

lemma applyMethod_registry:
  assumes e: "endsLast ns" and en: "OnEnd \<in> fst ` set ns"
  shows "objectTransitions (snd (applyMethod tid (ns, t') s))
       = multimap_remove (objectTransitions s) (t_object (store s ! tid)) tid"
proof -
  from applyMethod_cases [OF e, of tid t' s] en obtain s1 where
    sr: "sameRegistry (putTransition tid t' s) s1"
    and c: "applyMethod tid (ns, t') s = onEndCallback tid s1"
    by blast
  note f = sameRegistry_fields [OF sr]
  have "t_object (store s1 ! tid) = t_object (store s ! tid)"
    unfolding f(1) by (simp add: putTransition_keys)
  moreover have "objectTransitions s1 = objectTransitions s"
    unfolding f(2) by (simp add: putTransition_fields)
  ultimately show ?thesis unfolding c by (simp add: onEndCallback_state)
qed

text \<open>
  The calls that the end callback of a transition of \<open>value\<close> to 0 makes: \<open>s1\<close> is the
  element when the callback has removed the transition from the registries. The
  transition itself need not be running before the method call that ends it: it is not
  when the method is \<open>start()\<close>.
\<close>

lemma ends_to_zero:
  assumes w: "wellFormedExcept tid s" and o: "onePerPair s"
    and reg: "tid \<in> set (frameCallbacks s)"
    and d: "destroysOnEnd (store s ! tid)"
    and w1: "wellFormed s1" and k: "stepKeeps s s1" and ev: "events s1 = events s"
    and n: "tid \<notin> set (frameCallbacks s1)"
    and ot: "objectTransitions s1
             = multimap_remove (objectTransitions s) (t_object (store s ! tid)) tid"
    and nr: "\<not> isRunning (t_transition (store s1 ! tid))"
    and ob: "obj = t_object (store s ! tid)"
    and s3: "s3 = run (map Cancel (multimap_get (objectTransitions s1) obj) @ [Finish obj]) s1"
  shows "s3 = destroyObject obj (detachObject obj
                (run (map Cancel (multimap_get (objectTransitions s1) obj)) s1))"
    and "events s3 = events s @ [Detach obj, Destroy obj]"
    and "\<forall>t \<in> set (frameCallbacks s). t_object (store s ! t) = obj \<longrightarrow>
           t \<notin> set (frameCallbacks s3) \<and> \<not> isRunning (t_transition (store s3 ! t))"
proof -
  let ?others = "multimap_get (objectTransitions s1) obj"
  let ?s2 = "run (map Cancel ?others) s1"
  show eq: "s3 = destroyObject obj (detachObject obj ?s2)"
    unfolding s3 by (simp add: run_append)
  from w have ra: "registriesAgree s" and ka: "keysAgree s"
    and rr: "\<And>t. t \<in> set (frameCallbacks s) \<Longrightarrow> t < length (store s)"
    by (simp_all add: wellFormedExcept_def)
  from w1 have ra1: "registriesAgree s1" by (simp add: wellFormed_def)
  have es: "\<And>i. entryStatic (store s1 ! i) = entryStatic (store s ! i)"
    using k by (simp add: stepKeeps_def)
  \<comment> \<open>the other transitions of the object are not transitions of \<open>value\<close>\<close>
  have quiet: "\<forall>t \<in> set ?others. \<not> destroysOnEnd (store s1 ! t)"
  proof
    fix t assume "t \<in> set ?others"
    then have m1: "(obj, t) \<in> set (objectTransitions s1)" by (simp add: multimap_get_set)
    with k have m: "(obj, t) \<in> set (objectTransitions s)" unfolding stepKeeps_def by blast
    from m1 ra1 have r1: "t \<in> set (frameCallbacks s1)" unfolding registriesAgree_def by force
    with n have ne: "t \<noteq> tid" by blast
    from r1 k have r: "t \<in> set (frameCallbacks s)" unfolding stepKeeps_def by blast
    from m ka have "t_object (store s ! t) = obj" unfolding keysAgree_def by force
    with o r reg ne ob have "t_propertyName (store s ! t) \<noteq> t_propertyName (store s ! tid)"
      unfolding onePerPair_def by metis
    with d have "\<not> destroysOnEnd (store s ! t)" by (simp add: destroysOnEnd_def)
    with es [of t] show "\<not> destroysOnEnd (store s1 ! t)"
      using destroysOnEnd_static by blast
  qed
  from quiet_cancels [OF w1 quiet] ev have e2: "events ?s2 = events s" by simp
  then show "events s3 = events s @ [Detach obj, Destroy obj]"
    unfolding eq by (simp add: destroyObject_def detachObject_def)
  note k2 = run_keeps [OF w1, of "map Cancel ?others"]
  have f3: "frameCallbacks s3 = frameCallbacks ?s2" "store s3 = store ?s2"
    unfolding eq by (simp_all add: destroyObject_def detachObject_def)
  show "\<forall>t \<in> set (frameCallbacks s). t_object (store s ! t) = obj \<longrightarrow>
           t \<notin> set (frameCallbacks s3) \<and> \<not> isRunning (t_transition (store s3 ! t))"
  proof (intro ballI impI)
    fix t assume r: "t \<in> set (frameCallbacks s)" and to: "t_object (store s ! t) = obj"
    show "t \<notin> set (frameCallbacks s3) \<and> \<not> isRunning (t_transition (store s3 ! t))"
    proof (cases "t = tid")
      case True
      from k2 have sk: "stepKeeps s1 ?s2" by simp
      with n have "tid \<notin> set (frameCallbacks ?s2)" unfolding stepKeeps_def by blast
      moreover from sk nr have "\<not> isRunning (t_transition (store ?s2 ! tid))"
        unfolding stepKeeps_def by blast
      ultimately show ?thesis unfolding f3 True by simp
    next
      case False
      from r ra obtain x where x: "(x, t) \<in> set (objectTransitions s)"
        unfolding registriesAgree_def by force
      with ka to have "x = obj" unfolding keysAgree_def by force
      with x False have "(obj, t) \<in> set (objectTransitions s1)"
        unfolding ot multimap_remove_def by simp
      then have "t \<in> set ?others" by (simp add: multimap_get_set)
      then have c: "Cancel t \<in> set (map Cancel ?others)" by simp
      from r rr have "t < length (store s)" by simp
      with k have l: "t < length (store s1)" by (simp add: stepKeeps_def)
      from k2 c have "t \<notin> set (frameCallbacks ?s2)" by blast
      moreover from run_cancelled [OF w1 c l]
      have "\<not> isRunning (t_transition (store ?s2 ! t))" .
      ultimately show ?thesis unfolding f3 by simp
    qed
  qed
qed

lemma cancelStep_end:
  assumes w: "wellFormed s" and reg: "tid \<in> set (frameCallbacks s)"
  shows "objectTransitions (snd (cancelStep tid s))
       = multimap_remove (objectTransitions s) (t_object (store s ! tid)) tid"
proof -
  let ?t = "t_transition (store s ! tid)"
  let ?c = "cancel True ?t"
  from w reg have l: "tid < length (store s)" and r: "isRunning ?t"
    by (simp_all add: wellFormed_def registeredRunning_def)
  have c: "cancelStep tid s = applyMethod tid (fst ?c, snd ?c) s"
    using cancelStep_applyMethod [OF l] by simp
  have e: "endsLast (fst ?c)" using cancel_outcome by blast
  have en: "OnEnd \<in> fst ` set (fst ?c)" using r by (simp add: cancel_running)
  from applyMethod_registry [OF e en, of tid "snd ?c" s] show ?thesis unfolding c .
qed

lemma frameStep_end:
  assumes w: "wellFormed s" and reg: "tid \<in> set (frameCallbacks s)"
    and en: "OnEnd \<in> fst ` set (fst (update time (t_transition (store s ! tid))))"
  shows "objectTransitions (snd (frameStep tid time s))
       = multimap_remove (objectTransitions s) (t_object (store s ! tid)) tid"
    and "tid \<notin> set (frameCallbacks (snd (frameStep tid time s)))"
    and "\<not> isRunning (t_transition (store (snd (frameStep tid time s)) ! tid))"
proof -
  let ?t = "t_transition (store s ! tid)"
  let ?c = "update time ?t"
  from w reg have l: "tid < length (store s)" and run: "isRunning ?t"
    by (simp_all add: wellFormed_def registeredRunning_def)
  note o = update_outcome [of time ?t]
  have c: "frameStep tid time s = applyMethod tid (fst ?c, snd ?c) s"
    using frameStep_applyMethod [OF l reg] by simp
  have q: "OnEnd \<notin> fst ` set (fst ?c) \<longrightarrow> tid \<in> set (frameCallbacks s) \<longrightarrow> isRunning (snd ?c)"
    using o run by simp
  have e: "endsLast (fst ?c)" and st: "delay (snd ?c) = delay ?t"
    "duration (snd ?c) = duration ?t" "endValue (snd ?c) = endValue ?t"
    using o by simp_all
  note a = applyMethod_step [OF wellFormed_Except [OF w, of tid] e q st l]
  from applyMethod_registry [OF e en, of tid "snd ?c" s]
  show "objectTransitions (snd (frameStep tid time s))
       = multimap_remove (objectTransitions s) (t_object (store s ! tid)) tid"
    unfolding c .
  from a(3) en show "tid \<notin> set (frameCallbacks (snd (frameStep tid time s)))"
    unfolding c by simp
  from a(7) update_ended [OF en]
  show "\<not> isRunning (t_transition (store (snd (frameStep tid time s)) ! tid))"
    unfolding c by simp
qed

lemma run_Cancel: "run [Cancel tid] s = run (fst (cancelStep tid s)) (snd (cancelStep tid s))"
  by (simp add: split_def Let_def)

lemma run_Frame:
  "run [Frame tid time] s = run (fst (frameStep tid time s)) (snd (frameStep tid time s))"
  by (simp add: split_def Let_def)

text \<open>
  A registered transition that ends by \<open>cancel()\<close> or by a frame of the clock that
  completes it.
\<close>

lemma end_by_call:
  "wellFormed s \<and> onePerPair s \<and> tid \<in> set (frameCallbacks s)
   \<and> obj = t_object (store s ! tid)
   \<longrightarrow>
     (destroysOnEnd (store s ! tid) \<longrightarrow>
        run [Cancel tid] s
          = destroyObject obj (detachObject obj
              (run (map Cancel (multimap_get (objectTransitions (snd (cancelStep tid s))) obj))
                 (snd (cancelStep tid s))))
      \<and> events (run [Cancel tid] s) = events s @ [Detach obj, Destroy obj]
      \<and> (\<forall>t \<in> set (frameCallbacks s). t_object (store s ! t) = obj \<longrightarrow>
            t \<notin> set (frameCallbacks (run [Cancel tid] s))
          \<and> \<not> isRunning (t_transition (store (run [Cancel tid] s) ! t))))
   \<and> (destroysOnEnd (store s ! tid)
      \<and> OnEnd \<in> fst ` set (fst (update time (t_transition (store s ! tid)))) \<longrightarrow>
        run [Frame tid time] s
          = destroyObject obj (detachObject obj
              (run (map Cancel (multimap_get (objectTransitions (snd (frameStep tid time s))) obj))
                 (snd (frameStep tid time s))))
      \<and> events (run [Frame tid time] s) = events s @ [Detach obj, Destroy obj]
      \<and> (\<forall>t \<in> set (frameCallbacks s). t_object (store s ! t) = obj \<longrightarrow>
            t \<notin> set (frameCallbacks (run [Frame tid time] s))
          \<and> \<not> isRunning (t_transition (store (run [Frame tid time] s) ! t))))
   \<and> (\<not> destroysOnEnd (store s ! tid) \<longrightarrow>
        events (run [Cancel tid] s) = events s \<and> events (run [Frame tid time] s) = events s)
   \<and> (OnEnd \<notin> fst ` set (fst (update time (t_transition (store s ! tid)))) \<longrightarrow>
        events (run [Frame tid time] s) = events s)"
proof (intro impI, elim conjE)
  assume w: "wellFormed s" and o: "onePerPair s" and reg: "tid \<in> set (frameCallbacks s)"
    and ob: "obj = t_object (store s ! tid)"
  let ?t = "t_transition (store s ! tid)"
  from w reg have l: "tid < length (store s)" and r: "isRunning ?t"
    by (simp_all add: wellFormed_def registeredRunning_def)
  note kc = cancelStep_keeps [OF w, of tid]
  note kf = frameStep_keeps [OF w, of tid time]
  note tc = cancelStep_tasks [of tid s]
  note tf = frameStep_tasks [OF l reg, of time]
  have cancel_case: "destroysOnEnd (store s ! tid) \<longrightarrow>
        run [Cancel tid] s
          = destroyObject obj (detachObject obj
              (run (map Cancel (multimap_get (objectTransitions (snd (cancelStep tid s))) obj))
                 (snd (cancelStep tid s))))
      \<and> events (run [Cancel tid] s) = events s @ [Detach obj, Destroy obj]
      \<and> (\<forall>t \<in> set (frameCallbacks s). t_object (store s ! t) = obj \<longrightarrow>
            t \<notin> set (frameCallbacks (run [Cancel tid] s))
          \<and> \<not> isRunning (t_transition (store (run [Cancel tid] s) ! t)))"
  proof
    assume d: "destroysOnEnd (store s ! tid)"
    have s3: "run [Cancel tid] s
        = run (map Cancel (multimap_get (objectTransitions (snd (cancelStep tid s))) obj)
               @ [Finish obj]) (snd (cancelStep tid s))"
      unfolding run_Cancel using tc l r d ob by simp
    note z = ends_to_zero [OF wellFormed_Except [OF w] o reg d kc(1) kc(2) kc(4) kc(3) cancelStep_end [OF w reg]
        cancelStep_ended [OF w l] ob s3]
    from z(1) z(2) z(3) show "run [Cancel tid] s
          = destroyObject obj (detachObject obj
              (run (map Cancel (multimap_get (objectTransitions (snd (cancelStep tid s))) obj))
                 (snd (cancelStep tid s))))
      \<and> events (run [Cancel tid] s) = events s @ [Detach obj, Destroy obj]
      \<and> (\<forall>t \<in> set (frameCallbacks s). t_object (store s ! t) = obj \<longrightarrow>
            t \<notin> set (frameCallbacks (run [Cancel tid] s))
          \<and> \<not> isRunning (t_transition (store (run [Cancel tid] s) ! t)))"
      by (intro conjI)
  qed
  have frame_case: "destroysOnEnd (store s ! tid)
      \<and> OnEnd \<in> fst ` set (fst (update time ?t)) \<longrightarrow>
        run [Frame tid time] s
          = destroyObject obj (detachObject obj
              (run (map Cancel (multimap_get (objectTransitions (snd (frameStep tid time s))) obj))
                 (snd (frameStep tid time s))))
      \<and> events (run [Frame tid time] s) = events s @ [Detach obj, Destroy obj]
      \<and> (\<forall>t \<in> set (frameCallbacks s). t_object (store s ! t) = obj \<longrightarrow>
            t \<notin> set (frameCallbacks (run [Frame tid time] s))
          \<and> \<not> isRunning (t_transition (store (run [Frame tid time] s) ! t)))"
  proof (intro impI, elim conjE)
    assume d: "destroysOnEnd (store s ! tid)"
      and en: "OnEnd \<in> fst ` set (fst (update time ?t))"
    have s3: "run [Frame tid time] s
        = run (map Cancel (multimap_get (objectTransitions (snd (frameStep tid time s))) obj)
               @ [Finish obj]) (snd (frameStep tid time s))"
      unfolding run_Frame using tf en d ob by simp
    note fe = frameStep_end [OF w reg en]
    note z = ends_to_zero [OF wellFormed_Except [OF w] o reg d kf(1) kf(2) kf(3) fe(2) fe(1) fe(3) ob s3]
    from z(1) z(2) z(3) show "run [Frame tid time] s
          = destroyObject obj (detachObject obj
              (run (map Cancel (multimap_get (objectTransitions (snd (frameStep tid time s))) obj))
                 (snd (frameStep tid time s))))
      \<and> events (run [Frame tid time] s) = events s @ [Detach obj, Destroy obj]
      \<and> (\<forall>t \<in> set (frameCallbacks s). t_object (store s ! t) = obj \<longrightarrow>
            t \<notin> set (frameCallbacks (run [Frame tid time] s))
          \<and> \<not> isRunning (t_transition (store (run [Frame tid time] s) ! t)))"
      by (intro conjI)
  qed
  have quiet: "\<not> destroysOnEnd (store s ! tid) \<longrightarrow>
        events (run [Cancel tid] s) = events s \<and> events (run [Frame tid time] s) = events s"
  proof
    assume d: "\<not> destroysOnEnd (store s ! tid)"
    from tc d have "fst (cancelStep tid s) = []" by simp
    then have a: "events (run [Cancel tid] s) = events s"
      unfolding run_Cancel using kc(4) by simp
    from tf d have "fst (frameStep tid time s) = []" by simp
    then have "events (run [Frame tid time] s) = events s"
      unfolding run_Frame using kf(3) by simp
    with a show "events (run [Cancel tid] s) = events s
        \<and> events (run [Frame tid time] s) = events s" by simp
  qed
  have unfinished: "OnEnd \<notin> fst ` set (fst (update time ?t)) \<longrightarrow>
        events (run [Frame tid time] s) = events s"
  proof
    assume "OnEnd \<notin> fst ` set (fst (update time ?t))"
    with tf have "fst (frameStep tid time s) = []" by simp
    then show "events (run [Frame tid time] s) = events s"
      unfolding run_Frame using kf(3) by simp
  qed
  from cancel_case frame_case quiet unfinished
  show "(destroysOnEnd (store s ! tid) \<longrightarrow>
        run [Cancel tid] s
          = destroyObject obj (detachObject obj
              (run (map Cancel (multimap_get (objectTransitions (snd (cancelStep tid s))) obj))
                 (snd (cancelStep tid s))))
      \<and> events (run [Cancel tid] s) = events s @ [Detach obj, Destroy obj]
      \<and> (\<forall>t \<in> set (frameCallbacks s). t_object (store s ! t) = obj \<longrightarrow>
            t \<notin> set (frameCallbacks (run [Cancel tid] s))
          \<and> \<not> isRunning (t_transition (store (run [Cancel tid] s) ! t))))
   \<and> (destroysOnEnd (store s ! tid)
      \<and> OnEnd \<in> fst ` set (fst (update time (t_transition (store s ! tid)))) \<longrightarrow>
        run [Frame tid time] s
          = destroyObject obj (detachObject obj
              (run (map Cancel (multimap_get (objectTransitions (snd (frameStep tid time s))) obj))
                 (snd (frameStep tid time s))))
      \<and> events (run [Frame tid time] s) = events s @ [Detach obj, Destroy obj]
      \<and> (\<forall>t \<in> set (frameCallbacks s). t_object (store s ! t) = obj \<longrightarrow>
            t \<notin> set (frameCallbacks (run [Frame tid time] s))
          \<and> \<not> isRunning (t_transition (store (run [Frame tid time] s) ! t))))
   \<and> (\<not> destroysOnEnd (store s ! tid) \<longrightarrow>
        events (run [Cancel tid] s) = events s \<and> events (run [Frame tid time] s) = events s)
   \<and> (OnEnd \<notin> fst ` set (fst (update time (t_transition (store s ! tid)))) \<longrightarrow>
        events (run [Frame tid time] s) = events s)"
    by (intro conjI)
qed

lemma ex_leaving:
  "frameCallbacks example_leaving = [0, 1]"
  "events example_leaving = [Attach 0]"
  "t_object (store example_leaving ! 0) = 0"
  "t_object (store example_leaving ! Suc 0) = 0"
  "destroysOnEnd (store example_leaving ! 0)"
  "\<not> destroysOnEnd (store example_leaving ! Suc 0)"
  by (simp_all add: example_leaving_def example_element_def new_element_def example_entry_def
      destroysOnEnd_def)

lemma ex_leaving_invariant: "wellFormed example_leaving \<and> onePerPair example_leaving"
  by (simp add: wellFormed_def registriesAgree_def keysAgree_def
      registeredRunning_def onePerPair_def example_leaving_def
      example_element_def new_element_def example_entry_def isRunning_def
      setEasing_def setDelay_def new_NumberTransition_def new_Transition_def)

text \<open>The example after a first frame of the clock at time 0.\<close>

lemma ex_leaving_frame:
  assumes "nextFrame 0 example_leaving = s'"
  shows "frameCallbacks s' = [0, 1] \<and> events s' = [Attach 0]
   \<and> objectTransitions s' = [(0, 0), (0, 1)]
   \<and> propertyTransitions s' = [(''value'', 0), (''offsetX'', 1)]
   \<and> store s' = [(example_entry 0 1 0 0 50)
                     \<lparr>t_transition := (t_transition (example_entry 0 1 0 0 50))
                        \<lparr>lastUpdateTime := Some 0\<rparr>\<rparr>,
                  (example_entry 0 0 8 0 50)
                     \<lparr>t_transition := (t_transition (example_entry 0 0 8 0 50))
                        \<lparr>lastUpdateTime := Some 0\<rparr>,
                      t_propertyName := ''offsetX''\<rparr>]"
  unfolding assms [symmetric]
  by (simp add: nextFrame_def example_leaving_def example_element_def new_element_def
      example_entry_def frameStep_def update_def updateCurrentValue_def fraction_def
      isRunning_def notifyCallbacks_def putTransition_def LinearEasing_def
      onUpdateCallback_def onEndCallback_def setPropertyValue_def multimap_remove_def
      multimap_get_def removeFrameCallback_def detachObject_def destroyObject_def
      setEasing_def setDelay_def new_NumberTransition_def new_Transition_def Let_def)

subsection \<open>A transition that ends in \<open>start()\<close>\<close>

lemma start_fresh_end:
  assumes "\<not> isStarted t" "\<not> isPaused t" "\<not> isEnded t" and "start t = Inr (ns, t')"
  shows "OnEnd \<in> fst ` set ns \<longleftrightarrow> fraction t = 1"
    and "OnEnd \<in> fst ` set ns \<longrightarrow> \<not> isRunning t'"
proof -
  have f: "fraction (t\<lparr>isStarted := True\<rparr>) = fraction t" by (simp add: fraction_def)
  from assms have "ns = [(OnStart, currentValue t)] @ fst (updateCurrentValue (t\<lparr>isStarted := True\<rparr>))"
    and t': "t' = snd (updateCurrentValue (t\<lparr>isStarted := True\<rparr>))"
    by (simp_all add: start_def Let_def notifyCallbacks_def split_def)
  then have ns: "OnEnd \<in> fst ` set ns
      \<longleftrightarrow> OnEnd \<in> fst ` set (fst (updateCurrentValue (t\<lparr>isStarted := True\<rparr>)))"
    by simp
  have u: "OnEnd \<in> fst ` set (fst (updateCurrentValue (t\<lparr>isStarted := True\<rparr>)))
      \<longleftrightarrow> fraction t = 1"
    using f by (simp add: updateCurrentValue_def Let_def notifyCallbacks_def)
  from ns u show "OnEnd \<in> fst ` set ns \<longleftrightarrow> fraction t = 1" by simp
  have "fraction t = 1 \<longrightarrow> isEnded t'"
    unfolding t' using f by (simp add: updateCurrentValue_def Let_def)
  with ns u show "OnEnd \<in> fst ` set ns \<longrightarrow> \<not> isRunning t'" by (simp add: isRunning_def)
qed

lemma transitionPropertyValue_end:
  fixes obj :: nat and p :: string and target dl du :: real and ea :: "real \<Rightarrow> real"
  assumes w: "wellFormed s" and o: "onePerPair s"
    and pre: "\<forall>t \<in> set (frameCallbacks s).
                t_object (store s ! t) = obj \<longrightarrow> t_propertyName (store s ! t) \<noteq> p"
  defines "r \<equiv> transitionPropertyValue obj p (Num target) dl du ea s"
  defines "t0 \<equiv> setEasing ea (setDelay dl
      (new_NumberTransition (numberProperties s obj p) target du))"
  shows "p = ''value'' \<and> target = 0 \<and> fraction t0 = 1 \<longrightarrow>
           events (snd r) = events s @ [Detach obj, Destroy obj]
         \<and> length (store s) \<notin> set (frameCallbacks (snd r))
         \<and> \<not> isRunning (t_transition (store (snd r) ! length (store s)))
         \<and> (\<forall>t \<in> set (frameCallbacks s). t_object (store s ! t) = obj \<longrightarrow>
               t \<notin> set (frameCallbacks (snd r))
             \<and> \<not> isRunning (t_transition (store (snd r) ! t)))"
    and "\<not> (p = ''value'' \<and> target = 0 \<and> fraction t0 = 1) \<longrightarrow> events (snd r) = events s"
proof -
  define tid where "tid = length (store s)"
  define e where "e = \<lparr> t_transition = t0, t_object = obj, t_propertyName = p,
      t_propertyValue = target \<rparr>"
  define s1 where "s1 = s\<lparr>store := store s @ [e],
                 objectTransitions := multimap_set (objectTransitions s) (t_object e) tid,
                 propertyTransitions := multimap_set (propertyTransitions s) (t_propertyName e) tid,
                 frameCallbacks := addFrameCallback tid (frameCallbacks s)\<rparr>"
  have fresh: "\<not> isStarted t0" "\<not> isPaused t0" "\<not> isEnded t0"
    by (simp_all add: t0_def setEasing_def setDelay_def new_NumberTransition_def new_Transition_def)
  from start_fresh_outcome [OF fresh] obtain ns t' where
    st: "start t0 = Inr (ns, t')" and el: "endsLast ns"
    and t'st: "delay t' = delay t0" "duration t' = duration t0" "endValue t' = endValue t0"
    and q: "OnEnd \<notin> fst ` set ns \<longrightarrow> isRunning t'"
    by blast
  note se = start_fresh_end [OF fresh st]
  define a where "a = applyMethod tid (ns, t') s1"
  have r: "r = (None, run (fst a) (snd a))"
    unfolding r_def transitionPropertyValue_def a_def applyMethod_def s1_def e_def tid_def
    using st [unfolded t0_def]
    by (simp add: Let_def split_def t0_def)
  have we: "wellFormedExcept tid s1"
    and f1: "set (frameCallbacks s1) = insert tid (set (frameCallbacks s))"
    using register_wellFormedExcept [OF w, of e] unfolding tid_def s1_def by simp_all
  have l1: "tid < length (store s1)" and n1: "store s1 ! tid = e"
    and ev1: "events s1 = events s"
    by (simp_all add: s1_def tid_def)
  have old1: "\<And>i. i < length (store s) \<Longrightarrow> store s1 ! i = store s ! i"
    by (simp add: s1_def nth_append)
  have lt: "\<And>t. t \<in> set (frameCallbacks s) \<Longrightarrow> t < length (store s)"
    using w by (simp add: wellFormed_def registeredRunning_def)
  have st1: "delay t' = delay (t_transition (store s1 ! tid))"
    "duration t' = duration (t_transition (store s1 ! tid))"
    "endValue t' = endValue (t_transition (store s1 ! tid))"
    using t'st by (simp_all add: n1 e_def)
  have q1: "OnEnd \<notin> fst ` set ns \<longrightarrow> tid \<in> set (frameCallbacks s1) \<longrightarrow> isRunning t'"
    using q by simp
  note m = applyMethod_step [OF we el q1 st1 l1, folded a_def]
  note tk = applyMethod_tasks [OF el, of tid t' s1, folded a_def]
  have d1: "destroysOnEnd (store s1 ! tid) \<longleftrightarrow> p = ''value'' \<and> target = 0"
    by (simp add: n1 e_def destroysOnEnd_def)
  have ob1: "t_object (store s1 ! tid) = obj" by (simp add: n1 e_def)
  show "\<not> (p = ''value'' \<and> target = 0 \<and> fraction t0 = 1) \<longrightarrow> events (snd r) = events s"
  proof
    assume "\<not> (p = ''value'' \<and> target = 0 \<and> fraction t0 = 1)"
    with tk d1 se(1) have "fst a = []" by auto
    with m(8) ev1 show "events (snd r) = events s" by (simp add: r)
  qed
  show "p = ''value'' \<and> target = 0 \<and> fraction t0 = 1 \<longrightarrow>
           events (snd r) = events s @ [Detach obj, Destroy obj]
         \<and> length (store s) \<notin> set (frameCallbacks (snd r))
         \<and> \<not> isRunning (t_transition (store (snd r) ! length (store s)))
         \<and> (\<forall>t \<in> set (frameCallbacks s). t_object (store s ! t) = obj \<longrightarrow>
               t \<notin> set (frameCallbacks (snd r))
             \<and> \<not> isRunning (t_transition (store (snd r) ! t)))"
  proof
    assume c: "p = ''value'' \<and> target = 0 \<and> fraction t0 = 1"
    with se have en: "OnEnd \<in> fst ` set ns" and nr': "\<not> isRunning t'" by simp_all
    from c d1 have d: "destroysOnEnd (store s1 ! tid)" by simp
    have o1: "onePerPair s1"
      unfolding onePerPair_def
    proof (intro ballI impI)
      fix x y
      assume x: "x \<in> set (frameCallbacks s1)" and y: "y \<in> set (frameCallbacks s1)"
        and eq: "t_object (store s1 ! x) = t_object (store s1 ! y)
          \<and> t_propertyName (store s1 ! x) = t_propertyName (store s1 ! y)"
      have new_old: "\<And>z. z \<in> set (frameCallbacks s) \<Longrightarrow>
          \<not> (t_object (store s1 ! tid) = t_object (store s1 ! z)
             \<and> t_propertyName (store s1 ! tid) = t_propertyName (store s1 ! z))"
      proof -
        fix z assume z: "z \<in> set (frameCallbacks s)"
        from lt [OF z] have "store s1 ! z = store s ! z" by (rule old1)
        with pre z show "\<not> (t_object (store s1 ! tid) = t_object (store s1 ! z)
             \<and> t_propertyName (store s1 ! tid) = t_propertyName (store s1 ! z))"
          by (auto simp: n1 e_def)
      qed
      show "x = y"
      proof (cases "x = tid")
        case True
        show ?thesis
        proof (cases "y = tid")
          case True
          with \<open>x = tid\<close> show ?thesis by simp
        next
          case False
          with y f1 have "y \<in> set (frameCallbacks s)" by simp
          from new_old [OF this] eq True show ?thesis by simp
        qed
      next
        case False
        with x f1 have x0: "x \<in> set (frameCallbacks s)" by simp
        show ?thesis
        proof (cases "y = tid")
          case True
          from new_old [OF x0] eq True show ?thesis by simp
        next
          case False
          with y f1 have y0: "y \<in> set (frameCallbacks s)" by simp
          from old1 [OF lt [OF x0]] old1 [OF lt [OF y0]] eq
          have "t_object (store s ! x) = t_object (store s ! y)
              \<and> t_propertyName (store s ! x) = t_propertyName (store s ! y)" by simp
          with o x0 y0 show ?thesis unfolding onePerPair_def by blast
        qed
      qed
    qed
    have reg: "tid \<in> set (frameCallbacks s1)" using f1 by simp
    have mm: "isRunning t' \<longrightarrow> isRunning (t_transition (store s1 ! tid))" using nr' by simp
    note k = applyMethod_keeps [OF we el q1 st1 l1 mm, folded a_def]
    have ev: "events (snd a) = events s1" using m(8) .
    have n: "tid \<notin> set (frameCallbacks (snd a))" using m(3) en by simp
    have ot: "objectTransitions (snd a)
        = multimap_remove (objectTransitions s1) (t_object (store s1 ! tid)) tid"
      using applyMethod_registry [OF el en, of tid t' s1] by (simp add: a_def)
    have nr: "\<not> isRunning (t_transition (store (snd a) ! tid))" using m(7) nr' by simp
    have s3: "run (fst a) (snd a)
        = run (map Cancel (multimap_get (objectTransitions (snd a)) obj) @ [Finish obj]) (snd a)"
      using tk en d ob1 by simp
    note z = ends_to_zero [OF we o1 reg d m(1) k ev n ot nr ob1 [symmetric] s3]
    have a1: "events (snd r) = events s @ [Detach obj, Destroy obj]"
      using z(2) ev1 by (simp add: r)
    from z(3) reg ob1 have a2: "tid \<notin> set (frameCallbacks (snd r))
        \<and> \<not> isRunning (t_transition (store (snd r) ! tid))"
      by (simp add: r)
    have a3: "\<forall>t \<in> set (frameCallbacks s). t_object (store s ! t) = obj \<longrightarrow>
               t \<notin> set (frameCallbacks (snd r))
             \<and> \<not> isRunning (t_transition (store (snd r) ! t))"
    proof (intro ballI impI)
      fix t assume t: "t \<in> set (frameCallbacks s)" and to: "t_object (store s ! t) = obj"
      from t f1 have t1: "t \<in> set (frameCallbacks s1)" by simp
      from old1 [OF lt [OF t]] to have "t_object (store s1 ! t) = obj" by simp
      with z(3) t1 show "t \<notin> set (frameCallbacks (snd r))
             \<and> \<not> isRunning (t_transition (store (snd r) ! t))"
        by (simp add: r)
    qed
    from a1 a2 a3 show "events (snd r) = events s @ [Detach obj, Destroy obj]
         \<and> length (store s) \<notin> set (frameCallbacks (snd r))
         \<and> \<not> isRunning (t_transition (store (snd r) ! length (store s)))
         \<and> (\<forall>t \<in> set (frameCallbacks s). t_object (store s ! t) = obj \<longrightarrow>
               t \<notin> set (frameCallbacks (snd r))
             \<and> \<not> isRunning (t_transition (store (snd r) ! t)))"
      unfolding tid_def by blast
  qed
qed

lemma ex_leaving_update:
  "OnEnd \<notin> fst ` set (fst (update 0 (t_transition (example_entry 0 1 0 0 50))))"
  "OnEnd \<in> fst ` set (fst (update 50 ((t_transition (example_entry 0 1 0 0 50))
                                          \<lparr>lastUpdateTime := Some 0\<rparr>)))"
  by (simp_all add: example_entry_def update_def updateCurrentValue_def fraction_def
      isRunning_def notifyCallbacks_def LinearEasing_def
      setEasing_def setDelay_def new_NumberTransition_def new_Transition_def Let_def)

lemma ex_moving:
  "frameCallbacks example_moving = [0]"
  "events example_moving = [Attach 0]"
  "length (store example_moving) = Suc 0"
  "t_object (store example_moving ! 0) = 0"
  "t_propertyName (store example_moving ! 0) = ''offsetX''"
  by (simp_all add: example_moving_def example_element_def new_element_def example_entry_def)

lemma ex_moving_invariant: "wellFormed example_moving \<and> onePerPair example_moving"
  by (simp add: wellFormed_def registriesAgree_def keysAgree_def
      registeredRunning_def onePerPair_def example_moving_def
      example_element_def new_element_def example_entry_def isRunning_def
      setEasing_def setDelay_def new_NumberTransition_def new_Transition_def)

lemma ex_fraction:
  "fraction (setEasing ea (setDelay dl (new_NumberTransition sv ev 0))) = 1"
  "fraction (setEasing ea (setDelay 0 (new_NumberTransition sv ev 50))) \<noteq> 1"
  by (simp_all add: fraction_def setEasing_def setDelay_def new_NumberTransition_def
      new_Transition_def)

text \<open>
  Claim C3. A transition of an element ends in one of three calls: \<open>cancel()\<close>, a frame
  of the clock that completes it, or \<open>start()\<close> in \<open>transitionPropertyValue\<close> when it
  is complete at once, as a transition of duration 0 is. In each of them, when the
  transition is a transition of \<open>value\<close> to 0, its end callback first cancels the other
  transitions of its object \<open>obj\<close> and then detaches and destroys \<open>obj\<close>: exactly one
  detach and one destroy are recorded, in this order, and afterwards no transition of
  \<open>obj\<close> is registered or running. When it is a transition of another property or to
  another value, or the call does not end it, nothing is detached or destroyed; nor is
  anything when \<open>transitionPropertyValue\<close> sets a value that is not a number.
  \<open>BaseElement.transition\<close> calls \<open>transitionPropertyValue\<close> for a property after it
  has cancelled the transitions of that property, when none is registered for it.
\<close>

theorem C3_value_zero_destroys:
  "(wellFormed s \<and> onePerPair s \<and> tid \<in> set (frameCallbacks s)
    \<and> obj = t_object (store s ! tid)
    \<longrightarrow>
      (destroysOnEnd (store s ! tid) \<longrightarrow>
         run [Cancel tid] s
           = destroyObject obj (detachObject obj
               (run (map Cancel (multimap_get (objectTransitions (snd (cancelStep tid s))) obj))
                  (snd (cancelStep tid s))))
       \<and> events (run [Cancel tid] s) = events s @ [Detach obj, Destroy obj]
       \<and> (\<forall>t \<in> set (frameCallbacks s). t_object (store s ! t) = obj \<longrightarrow>
             t \<notin> set (frameCallbacks (run [Cancel tid] s))
           \<and> \<not> isRunning (t_transition (store (run [Cancel tid] s) ! t))))
    \<and> (destroysOnEnd (store s ! tid)
       \<and> OnEnd \<in> fst ` set (fst (update time (t_transition (store s ! tid)))) \<longrightarrow>
         run [Frame tid time] s
           = destroyObject obj (detachObject obj
               (run (map Cancel (multimap_get (objectTransitions (snd (frameStep tid time s))) obj))
                  (snd (frameStep tid time s))))
       \<and> events (run [Frame tid time] s) = events s @ [Detach obj, Destroy obj]
       \<and> (\<forall>t \<in> set (frameCallbacks s). t_object (store s ! t) = obj \<longrightarrow>
             t \<notin> set (frameCallbacks (run [Frame tid time] s))
           \<and> \<not> isRunning (t_transition (store (run [Frame tid time] s) ! t))))
    \<and> (\<not> destroysOnEnd (store s ! tid) \<longrightarrow>
         events (run [Cancel tid] s) = events s \<and> events (run [Frame tid time] s) = events s)
    \<and> (OnEnd \<notin> fst ` set (fst (update time (t_transition (store s ! tid)))) \<longrightarrow>
         events (run [Frame tid time] s) = events s))
   \<and> (wellFormed s \<and> onePerPair s
      \<and> (\<forall>t \<in> set (frameCallbacks s).
            t_object (store s ! t) = object \<longrightarrow> t_propertyName (store s ! t) \<noteq> p)
      \<longrightarrow>
        (p = ''value'' \<and> target = 0
         \<and> fraction (setEasing ea (setDelay dl
               (new_NumberTransition (numberProperties s object p) target du))) = 1 \<longrightarrow>
           events (snd (transitionPropertyValue object p (Num target) dl du ea s))
             = events s @ [Detach object, Destroy object]
         \<and> length (store s)
             \<notin> set (frameCallbacks (snd (transitionPropertyValue object p (Num target) dl du ea s)))
         \<and> \<not> isRunning (t_transition
               (store (snd (transitionPropertyValue object p (Num target) dl du ea s))
                  ! length (store s)))
         \<and> (\<forall>t \<in> set (frameCallbacks s). t_object (store s ! t) = object \<longrightarrow>
               t \<notin> set (frameCallbacks
                         (snd (transitionPropertyValue object p (Num target) dl du ea s)))
             \<and> \<not> isRunning (t_transition
                   (store (snd (transitionPropertyValue object p (Num target) dl du ea s)) ! t))))
      \<and> (\<not> (p = ''value'' \<and> target = 0
             \<and> fraction (setEasing ea (setDelay dl
                   (new_NumberTransition (numberProperties s object p) target du))) = 1) \<longrightarrow>
           events (snd (transitionPropertyValue object p (Num target) dl du ea s)) = events s))
   \<and> ((\<forall>number. v \<noteq> Num number) \<longrightarrow>
        events (snd (transitionPropertyValue object p v dl du ea s)) = events s)
   \<and> (wellFormed s \<and> onePerPair s \<longrightarrow>
        wellFormed (cancelPropertyTransitions p s) \<and> onePerPair (cancelPropertyTransitions p s)
      \<and> (\<forall>t \<in> set (frameCallbacks (cancelPropertyTransitions p s)).
            t_propertyName (store (cancelPropertyTransitions p s) ! t) \<noteq> p))"
proof (intro conjI)
  show "wellFormed s \<and> onePerPair s \<and> tid \<in> set (frameCallbacks s)
    \<and> obj = t_object (store s ! tid)
    \<longrightarrow>
      (destroysOnEnd (store s ! tid) \<longrightarrow>
         run [Cancel tid] s
           = destroyObject obj (detachObject obj
               (run (map Cancel (multimap_get (objectTransitions (snd (cancelStep tid s))) obj))
                  (snd (cancelStep tid s))))
       \<and> events (run [Cancel tid] s) = events s @ [Detach obj, Destroy obj]
       \<and> (\<forall>t \<in> set (frameCallbacks s). t_object (store s ! t) = obj \<longrightarrow>
             t \<notin> set (frameCallbacks (run [Cancel tid] s))
           \<and> \<not> isRunning (t_transition (store (run [Cancel tid] s) ! t))))
    \<and> (destroysOnEnd (store s ! tid)
       \<and> OnEnd \<in> fst ` set (fst (update time (t_transition (store s ! tid)))) \<longrightarrow>
         run [Frame tid time] s
           = destroyObject obj (detachObject obj
               (run (map Cancel (multimap_get (objectTransitions (snd (frameStep tid time s))) obj))
                  (snd (frameStep tid time s))))
       \<and> events (run [Frame tid time] s) = events s @ [Detach obj, Destroy obj]
       \<and> (\<forall>t \<in> set (frameCallbacks s). t_object (store s ! t) = obj \<longrightarrow>
             t \<notin> set (frameCallbacks (run [Frame tid time] s))
           \<and> \<not> isRunning (t_transition (store (run [Frame tid time] s) ! t))))
    \<and> (\<not> destroysOnEnd (store s ! tid) \<longrightarrow>
         events (run [Cancel tid] s) = events s \<and> events (run [Frame tid time] s) = events s)
    \<and> (OnEnd \<notin> fst ` set (fst (update time (t_transition (store s ! tid)))) \<longrightarrow>
         events (run [Frame tid time] s) = events s)"
    by (rule end_by_call)
next
  show "wellFormed s \<and> onePerPair s
      \<and> (\<forall>t \<in> set (frameCallbacks s).
            t_object (store s ! t) = object \<longrightarrow> t_propertyName (store s ! t) \<noteq> p)
      \<longrightarrow>
        (p = ''value'' \<and> target = 0
         \<and> fraction (setEasing ea (setDelay dl
               (new_NumberTransition (numberProperties s object p) target du))) = 1 \<longrightarrow>
           events (snd (transitionPropertyValue object p (Num target) dl du ea s))
             = events s @ [Detach object, Destroy object]
         \<and> length (store s)
             \<notin> set (frameCallbacks (snd (transitionPropertyValue object p (Num target) dl du ea s)))
         \<and> \<not> isRunning (t_transition
               (store (snd (transitionPropertyValue object p (Num target) dl du ea s))
                  ! length (store s)))
         \<and> (\<forall>t \<in> set (frameCallbacks s). t_object (store s ! t) = object \<longrightarrow>
               t \<notin> set (frameCallbacks
                         (snd (transitionPropertyValue object p (Num target) dl du ea s)))
             \<and> \<not> isRunning (t_transition
                   (store (snd (transitionPropertyValue object p (Num target) dl du ea s)) ! t))))
      \<and> (\<not> (p = ''value'' \<and> target = 0
             \<and> fraction (setEasing ea (setDelay dl
                   (new_NumberTransition (numberProperties s object p) target du))) = 1) \<longrightarrow>
           events (snd (transitionPropertyValue object p (Num target) dl du ea s)) = events s)"
  proof (intro impI, elim conjE)
    assume w: "wellFormed s" and o: "onePerPair s"
      and pre: "\<forall>t \<in> set (frameCallbacks s).
            t_object (store s ! t) = object \<longrightarrow> t_propertyName (store s ! t) \<noteq> p"
    note e = transitionPropertyValue_end [where target = target and dl = dl and du = du and ea = ea,
        OF w o pre]
    from e(1) e(2) show "(p = ''value'' \<and> target = 0
         \<and> fraction (setEasing ea (setDelay dl
               (new_NumberTransition (numberProperties s object p) target du))) = 1 \<longrightarrow>
           events (snd (transitionPropertyValue object p (Num target) dl du ea s))
             = events s @ [Detach object, Destroy object]
         \<and> length (store s)
             \<notin> set (frameCallbacks (snd (transitionPropertyValue object p (Num target) dl du ea s)))
         \<and> \<not> isRunning (t_transition
               (store (snd (transitionPropertyValue object p (Num target) dl du ea s))
                  ! length (store s)))
         \<and> (\<forall>t \<in> set (frameCallbacks s). t_object (store s ! t) = object \<longrightarrow>
               t \<notin> set (frameCallbacks
                         (snd (transitionPropertyValue object p (Num target) dl du ea s)))
             \<and> \<not> isRunning (t_transition
                   (store (snd (transitionPropertyValue object p (Num target) dl du ea s)) ! t))))
      \<and> (\<not> (p = ''value'' \<and> target = 0
             \<and> fraction (setEasing ea (setDelay dl
                   (new_NumberTransition (numberProperties s object p) target du))) = 1) \<longrightarrow>
           events (snd (transitionPropertyValue object p (Num target) dl du ea s)) = events s)"
      by (rule conjI)
  qed
next
  show "(\<forall>number. v \<noteq> Num number) \<longrightarrow>
        events (snd (transitionPropertyValue object p v dl du ea s)) = events s"
  proof
    assume a: "\<forall>number. v \<noteq> Num number"
    have "events (setPropertyValue object p v s) = events s"
      by (simp add: setPropertyValue_def split: pvalue.splits)
    with transitionPropertyValue_other [OF a, of object p dl du ea s]
    show "events (snd (transitionPropertyValue object p v dl du ea s)) = events s" by simp
  qed
next
  show "wellFormed s \<and> onePerPair s \<longrightarrow>
        wellFormed (cancelPropertyTransitions p s) \<and> onePerPair (cancelPropertyTransitions p s)
      \<and> (\<forall>t \<in> set (frameCallbacks (cancelPropertyTransitions p s)).
            t_propertyName (store (cancelPropertyTransitions p s) ! t) \<noteq> p)"
  proof (intro impI, elim conjE)
    assume w: "wellFormed s" and o: "onePerPair s"
    note c = cancelPropertyTransitions_effect [OF w, of p]
    have "onePerPair (cancelPropertyTransitions p s)" using o c(2) by (rule onePerPair_keeps)
    moreover from c(3) have "\<forall>t \<in> set (frameCallbacks (cancelPropertyTransitions p s)).
            t_propertyName (store (cancelPropertyTransitions p s) ! t) \<noteq> p"
      unfolding onlyFor_def by auto
    ultimately show "wellFormed (cancelPropertyTransitions p s)
      \<and> onePerPair (cancelPropertyTransitions p s)
      \<and> (\<forall>t \<in> set (frameCallbacks (cancelPropertyTransitions p s)).
            t_propertyName (store (cancelPropertyTransitions p s) ! t) \<noteq> p)"
      using c(1) by simp
  qed
qed

text \<open>
  C3 on the examples. In the element whose object 0 is leaving, cancelling the transition
  0 of \<open>value\<close> to 0 detaches and destroys object 0 once and leaves neither transition
  registered; cancelling the transition 1 of \<open>offsetX\<close> destroys nothing; a first frame
  at time 0 destroys nothing; and the frame at time 50, which completes the transition 0,
  detaches and destroys object 0 once. In the element whose object 0 is moving, a
  transition of \<open>value\<close> to 0 of duration 0 ends in \<open>start()\<close>, cancels the transition
  of \<open>offsetX\<close> and detaches and destroys object 0 once, while one of duration 50
  destroys nothing.
\<close>

theorem C3_value_zero_destroys_witness:
  "events (run [Cancel 0] example_leaving) = [Attach 0, Detach 0, Destroy 0]
   \<and> 0 \<notin> set (frameCallbacks (run [Cancel 0] example_leaving))
   \<and> 1 \<notin> set (frameCallbacks (run [Cancel 0] example_leaving))
   \<and> \<not> isRunning (t_transition (store (run [Cancel 0] example_leaving) ! 1))
   \<and> events (run [Cancel 1] example_leaving) = [Attach 0]
   \<and> events (run [Frame 0 0] example_leaving) = [Attach 0]
   \<and> events (run [Frame 0 50] (nextFrame 0 example_leaving))
       = [Attach 0, Detach 0, Destroy 0]
   \<and> 1 \<notin> set (frameCallbacks (run [Frame 0 50] (nextFrame 0 example_leaving)))
   \<and> \<not> isRunning (t_transition (store (run [Frame 0 50] (nextFrame 0 example_leaving)) ! 1))
   \<and> events (snd (transitionPropertyValue 0 ''value'' (Num 0) 0 0 LinearEasing example_moving))
       = [Attach 0, Detach 0, Destroy 0]
   \<and> 0 \<notin> set (frameCallbacks
                 (snd (transitionPropertyValue 0 ''value'' (Num 0) 0 0 LinearEasing example_moving)))
   \<and> 1 \<notin> set (frameCallbacks
                 (snd (transitionPropertyValue 0 ''value'' (Num 0) 0 0 LinearEasing example_moving)))
   \<and> \<not> isRunning (t_transition
         (store (snd (transitionPropertyValue 0 ''value'' (Num 0) 0 0 LinearEasing example_moving))
            ! 0))
   \<and> events (snd (transitionPropertyValue 0 ''value'' (Num 0) 0 50 LinearEasing example_moving))
       = [Attach 0]
   \<and> events (snd (transitionPropertyValue 0 ''value'' Undefined 0 0 LinearEasing example_moving))
       = [Attach 0]
   \<and> onePerPair (cancelPropertyTransitions ''value'' example_leaving)"
proof -
  let ?s = "example_leaving"
  let ?s1 = "nextFrame 0 example_leaving"
  let ?m = "example_moving"
  note i = ex_leaving_invariant
  have st0: "t_transition (store ?s ! 0) = t_transition (example_entry 0 1 0 0 50)"
    by (simp add: example_leaving_def example_element_def new_element_def)
  from i have w1: "wellFormed ?s1" and k1: "stepKeeps ?s ?s1"
    using run_keeps [of ?s "map (\<lambda>tid. Frame tid 0) (frameCallbacks ?s)"]
    by (simp_all add: nextFrame_def)
  from i k1 have o1: "onePerPair ?s1" using onePerPair_keeps by blast
  note f = ex_leaving_frame [OF refl]
  from f have f1: "frameCallbacks ?s1 = [0, 1]" "events ?s1 = [Attach 0]"
    "t_object (store ?s1 ! 0) = 0" "t_object (store ?s1 ! Suc 0) = 0"
    "destroysOnEnd (store ?s1 ! 0)"
    "t_transition (store ?s1 ! 0)
       = (t_transition (example_entry 0 1 0 0 50))\<lparr>lastUpdateTime := Some 0\<rparr>"
    by (simp_all add: example_entry_def destroysOnEnd_def)
  have h0: "wellFormed ?s \<and> onePerPair ?s \<and> 0 \<in> set (frameCallbacks ?s)
      \<and> 0 = t_object (store ?s ! 0)"
    using i by (simp add: ex_leaving)
  have h1: "wellFormed ?s \<and> onePerPair ?s \<and> Suc 0 \<in> set (frameCallbacks ?s)
      \<and> 0 = t_object (store ?s ! Suc 0)"
    using i by (simp add: ex_leaving)
  have h2: "wellFormed ?s1 \<and> onePerPair ?s1 \<and> 0 \<in> set (frameCallbacks ?s1)
      \<and> 0 = t_object (store ?s1 ! 0)"
    using w1 o1 by (simp add: f1)
  have h3: "wellFormed ?m \<and> onePerPair ?m
      \<and> (\<forall>t \<in> set (frameCallbacks ?m).
            t_object (store ?m ! t) = 0 \<longrightarrow> t_propertyName (store ?m ! t) \<noteq> ''value'')"
    using ex_moving_invariant by (simp add: ex_moving)
  note t0 = C3_value_zero_destroys [where s = ?s and tid = 0 and obj = 0 and time = 0,
      THEN conjunct1, THEN mp, OF h0]
  note t1 = C3_value_zero_destroys [where s = ?s and tid = "Suc 0" and obj = 0 and time = 0,
      THEN conjunct1, THEN mp, OF h1]
  note t2 = C3_value_zero_destroys [where s = ?s1 and tid = 0 and obj = 0 and time = 50,
      THEN conjunct1, THEN mp, OF h2]
  note t3 = C3_value_zero_destroys [where s = ?m and object = 0 and p = "''value''"
      and target = 0 and ea = LinearEasing and dl = 0 and du = 0,
      THEN conjunct2, THEN conjunct1, THEN mp, OF h3]
  note t4 = C3_value_zero_destroys [where s = ?m and object = 0 and p = "''value''"
      and target = 0 and ea = LinearEasing and dl = 0 and du = 50,
      THEN conjunct2, THEN conjunct1, THEN mp, OF h3]
  note t5 = C3_value_zero_destroys [where s = ?m and object = 0 and p = "''value''"
      and v = Undefined and ea = LinearEasing and dl = 0 and du = 0,
      THEN conjunct2, THEN conjunct2, THEN conjunct1]
  note t6 = C3_value_zero_destroys [where s = ?s and p = "''value''",
      THEN conjunct2, THEN conjunct2, THEN conjunct2, THEN mp, OF i]
  from t0 [THEN conjunct1, THEN mp, OF ex_leaving(5), THEN conjunct2]
  have a: "events (run [Cancel 0] ?s) = [Attach 0, Detach 0, Destroy 0]
      \<and> 0 \<notin> set (frameCallbacks (run [Cancel 0] ?s))
      \<and> Suc 0 \<notin> set (frameCallbacks (run [Cancel 0] ?s))
      \<and> \<not> isRunning (t_transition (store (run [Cancel 0] ?s) ! Suc 0))"
    by (simp add: ex_leaving del: run.simps)
  have "OnEnd \<notin> fst ` set (fst (update 0 (t_transition (store ?s ! 0))))"
    unfolding st0 by (rule ex_leaving_update(1))
  from t0 [THEN conjunct2, THEN conjunct2, THEN conjunct2, THEN mp, OF this]
  have a': "events (run [Frame 0 0] ?s) = [Attach 0]"
    by (simp add: ex_leaving del: run.simps)
  from t1 [THEN conjunct2, THEN conjunct2, THEN conjunct1, THEN mp, OF ex_leaving(6)]
  have b: "events (run [Cancel (Suc 0)] ?s) = [Attach 0]"
    by (simp add: ex_leaving del: run.simps)
  have "destroysOnEnd (store ?s1 ! 0)
      \<and> OnEnd \<in> fst ` set (fst (update 50 (t_transition (store ?s1 ! 0))))"
    unfolding f1(6) using f1(5) ex_leaving_update(2) by simp
  from t2 [THEN conjunct2, THEN conjunct1, THEN mp, OF this, THEN conjunct2]
  have c: "events (run [Frame 0 50] ?s1) = [Attach 0, Detach 0, Destroy 0]
      \<and> Suc 0 \<notin> set (frameCallbacks (run [Frame 0 50] ?s1))
      \<and> \<not> isRunning (t_transition (store (run [Frame 0 50] ?s1) ! Suc 0))"
    by (simp add: f1 del: run.simps)
  have "''value'' = ''value'' \<and> (0::real) = 0
      \<and> fraction (setEasing LinearEasing (setDelay 0
            (new_NumberTransition (numberProperties ?m 0 ''value'') 0 0))) = 1"
    by (simp add: ex_fraction(1))
  from t3 [THEN conjunct1, THEN mp, OF this]
  have d: "events (snd (transitionPropertyValue 0 ''value'' (Num 0) 0 0 LinearEasing ?m))
       = [Attach 0, Detach 0, Destroy 0]
     \<and> 0 \<notin> set (frameCallbacks
                 (snd (transitionPropertyValue 0 ''value'' (Num 0) 0 0 LinearEasing ?m)))
     \<and> Suc 0 \<notin> set (frameCallbacks
                 (snd (transitionPropertyValue 0 ''value'' (Num 0) 0 0 LinearEasing ?m)))
     \<and> \<not> isRunning (t_transition
         (store (snd (transitionPropertyValue 0 ''value'' (Num 0) 0 0 LinearEasing ?m)) ! 0))"
    by (simp add: ex_moving)
  have "\<not> (''value'' = ''value'' \<and> (0::real) = 0
      \<and> fraction (setEasing LinearEasing (setDelay 0
            (new_NumberTransition (numberProperties ?m 0 ''value'') 0 50))) = 1)"
    using ex_fraction(2) by simp
  from t4 [THEN conjunct2, THEN mp, OF this]
  have e: "events (snd (transitionPropertyValue 0 ''value'' (Num 0) 0 50 LinearEasing ?m))
       = [Attach 0]"
    by (simp add: ex_moving)
  from t5 have g: "events (snd (transitionPropertyValue 0 ''value'' Undefined 0 0 LinearEasing ?m))
       = [Attach 0]"
    by (simp add: ex_moving)
  from t6 have h: "onePerPair (cancelPropertyTransitions ''value'' ?s)" by simp
  from a a' b c d e g h show ?thesis by (simp del: run.simps)
qed

end
